(* ===== verification/AEC_Prelude.thy ===== *)
theory AEC_Prelude
  imports Complex_Main "HOL-Library.Word"
begin

text \<open>
  What every theory of the development shares: the names of the C++ integer types, the result
  type of the stack's callbacks, the collections of simplification rules the component theories
  fill, the C array operations the code uses, and three generic interfaces (invariants of a
  transition system, lists read one element at a time, and searching a fixed table) that the
  component theories interpret on the code's own definitions.
\<close>

section \<open>Machine types\<close>

type_synonym u8 = "8 word"
type_synonym u16 = "16 word"
type_synonym u32 = "32 word"
type_synonym u64 = "64 word"

text \<open>
  A stack callback that returns \<open>bool\<close>, fills an out-parameter and may set \<open>*errorCode\<close>:
  \<open>Inr v\<close> is \<open>true\<close> with the out-parameter \<open>v\<close>, \<open>Inl e\<close> is \<open>false\<close> with \<open>*errorCode = e\<close>.
  The stack presets the error code to success (84) before the call, so a callback that
  declines without naming an error is \<open>Inl 84\<close>.
\<close>

type_synonym 'a callback = "u32 + 'a"

named_theorems aec_inv \<open>preservation lemmas of the component invariants\<close>
named_theorems aec_abs \<open>what the operations do to the abstract view of a component\<close>

section \<open>Arrays\<close>

text \<open>\<open>memcpy (dst + p) src n\<close> inside one array: the octets from \<open>p\<close> on are replaced.\<close>

definition array_put :: "'a list \<Rightarrow> nat \<Rightarrow> 'a list \<Rightarrow> 'a list" where
  "array_put xs p ys = take p xs @ ys @ drop (p + length ys) xs"

lemma length_array_put [simp]:
  "p + length ys \<le> length xs \<Longrightarrow> length (array_put xs p ys) = length xs"
  by (simp add: array_put_def)

lemma take_array_put:
  "p + length ys \<le> length xs \<Longrightarrow> take (p + length ys) (array_put xs p ys) = take p xs @ ys"
  by (simp add: array_put_def)

lemma array_put_nth:
  assumes "p + length ys \<le> length xs" "i < length xs"
  shows "array_put xs p ys ! i =
    (if p \<le> i \<and> i < p + length ys then ys ! (i - p) else xs ! i)"
  using assms by (auto simp: array_put_def nth_append min_def)

lemma list_update_take_last:
  "n < length xs \<Longrightarrow> take (Suc n) (xs[n := x]) = take n xs @ [x]"
  by (simp add: take_Suc_conv_app_nth)

lemma unat_ucast_up:
  "LENGTH('a) \<le> LENGTH('b) \<Longrightarrow> unat (ucast (w :: 'a :: len word) :: 'b :: len word) = unat w"
proof -
  assume "LENGTH('a) \<le> LENGTH('b)"
  moreover have "unat w < 2 ^ LENGTH('a)" by simp
  ultimately have "unat w < 2 ^ LENGTH('b)" by (metis less_le_trans one_le_numeral power_increasing)
  then show ?thesis by (simp add: unsigned_ucast_eq take_bit_nat_eq_self)
qed

lemma one_le_word_iff: "1 \<le> (x :: 'a :: len word) \<longleftrightarrow> x \<noteq> 0"
  by (metis linorder_not_less word_less_1)

lemma sum_case_Inr_iff: "(case r of Inl e \<Rightarrow> False | Inr x \<Rightarrow> P x) \<longleftrightarrow> (\<exists>x. r = Inr x \<and> P x)"
  by (cases r) auto

section \<open>Transition systems and invariants\<close>

inductive reach :: "('s \<Rightarrow> bool) \<Rightarrow> ('s \<Rightarrow> 'l \<Rightarrow> 's \<Rightarrow> bool) \<Rightarrow> 's \<Rightarrow> bool"
  for start :: "'s \<Rightarrow> bool" and step :: "'s \<Rightarrow> 'l \<Rightarrow> 's \<Rightarrow> bool" where
  reach_start: "start s \<Longrightarrow> reach start step s"
| reach_step: "reach start step s \<Longrightarrow> step s l t \<Longrightarrow> reach start step t"

locale invariant_system =
  fixes start :: "'s \<Rightarrow> bool"
    and step :: "'s \<Rightarrow> 'l \<Rightarrow> 's \<Rightarrow> bool"
    and inv :: "'s \<Rightarrow> bool"
  assumes start_inv: "start s \<Longrightarrow> inv s"
    and step_inv: "inv s \<Longrightarrow> step s l t \<Longrightarrow> inv t"
begin

lemma reach_inv: "reach start step s \<Longrightarrow> inv s"
  by (induction rule: reach.induct) (auto intro: start_inv step_inv)

end

section \<open>Lists read one element at a time\<close>

text \<open>
  The stack pages through a list property by calling a callback with the element index 0, 1, 2,
  \<dots>; the callback answers the element and whether more follow, or declines. \<open>page_walk\<close> is that
  client: it stops at the first declined call or at the first element without more.
\<close>

fun page_walk :: "nat \<Rightarrow> (nat \<Rightarrow> ('a \<times> bool) option) \<Rightarrow> nat \<Rightarrow> 'a list" where
  "page_walk 0 get i = []"
| "page_walk (Suc fuel) get i =
     (case get i of
        None \<Rightarrow> []
      | Some (x, more) \<Rightarrow> x # (if more then page_walk fuel get (Suc i) else []))"

locale paged_list =
  fixes get :: "'s \<Rightarrow> nat \<Rightarrow> ('a \<times> bool) option"
    and elems :: "'s \<Rightarrow> 'a list"
    and inv :: "'s \<Rightarrow> bool"
  assumes get_elem: "inv s \<Longrightarrow> i \<le> length (elems s) \<Longrightarrow>
    get s i = (if i < length (elems s) then Some (elems s ! i, Suc i < length (elems s)) else None)"
begin

lemma page_walk_drop:
  "inv s \<Longrightarrow> i \<le> length (elems s) \<Longrightarrow> length (elems s) < fuel + i \<Longrightarrow> page_walk fuel (get s) i = drop i (elems s)"
proof (induction fuel arbitrary: i)
  case 0
  then show ?case by simp
next
  case (Suc fuel)
  show ?case
  proof (cases "i < length (elems s)")
    case True
    have "page_walk fuel (get s) (Suc i) = drop (Suc i) (elems s)"
      using Suc.prems True by (intro Suc.IH) auto
    then show ?thesis
      using True Suc.prems get_elem [of s i]
      by (cases "Suc i < length (elems s)") (auto simp: Cons_nth_drop_Suc [symmetric])
  qed (use Suc.prems get_elem [of s i] in simp)
qed

lemma page_walk_all: "inv s \<Longrightarrow> length (elems s) < fuel \<Longrightarrow> page_walk fuel (get s) 0 = elems s"
  using page_walk_drop [of s 0 fuel] by simp

lemma page_first_empty: "inv s \<Longrightarrow> get s 0 = None \<longleftrightarrow> elems s = []"
  using get_elem [of s 0] by auto

end

end
