(* ===== verification/BACnet_Constants.thy ===== *)
theory BACnet_Constants
  imports AEC_Prelude
begin

text \<open>
  The numeric constants of the program: the BACnet enumerations mirrored in
  \<open>common/CASBACnetStackExampleConstants.h\<close> and the ones \<open>main.cpp\<close> declares itself, each with
  the source's name, width and value. They are simplification rules, so comparisons between
  constants evaluate.
\<close>

section \<open>\<open>common/CASBACnetStackExampleConstants.h\<close>\<close>

definition OBJECT_TYPE_ANALOG_INPUT :: u16 where [simp]: "OBJECT_TYPE_ANALOG_INPUT = 0"
definition OBJECT_TYPE_ANALOG_OUTPUT :: u16 where [simp]: "OBJECT_TYPE_ANALOG_OUTPUT = 1"
definition OBJECT_TYPE_ANALOG_VALUE :: u16 where [simp]: "OBJECT_TYPE_ANALOG_VALUE = 2"
definition OBJECT_TYPE_BINARY_INPUT :: u16 where [simp]: "OBJECT_TYPE_BINARY_INPUT = 3"
definition OBJECT_TYPE_BINARY_OUTPUT :: u16 where [simp]: "OBJECT_TYPE_BINARY_OUTPUT = 4"
definition OBJECT_TYPE_DEVICE :: u16 where [simp]: "OBJECT_TYPE_DEVICE = 8"
definition OBJECT_TYPE_MULTI_STATE_INPUT :: u16 where [simp]: "OBJECT_TYPE_MULTI_STATE_INPUT = 13"
definition OBJECT_TYPE_MULTI_STATE_OUTPUT :: u16 where [simp]: "OBJECT_TYPE_MULTI_STATE_OUTPUT = 14"
definition OBJECT_TYPE_NOTIFICATION_CLASS :: u16 where [simp]: "OBJECT_TYPE_NOTIFICATION_CLASS = 15"
definition OBJECT_TYPE_NETWORK_PORT :: u16 where [simp]: "OBJECT_TYPE_NETWORK_PORT = 56"
definition PROPERTY_IDENTIFIER_APPLICATION_SOFTWARE_VERSION :: u32 where [simp]: "PROPERTY_IDENTIFIER_APPLICATION_SOFTWARE_VERSION = 12"
definition PROPERTY_IDENTIFIER_APDU_LENGTH :: u32 where [simp]: "PROPERTY_IDENTIFIER_APDU_LENGTH = 399"
definition PROPERTY_IDENTIFIER_DESCRIPTION :: u32 where [simp]: "PROPERTY_IDENTIFIER_DESCRIPTION = 28"
definition PROPERTY_IDENTIFIER_FIRMWARE_REVISION :: u32 where [simp]: "PROPERTY_IDENTIFIER_FIRMWARE_REVISION = 44"
definition PROPERTY_IDENTIFIER_LOCAL_DATE :: u32 where [simp]: "PROPERTY_IDENTIFIER_LOCAL_DATE = 56"
definition PROPERTY_IDENTIFIER_LOCAL_TIME :: u32 where [simp]: "PROPERTY_IDENTIFIER_LOCAL_TIME = 57"
definition PROPERTY_IDENTIFIER_LOCATION :: u32 where [simp]: "PROPERTY_IDENTIFIER_LOCATION = 58"
definition PROPERTY_IDENTIFIER_MODEL_NAME :: u32 where [simp]: "PROPERTY_IDENTIFIER_MODEL_NAME = 70"
definition PROPERTY_IDENTIFIER_IP_ADDRESS :: u32 where [simp]: "PROPERTY_IDENTIFIER_IP_ADDRESS = 400"
definition PROPERTY_IDENTIFIER_IP_DEFAULT_GATEWAY :: u32 where [simp]: "PROPERTY_IDENTIFIER_IP_DEFAULT_GATEWAY = 401"
definition PROPERTY_IDENTIFIER_BACNET_IP_MODE :: u32 where [simp]: "PROPERTY_IDENTIFIER_BACNET_IP_MODE = 408"
definition PROPERTY_IDENTIFIER_IP_SUBNET_MASK :: u32 where [simp]: "PROPERTY_IDENTIFIER_IP_SUBNET_MASK = 411"
definition PROPERTY_IDENTIFIER_BACNET_IP_UDP_PORT :: u32 where [simp]: "PROPERTY_IDENTIFIER_BACNET_IP_UDP_PORT = 412"
definition PROPERTY_IDENTIFIER_LINK_SPEED :: u32 where [simp]: "PROPERTY_IDENTIFIER_LINK_SPEED = 420"
definition PROPERTY_IDENTIFIER_MAC_ADDRESS :: u32 where [simp]: "PROPERTY_IDENTIFIER_MAC_ADDRESS = 423"
definition PROPERTY_IDENTIFIER_NUMBER_OF_STATES :: u32 where [simp]: "PROPERTY_IDENTIFIER_NUMBER_OF_STATES = 74"
definition PROPERTY_IDENTIFIER_OBJECT_IDENTIFIER :: u32 where [simp]: "PROPERTY_IDENTIFIER_OBJECT_IDENTIFIER = 75"
definition PROPERTY_IDENTIFIER_OBJECT_NAME :: u32 where [simp]: "PROPERTY_IDENTIFIER_OBJECT_NAME = 77"
definition PROPERTY_IDENTIFIER_OBJECT_TYPE :: u32 where [simp]: "PROPERTY_IDENTIFIER_OBJECT_TYPE = 79"
definition PROPERTY_IDENTIFIER_OUT_OF_SERVICE :: u32 where [simp]: "PROPERTY_IDENTIFIER_OUT_OF_SERVICE = 81"
definition PROPERTY_IDENTIFIER_POLARITY :: u32 where [simp]: "PROPERTY_IDENTIFIER_POLARITY = 84"
definition PROPERTY_IDENTIFIER_PRESENT_VALUE :: u32 where [simp]: "PROPERTY_IDENTIFIER_PRESENT_VALUE = 85"
definition PROPERTY_IDENTIFIER_PRIORITY_ARRAY :: u32 where [simp]: "PROPERTY_IDENTIFIER_PRIORITY_ARRAY = 87"
definition PROPERTY_IDENTIFIER_RELINQUISH_DEFAULT :: u32 where [simp]: "PROPERTY_IDENTIFIER_RELINQUISH_DEFAULT = 104"
definition PROPERTY_IDENTIFIER_CURRENT_COMMAND_PRIORITY :: u32 where [simp]: "PROPERTY_IDENTIFIER_CURRENT_COMMAND_PRIORITY = 431"
definition PROPERTY_IDENTIFIER_REFERENCE_PORT :: u32 where [simp]: "PROPERTY_IDENTIFIER_REFERENCE_PORT = 483"
definition PROPERTY_IDENTIFIER_ROUTING_TABLE :: u32 where [simp]: "PROPERTY_IDENTIFIER_ROUTING_TABLE = 428"
definition PROPERTY_IDENTIFIER_STATE_TEXT :: u32 where [simp]: "PROPERTY_IDENTIFIER_STATE_TEXT = 110"
definition PROPERTY_IDENTIFIER_STATUS_FLAGS :: u32 where [simp]: "PROPERTY_IDENTIFIER_STATUS_FLAGS = 111"
definition PROPERTY_IDENTIFIER_SYSTEM_STATUS :: u32 where [simp]: "PROPERTY_IDENTIFIER_SYSTEM_STATUS = 112"
definition PROPERTY_IDENTIFIER_UNITS :: u32 where [simp]: "PROPERTY_IDENTIFIER_UNITS = 117"
definition PROPERTY_IDENTIFIER_VENDOR_IDENTIFIER :: u32 where [simp]: "PROPERTY_IDENTIFIER_VENDOR_IDENTIFIER = 120"
definition PROPERTY_IDENTIFIER_VENDOR_NAME :: u32 where [simp]: "PROPERTY_IDENTIFIER_VENDOR_NAME = 121"
definition ENGINEERING_UNITS_DEGREES_CELSIUS :: u32 where [simp]: "ENGINEERING_UNITS_DEGREES_CELSIUS = 62"
definition ENGINEERING_UNITS_PERCENT :: u32 where [simp]: "ENGINEERING_UNITS_PERCENT = 98"
definition POLARITY_NORMAL :: u32 where [simp]: "POLARITY_NORMAL = 0"
definition BACNET_IP_MODE_NORMAL :: u32 where [simp]: "BACNET_IP_MODE_NORMAL = 0"
definition SERVICE_ACKNOWLEDGE_ALARM :: u32 where [simp]: "SERVICE_ACKNOWLEDGE_ALARM = 0"
definition SERVICE_CONFIRMED_EVENT_NOTIFICATION :: u32 where [simp]: "SERVICE_CONFIRMED_EVENT_NOTIFICATION = 2"
definition SERVICE_READ_PROPERTY :: u32 where [simp]: "SERVICE_READ_PROPERTY = 12"
definition SERVICE_READ_PROPERTY_MULTIPLE :: u32 where [simp]: "SERVICE_READ_PROPERTY_MULTIPLE = 14"
definition SERVICE_WRITE_PROPERTY :: u32 where [simp]: "SERVICE_WRITE_PROPERTY = 15"
definition SERVICE_WRITE_PROPERTY_MULTIPLE :: u32 where [simp]: "SERVICE_WRITE_PROPERTY_MULTIPLE = 16"
definition SERVICE_DEVICE_COMMUNICATION_CONTROL :: u32 where [simp]: "SERVICE_DEVICE_COMMUNICATION_CONTROL = 17"
definition SERVICE_REINITIALIZE_DEVICE :: u32 where [simp]: "SERVICE_REINITIALIZE_DEVICE = 20"
definition SERVICE_I_AM :: u32 where [simp]: "SERVICE_I_AM = 26"
definition SERVICE_I_HAVE :: u32 where [simp]: "SERVICE_I_HAVE = 27"
definition SERVICE_UNCONFIRMED_EVENT_NOTIFICATION :: u32 where [simp]: "SERVICE_UNCONFIRMED_EVENT_NOTIFICATION = 29"
definition SERVICE_TIME_SYNCHRONIZATION :: u32 where [simp]: "SERVICE_TIME_SYNCHRONIZATION = 32"
definition SERVICE_WHO_HAS :: u32 where [simp]: "SERVICE_WHO_HAS = 33"
definition SERVICE_WHO_IS :: u32 where [simp]: "SERVICE_WHO_IS = 34"
definition SERVICE_UTC_TIME_SYNCHRONIZATION :: u32 where [simp]: "SERVICE_UTC_TIME_SYNCHRONIZATION = 36"
definition SERVICE_GET_EVENT_INFORMATION :: u32 where [simp]: "SERVICE_GET_EVENT_INFORMATION = 39"
definition READ_PROPERTY_SERVICE_TYPE :: u8 where [simp]: "READ_PROPERTY_SERVICE_TYPE = 12"
definition READ_PROPERTY_MULTIPLE_SERVICE_TYPE :: u8 where [simp]: "READ_PROPERTY_MULTIPLE_SERVICE_TYPE = 14"
definition WRITE_PROPERTY_SERVICE_TYPE :: u8 where [simp]: "WRITE_PROPERTY_SERVICE_TYPE = 15"
definition BACNET_DATATYPE_REAL :: u8 where [simp]: "BACNET_DATATYPE_REAL = 4"
definition DCC_ENABLE :: u8 where [simp]: "DCC_ENABLE = 0"
definition DCC_DISABLE :: u8 where [simp]: "DCC_DISABLE = 1"
definition DCC_DISABLE_INITIATION :: u8 where [simp]: "DCC_DISABLE_INITIATION = 2"
definition REINITIALIZE_STATE_COLDSTART :: u32 where [simp]: "REINITIALIZE_STATE_COLDSTART = 0"
definition REINITIALIZE_STATE_WARMSTART :: u32 where [simp]: "REINITIALIZE_STATE_WARMSTART = 1"
definition NOTIFY_TYPE_ALARM :: u8 where [simp]: "NOTIFY_TYPE_ALARM = 0"
definition NOTIFY_TYPE_EVENT :: u8 where [simp]: "NOTIFY_TYPE_EVENT = 1"
definition ERROR_CODE_READ_ACCESS_DENIED :: u32 where [simp]: "ERROR_CODE_READ_ACCESS_DENIED = 27"
definition ERROR_CODE_PASSWORD_FAILURE :: u32 where [simp]: "ERROR_CODE_PASSWORD_FAILURE = 26"
definition ERROR_CODE_UNKNOWN_PROPERTY :: u32 where [simp]: "ERROR_CODE_UNKNOWN_PROPERTY = 32"
definition ERROR_CODE_VALUE_OUT_OF_RANGE :: u32 where [simp]: "ERROR_CODE_VALUE_OUT_OF_RANGE = 37"
definition ERROR_CODE_INVALID_ARRAY_INDEX :: u32 where [simp]: "ERROR_CODE_INVALID_ARRAY_INDEX = 42"
definition ERROR_CODE_OPTIONAL_FUNCTIONALITY_NOT_SUPPORTED :: u32 where [simp]: "ERROR_CODE_OPTIONAL_FUNCTIONALITY_NOT_SUPPORTED = 45"
definition ERROR_CODE_SUCCESS :: u32 where [simp]: "ERROR_CODE_SUCCESS = 84"
definition NETWORK_TYPE_IP :: u8 where [simp]: "NETWORK_TYPE_IP = 0"
definition NETWORK_PORT_NETWORK_TYPE_IPV4 :: u8 where [simp]: "NETWORK_PORT_NETWORK_TYPE_IPV4 = 5"
definition NETWORK_PORT_PROTOCOL_LEVEL_BACNET_APPLICATION :: u8 where [simp]: "NETWORK_PORT_PROTOCOL_LEVEL_BACNET_APPLICATION = 2"
definition NETWORK_PORT_REFERENCE_PORT_NONE :: u32 where [simp]: "NETWORK_PORT_REFERENCE_PORT_NONE = 4194303"
definition NETWORK_NUMBER_QUALITY_UNKNOWN :: u8 where [simp]: "NETWORK_NUMBER_QUALITY_UNKNOWN = 0"
definition NETWORK_NUMBER_QUALITY_LEARNED :: u8 where [simp]: "NETWORK_NUMBER_QUALITY_LEARNED = 1"
definition NETWORK_NUMBER_QUALITY_LEARNED_CONFIGURED :: u8 where [simp]: "NETWORK_NUMBER_QUALITY_LEARNED_CONFIGURED = 2"
definition NETWORK_NUMBER_QUALITY_CONFIGURED :: u8 where [simp]: "NETWORK_NUMBER_QUALITY_CONFIGURED = 3"
definition CHARACTER_STRING_ENCODING_UTF8 :: u8 where [simp]: "CHARACTER_STRING_ENCODING_UTF8 = 0"

section \<open>\<open>main.cpp\<close>\<close>

definition VENDOR_IDENTIFIER :: u32 where [simp]: "VENDOR_IDENTIFIER = 389"
definition ANALOG_INPUT_INSTANCE :: u32 where [simp]: "ANALOG_INPUT_INSTANCE = 1"
definition BINARY_INPUT_INSTANCE :: u32 where [simp]: "BINARY_INPUT_INSTANCE = 1"
definition MULTI_STATE_INPUT_INSTANCE :: u32 where [simp]: "MULTI_STATE_INPUT_INSTANCE = 1"
definition MULTI_STATE_INPUT_NUMBER_OF_STATES :: u32 where [simp]: "MULTI_STATE_INPUT_NUMBER_OF_STATES = 3"
definition ANALOG_OUTPUT_INSTANCE :: u32 where [simp]: "ANALOG_OUTPUT_INSTANCE = 1"
definition BINARY_OUTPUT_INSTANCE :: u32 where [simp]: "BINARY_OUTPUT_INSTANCE = 1"
definition MULTI_STATE_OUTPUT_INSTANCE :: u32 where [simp]: "MULTI_STATE_OUTPUT_INSTANCE = 1"
definition MULTI_STATE_OUTPUT_NUMBER_OF_STATES :: u32 where [simp]: "MULTI_STATE_OUTPUT_NUMBER_OF_STATES = 3"
definition BACNET_PRIORITY_ARRAY_SIZE :: u32 where [simp]: "BACNET_PRIORITY_ARRAY_SIZE = 16"
definition MAX_CREATED_ANALOG_VALUES :: u32 where [simp]: "MAX_CREATED_ANALOG_VALUES = 8"
definition NETWORK_PORT_INSTANCE :: u32 where [simp]: "NETWORK_PORT_INSTANCE = 1"
definition MAX_APDU_LENGTH :: u32 where [simp]: "MAX_APDU_LENGTH = 1476"
definition PROPERTY_IDENTIFIER_COV_INCREMENT :: u32 where [simp]: "PROPERTY_IDENTIFIER_COV_INCREMENT = 22"
definition OBJECT_TYPE_ELEVATOR_GROUP :: u16 where [simp]: "OBJECT_TYPE_ELEVATOR_GROUP = 57"
definition OBJECT_TYPE_ESCALATOR :: u16 where [simp]: "OBJECT_TYPE_ESCALATOR = 58"
definition OBJECT_TYPE_LIFT :: u16 where [simp]: "OBJECT_TYPE_LIFT = 59"
definition OBJECT_TYPE_POSITIVE_INTEGER_VALUE :: u16 where [simp]: "OBJECT_TYPE_POSITIVE_INTEGER_VALUE = 48"
definition PROPERTY_IDENTIFIER_ASSIGNED_LANDING_CALLS :: u32 where [simp]: "PROPERTY_IDENTIFIER_ASSIGNED_LANDING_CALLS = 447"
definition PROPERTY_IDENTIFIER_CAR_DOOR_STATUS :: u32 where [simp]: "PROPERTY_IDENTIFIER_CAR_DOOR_STATUS = 450"
definition PROPERTY_IDENTIFIER_CAR_MOVING_DIRECTION :: u32 where [simp]: "PROPERTY_IDENTIFIER_CAR_MOVING_DIRECTION = 457"
definition PROPERTY_IDENTIFIER_CAR_POSITION :: u32 where [simp]: "PROPERTY_IDENTIFIER_CAR_POSITION = 458"
definition PROPERTY_IDENTIFIER_ESCALATOR_MODE :: u32 where [simp]: "PROPERTY_IDENTIFIER_ESCALATOR_MODE = 462"
definition PROPERTY_IDENTIFIER_FAULT_SIGNALS :: u32 where [simp]: "PROPERTY_IDENTIFIER_FAULT_SIGNALS = 463"
definition PROPERTY_IDENTIFIER_GROUP_MODE :: u32 where [simp]: "PROPERTY_IDENTIFIER_GROUP_MODE = 467"
definition PROPERTY_IDENTIFIER_LANDING_CALL_CONTROL :: u32 where [simp]: "PROPERTY_IDENTIFIER_LANDING_CALL_CONTROL = 471"
definition PROPERTY_IDENTIFIER_LANDING_CALLS :: u32 where [simp]: "PROPERTY_IDENTIFIER_LANDING_CALLS = 470"
definition PROPERTY_IDENTIFIER_LANDING_DOOR_STATUS :: u32 where [simp]: "PROPERTY_IDENTIFIER_LANDING_DOOR_STATUS = 472"
definition PROPERTY_IDENTIFIER_OPERATION_DIRECTION :: u32 where [simp]: "PROPERTY_IDENTIFIER_OPERATION_DIRECTION = 477"
definition PROPERTY_IDENTIFIER_PASSENGER_ALARM :: u32 where [simp]: "PROPERTY_IDENTIFIER_PASSENGER_ALARM = 478"
definition PROPERTY_IDENTIFIER_POWER_MODE :: u32 where [simp]: "PROPERTY_IDENTIFIER_POWER_MODE = 479"
definition PROPERTY_IDENTIFIER_REGISTERED_CAR_CALL :: u32 where [simp]: "PROPERTY_IDENTIFIER_REGISTERED_CAR_CALL = 480"
definition LIFT_CAR_DIRECTION_NONE :: u32 where [simp]: "LIFT_CAR_DIRECTION_NONE = 1"
definition LIFT_CAR_DIRECTION_STOPPED :: u32 where [simp]: "LIFT_CAR_DIRECTION_STOPPED = 2"
definition LIFT_CAR_DIRECTION_UP :: u32 where [simp]: "LIFT_CAR_DIRECTION_UP = 3"
definition LIFT_CAR_DIRECTION_DOWN :: u32 where [simp]: "LIFT_CAR_DIRECTION_DOWN = 4"
definition LANDING_CALL_COMMAND_DIRECTION :: u8 where [simp]: "LANDING_CALL_COMMAND_DIRECTION = 1"
definition LANDING_CALL_COMMAND_DESTINATION :: u8 where [simp]: "LANDING_CALL_COMMAND_DESTINATION = 2"
definition DOOR_STATUS_CLOSED :: u32 where [simp]: "DOOR_STATUS_CLOSED = 0"
definition DOOR_STATUS_OPENED :: u32 where [simp]: "DOOR_STATUS_OPENED = 1"
definition LIFT_GROUP_MODE_NORMAL :: u32 where [simp]: "LIFT_GROUP_MODE_NORMAL = 1"
definition ESCALATOR_OPERATION_DIRECTION_UP_RATED_SPEED :: u32 where [simp]: "ESCALATOR_OPERATION_DIRECTION_UP_RATED_SPEED = 2"
definition ESCALATOR_MODE_UP :: u32 where [simp]: "ESCALATOR_MODE_UP = 2"
definition ELEVATOR_GROUP_INSTANCE :: u32 where [simp]: "ELEVATOR_GROUP_INSTANCE = 1"
definition LIFT_INSTANCE :: u32 where [simp]: "LIFT_INSTANCE = 1"
definition ESCALATOR_INSTANCE :: u32 where [simp]: "ESCALATOR_INSTANCE = 1"
definition ELEVATOR_GROUP_ID :: u8 where [simp]: "ELEVATOR_GROUP_ID = 1"
definition LIFT_INSTALLATION_ID :: u8 where [simp]: "LIFT_INSTALLATION_ID = 1"
definition ESCALATOR_GROUP_ID :: u8 where [simp]: "ESCALATOR_GROUP_ID = 1"
definition ESCALATOR_INSTALLATION_ID :: u8 where [simp]: "ESCALATOR_INSTALLATION_ID = 1"
definition MACHINE_ROOM_ID_INSTANCE :: u32 where [simp]: "MACHINE_ROOM_ID_INSTANCE = 1"
definition MACHINE_ROOM_ID_VALUE :: u32 where [simp]: "MACHINE_ROOM_ID_VALUE = 100"
definition LIFT_NUMBER_OF_DOORS :: u32 where [simp]: "LIFT_NUMBER_OF_DOORS = 1"
definition LIFT_LOWEST_FLOOR :: u8 where [simp]: "LIFT_LOWEST_FLOOR = 1"
definition LIFT_HIGHEST_FLOOR :: u8 where [simp]: "LIFT_HIGHEST_FLOOR = 10"
definition LIFT_START_FLOOR :: u8 where [simp]: "LIFT_START_FLOOR = 3"
definition LIFT_MILLISECONDS_PER_FLOOR :: u32 where [simp]: "LIFT_MILLISECONDS_PER_FLOOR = 2000"
definition LIFT_DOOR_DWELL_MILLISECONDS :: u32 where [simp]: "LIFT_DOOR_DWELL_MILLISECONDS = 3000"
definition MAX_LANDING_CALLS :: u32 where [simp]: "MAX_LANDING_CALLS = 8"
definition NOTIFICATION_CLASS_INSTANCE :: u32 where [simp]: "NOTIFICATION_CLASS_INSTANCE = 1"
definition NC_PRIORITY_TO_OFFNORMAL :: u8 where [simp]: "NC_PRIORITY_TO_OFFNORMAL = 100"
definition NC_PRIORITY_TO_FAULT :: u8 where [simp]: "NC_PRIORITY_TO_FAULT = 50"
definition NC_PRIORITY_TO_NORMAL :: u8 where [simp]: "NC_PRIORITY_TO_NORMAL = 200"
definition RECIPIENT_PROCESS_IDENTIFIER :: u32 where [simp]: "RECIPIENT_PROCESS_IDENTIFIER = 1"
definition PROPERTY_IDENTIFIER_RECIPIENT_LIST :: u32 where [simp]: "PROPERTY_IDENTIFIER_RECIPIENT_LIST = 102"
definition OBJECT_TYPE_EVENT_LOG :: u16 where [simp]: "OBJECT_TYPE_EVENT_LOG = 25"
definition EVENT_LOG_INSTANCE :: u32 where [simp]: "EVENT_LOG_INSTANCE = 1"
definition EVENT_LOG_MAX_BUFFER_SIZE :: u32 where [simp]: "EVENT_LOG_MAX_BUFFER_SIZE = 100"
definition PROPERTY_IDENTIFIER_ENABLE :: u32 where [simp]: "PROPERTY_IDENTIFIER_ENABLE = 133"
definition OBJECT_TYPE_SCHEDULE :: u16 where [simp]: "OBJECT_TYPE_SCHEDULE = 17"
definition OBJECT_TYPE_CALENDAR :: u16 where [simp]: "OBJECT_TYPE_CALENDAR = 6"
definition SCHEDULE_INSTANCE :: u32 where [simp]: "SCHEDULE_INSTANCE = 1"
definition CALENDAR_INSTANCE :: u32 where [simp]: "CALENDAR_INSTANCE = 1"
definition SCHEDULE_WRITE_PRIORITY :: u8 where [simp]: "SCHEDULE_WRITE_PRIORITY = 8"
definition OBJECT_TYPE_FILE :: u16 where [simp]: "OBJECT_TYPE_FILE = 10"
definition FILE_INSTANCE :: u32 where [simp]: "FILE_INSTANCE = 1"
definition FILE_ACCESS_METHOD_STREAM :: u32 where [simp]: "FILE_ACCESS_METHOD_STREAM = 1"
definition FILE_MAX_SIZE :: u32 where [simp]: "FILE_MAX_SIZE = 4096"
definition PROPERTY_IDENTIFIER_FILE_SIZE :: u32 where [simp]: "PROPERTY_IDENTIFIER_FILE_SIZE = 42"
definition PROPERTY_IDENTIFIER_FILE_TYPE :: u32 where [simp]: "PROPERTY_IDENTIFIER_FILE_TYPE = 43"
definition PROPERTY_IDENTIFIER_MODIFICATION_DATE :: u32 where [simp]: "PROPERTY_IDENTIFIER_MODIFICATION_DATE = 71"
definition PROPERTY_IDENTIFIER_ARCHIVE :: u32 where [simp]: "PROPERTY_IDENTIFIER_ARCHIVE = 13"
definition PROPERTY_IDENTIFIER_READ_ONLY :: u32 where [simp]: "PROPERTY_IDENTIFIER_READ_ONLY = 99"
definition REINITIALIZE_STATE_START_BACKUP :: u32 where [simp]: "REINITIALIZE_STATE_START_BACKUP = 2"
definition REINITIALIZE_STATE_ABORT_RESTORE :: u32 where [simp]: "REINITIALIZE_STATE_ABORT_RESTORE = 6"
definition SERVICE_CREATE_OBJECT :: u32 where [simp]: "SERVICE_CREATE_OBJECT = 10"
definition SERVICE_DELETE_OBJECT :: u32 where [simp]: "SERVICE_DELETE_OBJECT = 11"
definition SERVICE_ATOMIC_READ_FILE :: u32 where [simp]: "SERVICE_ATOMIC_READ_FILE = 6"
definition SERVICE_ATOMIC_WRITE_FILE :: u32 where [simp]: "SERVICE_ATOMIC_WRITE_FILE = 7"
definition SERVICE_READ_RANGE :: u32 where [simp]: "SERVICE_READ_RANGE = 35"
definition SERVICE_SUBSCRIBE_COV :: u32 where [simp]: "SERVICE_SUBSCRIBE_COV = 5"
definition SERVICE_SUBSCRIBE_COV_PROPERTY_MULTIPLE :: u32 where [simp]: "SERVICE_SUBSCRIBE_COV_PROPERTY_MULTIPLE = 41"

end
