(* ===== verification/C_Float.thy ===== *)
theory C_Float
  imports AEC_Prelude
begin

text \<open>
  The C types \<open>float\<close> and \<open>double\<close> as the program uses them: storing, converting between the
  two and to and from \<open>uint32_t\<close>, and adding. A value is a NaN, an infinity, or
  \<open>(-1)^s * m * 2^e\<close> with \<open>m\<close> odd (or \<open>m = e = 0\<close>), so a value has one representation and the
  conversion from \<open>float\<close> to \<open>double\<close>, which is exact, is the identity. \<open>is_f32\<close> and
  \<open>is_f64\<close> say which values the two IEEE 754 formats hold. Rounding is to nearest, ties to
  even. NaN payloads other than the sign are not represented.
\<close>

section \<open>Values\<close>

datatype fp = FNaN bool | FInf bool | FNum bool nat int

fun bitlen :: "nat \<Rightarrow> nat" where
  "bitlen n = (if n = 0 then 0 else Suc (bitlen (n div 2)))"

declare bitlen.simps [simp del]

fun odd_norm :: "nat \<Rightarrow> int \<Rightarrow> nat \<times> int" where
  "odd_norm m e = (if m = 0 then (0, 0) else if even m then odd_norm (m div 2) (e + 1) else (m, e))"

declare odd_norm.simps [simp del]

definition fp_make :: "bool \<Rightarrow> nat \<Rightarrow> int \<Rightarrow> fp" where
  "fp_make s m e = (case odd_norm m e of (m', e') \<Rightarrow> FNum s m' e')"

text \<open>A format: precision, exponent of the last place of the subnormals, bound of the range.\<close>

record fp_format =
  precision :: nat
  min_exp :: int
  max_exp :: int

definition binary32 :: fp_format where
  "binary32 = \<lparr>precision = 24, min_exp = -149, max_exp = 128\<rparr>"

definition binary64 :: fp_format where
  "binary64 = \<lparr>precision = 53, min_exp = -1074, max_exp = 1024\<rparr>"

fun in_format :: "fp_format \<Rightarrow> fp \<Rightarrow> bool" where
  "in_format F (FNum s m e) \<longleftrightarrow>
     (m = 0 \<and> e = 0) \<or>
     (odd m \<and> bitlen m \<le> precision F \<and> min_exp F \<le> e \<and> e + int (bitlen m) \<le> max_exp F)"
| "in_format F _ \<longleftrightarrow> True"

abbreviation is_f32 :: "fp \<Rightarrow> bool" where "is_f32 \<equiv> in_format binary32"
abbreviation is_f64 :: "fp \<Rightarrow> bool" where "is_f64 \<equiv> in_format binary64"

section \<open>Rounding a ratio\<close>

definition rne :: "nat \<Rightarrow> nat \<Rightarrow> nat" where
  "rne n d = (let q = n div d; r = n mod d in
     if 2 * r < d then q else if d < 2 * r then q + 1 else if even q then q else q + 1)"

text \<open>\<open>n / d\<close> divided by \<open>2 ^ e\<close> (or \<open>10 ^ e\<close>), again as a ratio.\<close>

definition scaled :: "nat \<Rightarrow> nat \<Rightarrow> nat \<Rightarrow> int \<Rightarrow> nat \<times> nat" where
  "scaled b n d e = (if 0 \<le> e then (n, d * b ^ nat e) else (n * b ^ nat (- e), d))"

definition ilog2 :: "nat \<Rightarrow> nat \<Rightarrow> int" where
  "ilog2 n d = (let k = int (bitlen n) - int (bitlen d); (a, b) = scaled 2 n d k
     in if b \<le> a then k else k - 1)"

definition fp_round :: "fp_format \<Rightarrow> bool \<Rightarrow> nat \<Rightarrow> nat \<Rightarrow> fp" where
  "fp_round F s n d = (if n = 0 then FNum s 0 0 else
     (let e = max (ilog2 n d - (int (precision F) - 1)) (min_exp F);
          (a, b) = scaled 2 n d e; m = rne a b
      in if max_exp F < e + int (bitlen m) then FInf s else fp_make s m e))"

section \<open>The conversions and the addition\<close>

fun f32_of_f64 :: "fp \<Rightarrow> fp" where
  "f32_of_f64 (FNum s m e) =
     (if 0 \<le> e then fp_round binary32 s (m * 2 ^ nat e) 1 else fp_round binary32 s m (2 ^ nat (- e)))"
| "f32_of_f64 v = v"

definition f64_of_f32 :: "fp \<Rightarrow> fp" where "f64_of_f32 v = v"

definition f64_of_u32 :: "u32 \<Rightarrow> fp" where "f64_of_u32 w = fp_make False (unat w) 0"

text \<open>
  \<open>(uint32_t)value\<close> truncates towards zero; outside the range of \<open>uint32_t\<close>, and for infinities
  and NaNs, the C++ conversion is undefined: \<open>None\<close>.
\<close>

fun u32_of_f64 :: "fp \<Rightarrow> u32 option" where
  "u32_of_f64 (FNum s m e) =
     (let t = (if 0 \<le> e then m * 2 ^ nat e else m div 2 ^ nat (- e))
      in if t < 2 ^ 32 \<and> (s \<longrightarrow> t = 0) then Some (word_of_nat t) else None)"
| "u32_of_f64 _ = None"

fun fp_neg :: "fp \<Rightarrow> fp" where
  "fp_neg (FNaN s) = FNaN s"
| "fp_neg (FInf s) = FInf (\<not> s)"
| "fp_neg (FNum s m e) = FNum (\<not> s) m e"

definition signed_mant :: "bool \<Rightarrow> nat \<Rightarrow> int" where
  "signed_mant s m = (if s then - int m else int m)"

text \<open>Addition of two \<open>float\<close>s: exact sum, rounded once; an exact zero is \<open>+0\<close> unless both are \<open>-0\<close>.\<close>

fun f32_add :: "fp \<Rightarrow> fp \<Rightarrow> fp" where
  "f32_add (FNaN s) _ = FNaN s"
| "f32_add _ (FNaN s) = FNaN s"
| "f32_add (FInf s) (FInf t) = (if s = t then FInf s else FNaN True)"
| "f32_add (FInf s) (FNum _ _ _) = FInf s"
| "f32_add (FNum _ _ _) (FInf s) = FInf s"
| "f32_add (FNum s m e) (FNum t k f) =
     (let g = min e f;
          x = signed_mant s m * 2 ^ nat (e - g) + signed_mant t k * 2 ^ nat (f - g);
          neg = (if x = 0 then s \<and> t else x < 0)
      in f32_of_f64 (FNum neg (nat \<bar>x\<bar>) g))"

section \<open>Lemmas\<close>

subsection \<open>Bit lengths\<close>

lemma bitlen_0 [simp]: "bitlen 0 = 0"
  by (simp add: bitlen.simps)

lemma bitlen_1 [simp]: "bitlen (Suc 0) = 1"
  by (simp add: bitlen.simps)

lemma bitlen_pos: "0 < n \<Longrightarrow> bitlen n = Suc (bitlen (n div 2))"
  by (simp add: bitlen.simps [of n])

lemma bitlen_less_pow: "bitlen n \<le> k \<longleftrightarrow> n < 2 ^ k"
proof (induction n arbitrary: k rule: bitlen.induct)
  case (1 n)
  show ?case
  proof (cases "n = 0")
    case False
    show ?thesis
    proof (cases k)
      case 0
      with False show ?thesis by (simp add: bitlen_pos)
    next
      case (Suc j)
      have "bitlen n \<le> k \<longleftrightarrow> n div 2 < 2 ^ j"
        using False Suc "1" by (simp add: bitlen_pos)
      then show ?thesis using Suc by (simp add: less_mult_imp_div_less div_less_iff_less_mult mult.commute)
    qed
  qed simp
qed

lemma bitlen_upper: "n < 2 ^ bitlen n"
  using bitlen_less_pow [of n "bitlen n"] by simp

lemma bitlen_lower: "0 < n \<Longrightarrow> 2 ^ (bitlen n - 1) \<le> n"
  using bitlen_less_pow [of n "bitlen n - 1"] bitlen_pos [of n] by simp

lemma bitlen_pow_mult: "0 < m \<Longrightarrow> bitlen (m * 2 ^ k) = bitlen m + k"
proof (induction k)
  case (Suc k)
  then show ?case using bitlen_pos [of "m * 2 ^ Suc k"] by (simp add: mult.assoc [symmetric])
qed simp

lemma odd_norm_pow:
  "odd m \<Longrightarrow> odd_norm (m * 2 ^ k) (e - int k) = (m, e)"
proof (induction k arbitrary: e)
  case 0
  then show ?case using odd_pos [of m] by (simp add: odd_norm.simps [of m])
next
  case (Suc k)
  have "0 < m" using Suc.prems by (simp add: odd_pos)
  then have "odd_norm (m * 2 ^ Suc k) (e - int (Suc k)) = odd_norm (m * 2 ^ k) (e - int k)"
    by (subst odd_norm.simps) (auto simp: algebra_simps)
  with Suc show ?case by simp
qed

lemma odd_norm_shape:
  "odd_norm m e = (m', e') \<Longrightarrow> (m = 0 \<and> m' = 0 \<and> e' = 0) \<or> (odd m' \<and> (\<exists>k. m = m' * 2 ^ k \<and> e' = e + int k))"
proof (induction m e arbitrary: m' e' rule: odd_norm.induct)
  case (1 m e)
  consider "m = 0" | "m \<noteq> 0" "even m" | "odd m" by auto
  then show ?case
  proof cases
    case 2
    have "odd_norm (m div 2) (e + 1) = (m', e')"
      using "1.prems" 2 by (subst (asm) odd_norm.simps) simp
    from "1.IH" [OF 2 this] 2 obtain k
      where k: "odd m'" "m div 2 = m' * 2 ^ k" "e' = e + 1 + int k" by fastforce
    have "m = 2 * (m div 2)" using 2 by simp
    then have "m = m' * 2 ^ Suc k" using k(2) by simp
    with k show ?thesis by (intro disjI2 conjI exI [of _ "Suc k"]) simp_all
  next
    case 3
    then have "m = m' * 2 ^ 0" "e' = e + int 0" "odd m'"
      using "1.prems" odd_pos [of m] by (auto simp: odd_norm.simps [of m e])
    then show ?thesis by blast
  qed (use "1.prems" in \<open>simp add: odd_norm.simps\<close>)
qed

subsection \<open>Ratios as real numbers\<close>

lemma scaled_ratio:
  assumes "0 < d" "0 < b" "scaled b n d e = (x, y)"
  shows "0 < y" "real x / real y = real n / real d * real b powi (- e)"
  using assms by (auto simp: scaled_def power_int_def field_simps split: if_splits)

lemma bitlen_real:
  assumes "0 < n"
  shows "2 powi (int (bitlen n) - 1) \<le> real n" "real n < 2 powi int (bitlen n)"
proof -
  obtain j where j: "bitlen n = Suc j" using bitlen_pos [OF assms] by blast
  have "real (2 ^ j) \<le> real n" "real n < real (2 ^ Suc j)"
    using bitlen_lower [OF assms] bitlen_upper [of n] j by (simp_all only: of_nat_le_iff of_nat_less_iff) simp
  then show "2 powi (int (bitlen n) - 1) \<le> real n" "real n < 2 powi int (bitlen n)"
    unfolding j power_int_of_nat by simp_all
qed

lemma ilog2_bounds:
  assumes "0 < n" "0 < d"
  shows "2 powi ilog2 n d \<le> real n / real d" "real n / real d < 2 powi (ilog2 n d + 1)"
proof -
  define k where "k = int (bitlen n) - int (bitlen d)"
  obtain a b where ab: "scaled 2 n d k = (a, b)" by fastforce
  note r = scaled_ratio [OF assms(2) _ ab, simplified]
  note n = bitlen_real [OF assms(1)] and d = bitlen_real [OF assms(2)]
  have "b \<le> a \<longleftrightarrow> 1 \<le> real a / real b" using r(1) by (simp add: field_simps)
  also have "\<dots> \<longleftrightarrow> 2 powi k \<le> real n / real d"
    unfolding r(2) power_int_minus using assms(2) zero_less_power_int [of "2::real" k]
    by (simp add: field_simps)
  finally have cmp: "b \<le> a \<longleftrightarrow> 2 powi k \<le> real n / real d" .
  have up: "real n / real d < 2 powi (k + 1)"
  proof -
    have "real n / real d < 2 powi int (bitlen n) / 2 powi (int (bitlen d) - 1)"
      using n d assms by (intro frac_less) auto
    also have "\<dots> = 2 powi (int (bitlen n) - (int (bitlen d) - 1))"
      by (rule power_int_diff [symmetric]) simp
    also have "\<dots> = 2 powi (k + 1)" by (simp add: k_def algebra_simps)
    finally show ?thesis .
  qed
  have lo: "2 powi (k - 1) \<le> real n / real d"
  proof -
    have "2 powi (k - 1) = (2::real) powi ((int (bitlen n) - 1) - int (bitlen d))"
      by (simp add: k_def algebra_simps)
    also have "\<dots> = 2 powi (int (bitlen n) - 1) / (2::real) powi int (bitlen d)"
      by (rule power_int_diff) simp
    also have "\<dots> \<le> real n / real d" using n d assms by (intro frac_le) auto
    finally show ?thesis .
  qed
  have l: "ilog2 n d = (if b \<le> a then k else k - 1)"
    using ab by (simp add: ilog2_def Let_def k_def [symmetric])
  show "2 powi ilog2 n d \<le> real n / real d" "real n / real d < 2 powi (ilog2 n d + 1)"
    using l cmp up lo by (auto split: if_splits)
qed

lemma powi2_mono_iff: "(2::real) powi i < 2 powi j \<longleftrightarrow> i < j"
  by (metis linorder_not_less one_less_numeral_iff power_int_increasing power_int_strict_increasing
      semiring_norm(76) order_less_imp_le)

lemma ilog2_unique:
  assumes "0 < n" "0 < d" "2 powi k \<le> real n / real d" "real n / real d < 2 powi (k + 1)"
  shows "ilog2 n d = k"
proof -
  have "2 powi k < (2::real) powi (ilog2 n d + 1)" "2 powi ilog2 n d < (2::real) powi (k + 1)"
    using assms ilog2_bounds [OF assms(1,2)] by linarith+
  then show ?thesis by (simp add: powi2_mono_iff)
qed

lemma rne_mult: "0 < k \<Longrightarrow> rne (k * a) (k * b) = rne a b"
  by (simp add: rne_def Let_def mult.left_commute [of 2 k] flip: mult_mod_right)

lemma rne_exact: "0 < b \<Longrightarrow> rne (k * b) b = k"
  by (simp add: rne_def)

lemma rne_cong:
  assumes "0 < b" "0 < b'" "real a / real b = real a' / real b'"
  shows "rne a b = rne a' b'"
proof -
  have "real (a * b') = real (a' * b)" using assms by (simp add: field_simps)
  then have eq: "b' * a = b * a'" by (simp only: of_nat_eq_iff) (simp add: mult.commute)
  have "rne a b = rne (b' * a) (b' * b)" using assms by (simp add: rne_mult)
  also have "\<dots> = rne (b * a') (b * b')" unfolding eq by (simp add: mult.commute [of b' b])
  also have "\<dots> = rne a' b'" using assms by (simp add: rne_mult)
  finally show ?thesis .
qed

subsection \<open>Rounding depends on the value only and keeps representable values\<close>

lemma fp_round_cong:
  assumes "0 < d" "0 < d'" "real n / real d = real n' / real d'"
  shows "fp_round F s n d = fp_round F s n' d'"
proof (cases "n = 0")
  case True
  then show ?thesis using assms by (simp add: fp_round_def)
next
  case False
  then have n': "n' \<noteq> 0" using assms by (intro notI) simp
  have l: "ilog2 n d = ilog2 n' d'"
    using ilog2_bounds [of n' d'] False n' assms by (intro ilog2_unique) auto
  define e where "e = max (ilog2 n' d' - (int (precision F) - 1)) (min_exp F)"
  obtain a b where ab: "scaled 2 n d e = (a, b)" by fastforce
  obtain a' b' where ab': "scaled 2 n' d' e = (a', b')" by fastforce
  have "rne a b = rne a' b'"
    using scaled_ratio [OF assms(1) _ ab] scaled_ratio [OF assms(2) _ ab'] assms(3)
    by (intro rne_cong) simp_all
  then show ?thesis
    using False n' ab ab' by (simp add: fp_round_def l Let_def flip: e_def)
qed

lemma fp_round_exact:
  assumes fmt: "in_format F (FNum s m e)" and "m \<noteq> 0" and d: "0 < d"
    and val: "real n / real d = real m * 2 powi e"
  shows "fp_round F s n d = FNum s m e"
proof -
  have m: "odd m" "m < 2 ^ precision F" "min_exp F \<le> e" "e + int (bitlen m) \<le> max_exp F"
    using fmt \<open>m \<noteq> 0\<close> by (auto simp: bitlen_less_pow)
  have n: "n \<noteq> 0" using val \<open>m \<noteq> 0\<close> by (intro notI) simp
  define e' where "e' = max (ilog2 n d - (int (precision F) - 1)) (min_exp F)"
  obtain a b where ab: "scaled 2 n d e' = (a, b)" by fastforce
  note r = scaled_ratio [OF d _ ab, simplified]
  have le: "e' \<le> e"
  proof (rule ccontr)
    assume "\<not> e' \<le> e"
    then have "e + int (precision F) \<le> ilog2 n d" using m(3) by (auto simp: e'_def)
    then have "2 powi (e + int (precision F)) \<le> (2::real) powi ilog2 n d"
      by (intro power_int_increasing) auto
    also have "\<dots> \<le> real m * 2 powi e" using ilog2_bounds(1) [of n d] n d val by simp
    finally have "2 ^ precision F \<le> real m" by (simp add: power_int_add field_simps)
    with m(2) show False by (metis linorder_not_less numeral_power_le_of_nat_cancel_iff)
  qed
  define k where "k = nat (e - e')"
  have "real a / real b = real (m * 2 ^ k)"
  proof -
    have "real a / real b = real m * (2 powi e * 2 powi (- e'))"
      using r(2) val by (metis times_divide_eq_left mult.assoc)
    also have "2 powi e * 2 powi (- e') = (2::real) powi (e - e')" by (simp flip: power_int_add)
    finally show ?thesis using le by (simp add: k_def power_int_def)
  qed
  then have "real a = real (m * 2 ^ k * b)" using r(1) by (simp add: field_simps)
  then have "a = m * 2 ^ k * b" by (simp only: of_nat_eq_iff)
  then have rn: "rne a b = m * 2 ^ k" using r(1) by (simp add: rne_exact)
  have "odd_norm (m * 2 ^ k) e' = (m, e)"
    using odd_norm_pow [OF m(1), of k e] le by (simp add: k_def)
  moreover have "bitlen (m * 2 ^ k) = bitlen m + k"
    using \<open>m \<noteq> 0\<close> by (simp add: bitlen_pow_mult)
  ultimately show ?thesis
    using n ab rn m(4) le by (simp add: fp_round_def fp_make_def k_def flip: e'_def)
qed

subsection \<open>The conversions\<close>

lemma binary32_in_binary64: "is_f32 v \<Longrightarrow> is_f64 v"
  by (cases v) (auto simp: binary32_def binary64_def)

text \<open>A \<open>float\<close> stored as \<open>double\<close> and read back as \<open>float\<close> is unchanged.\<close>

lemma f32_of_f64_id:
  assumes "is_f32 v"
  shows "f32_of_f64 v = v"
proof (cases v)
  case (FNum s m e)
  show ?thesis
  proof (cases "m = 0")
    case True
    then show ?thesis using FNum assms by (auto simp: fp_round_def binary32_def)
  next
    case False
    have fmt: "is_f32 (FNum s m e)" using assms FNum by simp
    show ?thesis
      unfolding FNum using fp_round_exact [OF fmt False, of 1 "m * 2 ^ nat e"]
        fp_round_exact [OF fmt False, of "2 ^ nat (- e)" m]
      by (simp add: power_int_def field_simps)
  qed
qed simp_all

lemma f64_of_u32_in_format: "is_f64 (f64_of_u32 w)"
proof -
  obtain m e where me: "odd_norm (unat w) 0 = (m, e)" by fastforce
  then have eq: "f64_of_u32 w = FNum False m e" by (simp add: f64_of_u32_def fp_make_def)
  from odd_norm_shape [OF me] show ?thesis
  proof (elim disjE conjE exE)
    fix k assume k: "odd m" "unat w = m * 2 ^ k" "e = 0 + int k"
    have "0 < m" using k(1) by (simp add: odd_pos)
    have "bitlen (unat w) \<le> 32" using unsigned_less [of w] by (simp add: bitlen_less_pow)
    then have "bitlen m + k \<le> 32" using k(2) \<open>0 < m\<close> by (simp add: bitlen_pow_mult)
    with k show ?thesis unfolding eq by (simp add: binary64_def)
  qed (simp add: eq)
qed

text \<open>A \<open>uint32_t\<close> stored as \<open>double\<close> and truncated back is unchanged.\<close>

lemma u32_of_f64_of_u32: "u32_of_f64 (f64_of_u32 w) = Some w"
proof -
  obtain m e where me: "odd_norm (unat w) 0 = (m, e)" by fastforce
  have lt: "unat w < 2 ^ 32" using unsigned_less [of w] by simp
  from odd_norm_shape [OF me] have "0 \<le> e" "m * 2 ^ nat e = unat w" by auto
  then show ?thesis using lt by (simp add: f64_of_u32_def fp_make_def me)
qed

subsection \<open>Rounding lands in the format\<close>

lemma rne_bound:
  assumes "0 < d" "real n / real d < real K"
  shows "rne n d \<le> K"
proof -
  have "real n < real (K * d)" using assms by (simp add: field_simps)
  then have "n < K * d" by (simp only: of_nat_less_iff)
  then have "n div d < K" by (simp add: less_mult_imp_div_less)
  moreover have "rne n d \<le> n div d + 1" by (simp add: rne_def Let_def)
  ultimately show ?thesis by linarith
qed

lemma fp_make_in_format:
  assumes "m \<le> 2 ^ precision F" "min_exp F \<le> e" "e + int (bitlen m) \<le> max_exp F" "0 < precision F"
  shows "in_format F (fp_make s m e)"
proof -
  obtain m' e' where me: "odd_norm m e = (m', e')" by fastforce
  then have eq: "fp_make s m e = FNum s m' e'" by (simp add: fp_make_def)
  from odd_norm_shape [OF me] show ?thesis
  proof (elim disjE conjE exE)
    fix k assume k: "odd m'" "m = m' * 2 ^ k" "e' = e + int k"
    have "0 < m'" using k(1) by (simp add: odd_pos)
    then have b: "bitlen m = bitlen m' + k" using k(2) by (simp add: bitlen_pow_mult)
    have "bitlen m' \<le> precision F"
    proof (cases "m = 2 ^ precision F")
      case True
      then have "bitlen m = Suc (precision F)"
        using bitlen_pow_mult [of 1 "precision F"] by simp
      moreover have "k \<noteq> 0"
      proof
        assume "k = 0"
        then have "odd ((2::nat) ^ precision F)" using k(1,2) True by simp
        with assms(4) show False by simp
      qed
      ultimately show ?thesis using b by linarith
    next
      case False
      then have "bitlen m \<le> precision F" using assms(1) by (simp add: bitlen_less_pow)
      then show ?thesis using b by linarith
    qed
    with k b assms show ?thesis unfolding eq by simp
  qed (simp add: fp_make_def odd_norm.simps)
qed

lemma fp_round_in_format:
  assumes "0 < precision F" "0 < d"
  shows "in_format F (fp_round F s n d)"
proof (cases "n = 0")
  case False
  define e where "e = max (ilog2 n d - (int (precision F) - 1)) (min_exp F)"
  obtain a b where ab: "scaled 2 n d e = (a, b)" by fastforce
  note r = scaled_ratio [OF assms(2) _ ab, simplified]
  have "real a / real b < real (2 ^ precision F)"
  proof -
    have "real a / real b = real n / real d * 2 powi (- e)" using r(2) by simp
    also have "\<dots> < 2 powi (ilog2 n d + 1) * 2 powi (- e)"
      using ilog2_bounds(2) [of n d] False assms by (intro mult_strict_right_mono) auto
    also have "\<dots> = 2 powi (ilog2 n d + 1 - e)" by (simp add: power_int_add [symmetric])
    also have "\<dots> \<le> 2 powi int (precision F)" by (intro power_int_increasing) (auto simp: e_def)
    finally show ?thesis by simp
  qed
  then have "rne a b \<le> 2 ^ precision F" using r(1) by (intro rne_bound) auto
  then show ?thesis
    using False ab assms
    by (auto simp: fp_round_def Let_def e_def [symmetric] intro!: fp_make_in_format) (simp add: e_def)
qed (simp add: fp_round_def)

lemma f32_of_f64_in_format: "is_f32 (f32_of_f64 v)"
  by (cases v) (auto simp: binary32_def intro!: fp_round_in_format)

end
