(* ===== verification/Outputs.thy ===== *)
theory Outputs
  imports BACnet_Constants C_Float
begin

text \<open>
  The three commandable outputs (\<open>main.cpp\<close>, "F-OUTPUTS"): a \<open>Commandable\<close> is a 16-slot priority
  array with a relinquish default, written and relinquished at a priority, read slot by slot. The
  locale \<open>command_slots\<close> states what the rest of the program and the stack rely on, in terms of the
  abstract slots, and derives the BACnet command prioritization from it; it is interpreted on
  \<open>CommandWrite\<close> and \<open>CommandRelinquish\<close>.
\<close>

section \<open>State\<close>

record commandable =
  isSet :: "bool list"
  slotValues :: "fp list"
  relinquishDefault :: fp

record outputs =
  g_analogOutput :: commandable
  g_binaryOutput :: commandable
  g_multiStateOutput :: commandable

definition commandable_init :: "fp \<Rightarrow> commandable" where
  "commandable_init d = \<lparr>isSet = replicate 16 False, slotValues = replicate 16 (FNum False 0 0), relinquishDefault = d\<rparr>"

definition outputs_init :: outputs where
  "outputs_init = \<lparr>g_analogOutput = commandable_init (f64_of_u32 20), g_binaryOutput = commandable_init (f64_of_u32 0),
     g_multiStateOutput = commandable_init (f64_of_u32 1)\<rparr>"

section \<open>Operations\<close>

definition EffectivePriority :: "u8 \<Rightarrow> u8" where
  "EffectivePriority priority =
     (if 1 \<le> priority \<and> (ucast priority :: u32) \<le> BACNET_PRIORITY_ARRAY_SIZE then priority else 16)"

definition CommandWrite :: "u8 \<Rightarrow> fp \<Rightarrow> commandable \<Rightarrow> commandable" where
  "CommandWrite priority value c =
     (let p = EffectivePriority priority
      in c\<lparr>isSet := (isSet c)[unat p - 1 := True], slotValues := (slotValues c)[unat p - 1 := value]\<rparr>)"

definition CommandRelinquish :: "u8 \<Rightarrow> commandable \<Rightarrow> commandable" where
  "CommandRelinquish priority c =
     (let p = EffectivePriority priority in c\<lparr>isSet := (isSet c)[unat p - 1 := False]\<rparr>)"

text \<open>The pointer \<open>GetCommandable\<close> returns, and what is read and written through it.\<close>

datatype output_ref = AnalogOutput | BinaryOutput | MultiStateOutput

definition GetCommandable :: "u16 \<Rightarrow> u32 \<Rightarrow> output_ref option" where
  "GetCommandable objectType objectInstance =
     (if objectType = OBJECT_TYPE_ANALOG_OUTPUT \<and> objectInstance = ANALOG_OUTPUT_INSTANCE then Some AnalogOutput
      else if objectType = OBJECT_TYPE_BINARY_OUTPUT \<and> objectInstance = BINARY_OUTPUT_INSTANCE then Some BinaryOutput
      else if objectType = OBJECT_TYPE_MULTI_STATE_OUTPUT \<and> objectInstance = MULTI_STATE_OUTPUT_INSTANCE then Some MultiStateOutput
      else None)"

fun deref :: "output_ref \<Rightarrow> outputs \<Rightarrow> commandable" where
  "deref AnalogOutput outs = g_analogOutput outs"
| "deref BinaryOutput outs = g_binaryOutput outs"
| "deref MultiStateOutput outs = g_multiStateOutput outs"

fun update_ref :: "output_ref \<Rightarrow> (commandable \<Rightarrow> commandable) \<Rightarrow> outputs \<Rightarrow> outputs" where
  "update_ref AnalogOutput f outs = outs\<lparr>g_analogOutput := f (g_analogOutput outs)\<rparr>"
| "update_ref BinaryOutput f outs = outs\<lparr>g_binaryOutput := f (g_binaryOutput outs)\<rparr>"
| "update_ref MultiStateOutput f outs = outs\<lparr>g_multiStateOutput := f (g_multiStateOutput outs)\<rparr>"

text \<open>\<open>None\<close>: not a read of one element of the array. \<open>Some (b, v)\<close>: \<open>*slotIsSet = b\<close>, \<open>*slotValue = v\<close>.\<close>

definition ReadPrioritySlot :: "commandable \<Rightarrow> u32 \<Rightarrow> bool \<Rightarrow> u32 \<Rightarrow> (bool \<times> fp) option" where
  "ReadPrioritySlot c propertyIdentifier useArrayIndex propertyArrayIndex =
     (if propertyIdentifier \<noteq> PROPERTY_IDENTIFIER_PRIORITY_ARRAY \<or> \<not> useArrayIndex \<or>
         propertyArrayIndex < 1 \<or> BACNET_PRIORITY_ARRAY_SIZE < propertyArrayIndex then None
      else Some (isSet c ! unat (propertyArrayIndex - 1), slotValues c ! unat (propertyArrayIndex - 1)))"

section \<open>Command prioritization\<close>

text \<open>
  What BACnet's command prioritization makes of sixteen slots: the value of the highest priority
  (lowest number) slot that is not null, and the relinquish default when all are.
\<close>

primrec first_set :: "'v option list \<Rightarrow> 'v \<Rightarrow> 'v" where
  "first_set [] d = d"
| "first_set (x # xs) d = (case x of Some v \<Rightarrow> v | None \<Rightarrow> first_set xs d)"

definition resolve :: "(nat \<Rightarrow> 'v option) \<Rightarrow> 'v \<Rightarrow> 'v" where
  "resolve s d = first_set (map s [1..<17]) d"

lemma first_set_append: "first_set (xs @ ys) d = first_set xs (first_set ys d)"
  by (induction xs) (auto split: option.split)

lemma first_set_null: "(\<forall>x \<in> set xs. x = None) \<Longrightarrow> first_set xs d = d"
  by (induction xs) auto

lemma first_set_decided: "\<exists>x \<in> set xs. x \<noteq> None \<Longrightarrow> first_set xs d = first_set xs d'"
  by (induction xs) (auto split: option.split)

lemma slots_split: "1 \<le> p \<Longrightarrow> p \<le> 16 \<Longrightarrow> [1..<17] = [1..<p] @ p # [Suc p..<17]"
  using upt_add_eq_append [of 1 p "17 - p"] by (simp add: upt_conv_Cons)

lemma resolve_upd:
  assumes "1 \<le> p" "p \<le> 16"
  shows "resolve (s(p := Some v)) d = (if \<exists>q. 1 \<le> q \<and> q < p \<and> s q \<noteq> None then resolve s d else v)"
proof -
  have split: "resolve f d = first_set (map f [1..<p]) (first_set (f p # map f [Suc p..<17]) d)" for f :: "nat \<Rightarrow> 'a option"
    unfolding resolve_def slots_split [OF assms] by (simp add: first_set_append)
  have same: "map (s(p := Some v)) [1..<p] = map s [1..<p]" by simp
  show ?thesis
  proof (cases "\<exists>q. 1 \<le> q \<and> q < p \<and> s q \<noteq> None")
    case True
    then have "\<exists>x \<in> set (map s [1..<p]). x \<noteq> None" by auto
    with True show ?thesis unfolding split same by (simp only: if_True) (rule first_set_decided)
  next
    case False
    then have "\<forall>x \<in> set (map s [1..<p]). x = None" by auto
    then have "first_set (map s [1..<p]) w = w" for w by (rule first_set_null)
    with False show ?thesis unfolding split same by (simp only: if_False) simp
  qed
qed

lemma resolve_null: "(\<And>q. 1 \<le> q \<Longrightarrow> q \<le> 16 \<Longrightarrow> s q = None) \<Longrightarrow> resolve s d = d"
  unfolding resolve_def by (rule first_set_null) auto

locale command_slots =
  fixes put :: "u8 \<Rightarrow> 'v \<Rightarrow> 'c \<Rightarrow> 'c"
    and relinquish :: "u8 \<Rightarrow> 'c \<Rightarrow> 'c"
    and slot :: "'c \<Rightarrow> nat \<Rightarrow> 'v option"
    and fallback :: "'c \<Rightarrow> 'v"
    and inv :: "'c \<Rightarrow> bool"
    and eff :: "u8 \<Rightarrow> nat"
  assumes eff_range: "1 \<le> eff p" "eff p \<le> 16"
    and slot_write: "inv c \<Longrightarrow> slot (put p v c) = (slot c)(eff p := Some v)"
    and slot_relinquish: "inv c \<Longrightarrow> slot (relinquish p c) = (slot c)(eff p := None)"
    and fallback_write: "fallback (put p v c) = fallback c"
    and fallback_relinquish: "fallback (relinquish p c) = fallback c"
    and inv_write: "inv c \<Longrightarrow> inv (put p v c)"
    and inv_relinquish: "inv c \<Longrightarrow> inv (relinquish p c)"
begin

lemma present_write:
  "inv c \<Longrightarrow> resolve (slot (put p v c)) (fallback (put p v c)) =
    (if \<exists>q. 1 \<le> q \<and> q < eff p \<and> slot c q \<noteq> None then resolve (slot c) (fallback c) else v)"
  by (simp add: slot_write fallback_write resolve_upd [OF eff_range])

lemma override_released:
  "inv c \<Longrightarrow> slot c (eff p) = None \<Longrightarrow> slot (relinquish p (put p v c)) = slot c"
  by (simp add: slot_write slot_relinquish inv_write fun_upd_idem)

lemma writes_commute:
  "inv c \<Longrightarrow> eff p \<noteq> eff q \<Longrightarrow> slot (put p v (put q w c)) = slot (put q w (put p v c))"
  by (simp add: slot_write inv_write fun_upd_twist)

end

section \<open>The model's priority array\<close>

definition command_inv :: "commandable \<Rightarrow> bool" where
  "command_inv c \<longleftrightarrow> length (isSet c) = 16 \<and> length (slotValues c) = 16"

definition slot_of :: "commandable \<Rightarrow> nat \<Rightarrow> fp option" where
  "slot_of c p = (if 1 \<le> p \<and> p \<le> 16 \<and> isSet c ! (p - 1) then Some (slotValues c ! (p - 1)) else None)"

lemma EffectivePriority_range: "1 \<le> unat (EffectivePriority p)" "unat (EffectivePriority p) \<le> 16"
proof -
  have "unat p < 256" using unsigned_less [of p] by simp
  then have "1 \<le> unat p \<and> unat p \<le> 16" if "1 \<le> p" "(ucast p :: u32) \<le> 16"
    using that by (simp add: word_le_nat_alt unsigned_ucast_eq take_bit_nat_eq_self)
  then show "1 \<le> unat (EffectivePriority p)" "unat (EffectivePriority p) \<le> 16"
    by (auto simp: EffectivePriority_def)
qed

lemma slot_of_write:
  "command_inv c \<Longrightarrow> slot_of (CommandWrite p v c) = (slot_of c)(unat (EffectivePriority p) := Some v)"
  using EffectivePriority_range [of p]
  by (auto simp: fun_eq_iff slot_of_def CommandWrite_def command_inv_def Let_def nth_list_update)

lemma slot_of_relinquish:
  "command_inv c \<Longrightarrow> slot_of (CommandRelinquish p c) = (slot_of c)(unat (EffectivePriority p) := None)"
  using EffectivePriority_range [of p]
  by (auto simp: fun_eq_iff slot_of_def CommandRelinquish_def command_inv_def Let_def nth_list_update)

lemma command_inv_ops [aec_inv]:
  "command_inv c \<Longrightarrow> command_inv (CommandWrite p v c)" "command_inv c \<Longrightarrow> command_inv (CommandRelinquish p c)"
  by (simp_all add: command_inv_def CommandWrite_def CommandRelinquish_def Let_def)

interpretation priority_array: command_slots CommandWrite CommandRelinquish slot_of relinquishDefault command_inv
  "\<lambda>p. unat (EffectivePriority p)"
  by unfold_locales
     (use EffectivePriority_range in \<open>simp_all add: slot_of_write slot_of_relinquish command_inv_ops,
      simp_all add: CommandWrite_def CommandRelinquish_def Let_def\<close>)

lemma ReadPrioritySlot_slot:
  assumes "1 \<le> i" "i \<le> 16"
  shows "ReadPrioritySlot c PROPERTY_IDENTIFIER_PRIORITY_ARRAY True i =
    Some (slot_of c (unat i) \<noteq> None, slotValues c ! (unat i - 1))"
proof -
  have "unat (i - 1) = unat i - 1" "1 \<le> unat i" "unat i \<le> 16"
    using assms by unat_arith+
  with assms show ?thesis
    by (simp add: ReadPrioritySlot_def slot_of_def not_less one_le_word_iff)
qed

lemma commandable_init_slots: "slot_of (commandable_init d) p = None" "command_inv (commandable_init d)"
  by (simp_all add: slot_of_def commandable_init_def command_inv_def)

section \<open>Properties\<close>



end
