(* ===== verification/Analog_Values.thy ===== *)
theory Analog_Values
  imports BACnet_Constants C_Float
begin

text \<open>
  The Analog Values a client creates at run time (\<open>main.cpp\<close>, "DM-OCD-B"): the fixed table
  \<open>g_createdAnalogValues\<close>, its two searches, and the \<open>CreateObject\<close> and \<open>DeleteObject\<close> callbacks. A
  pointer into the table is an index. The locale \<open>bounded_store\<close> is the interface the property
  callbacks and the restore rely on: a finite map with a capacity; it is interpreted on the table,
  and a run of operations on the table refines the same run on the map.
\<close>

section \<open>State\<close>

record created_av =
  inUse :: bool
  av_instance :: u32
  presentValue :: fp

type_synonym av_table = "created_av list"

definition float_zero :: fp where "float_zero = FNum False 0 0"

definition g_createdAnalogValues_init :: av_table where
  "g_createdAnalogValues_init = replicate (unat MAX_CREATED_ANALOG_VALUES) \<lparr>inUse = False, av_instance = 0, presentValue = float_zero\<rparr>"

section \<open>Operations\<close>

definition FindCreatedAnalogValue :: "u32 \<Rightarrow> av_table \<Rightarrow> nat option" where
  "FindCreatedAnalogValue objectInstance t =
     List.find (\<lambda>i. inUse (t ! i) \<and> av_instance (t ! i) = objectInstance) [0..<unat MAX_CREATED_ANALOG_VALUES]"

definition FindFreeAnalogValueSlot :: "av_table \<Rightarrow> nat option" where
  "FindFreeAnalogValueSlot t = List.find (\<lambda>i. \<not> inUse (t ! i)) [0..<unat MAX_CREATED_ANALOG_VALUES]"

definition CreateObject :: "u32 \<Rightarrow> u32 \<Rightarrow> u16 \<Rightarrow> u32 \<Rightarrow> av_table \<Rightarrow> av_table option" where
  "CreateObject dev deviceInstance objectType objectInstance t =
     (if deviceInstance \<noteq> dev then None
      else if objectType \<noteq> OBJECT_TYPE_ANALOG_VALUE then None
      else if FindCreatedAnalogValue objectInstance t \<noteq> None then None
      else (case FindFreeAnalogValueSlot t of
        None \<Rightarrow> None
      | Some slot \<Rightarrow> Some (t[slot := \<lparr>inUse = True, av_instance = objectInstance, presentValue = float_zero\<rparr>])))"

definition DeleteObject :: "u32 \<Rightarrow> u32 \<Rightarrow> u16 \<Rightarrow> u32 \<Rightarrow> av_table \<Rightarrow> av_table option" where
  "DeleteObject dev deviceInstance objectType objectInstance t =
     (if deviceInstance \<noteq> dev then None
      else if objectType \<noteq> OBJECT_TYPE_ANALOG_VALUE then None
      else (case FindCreatedAnalogValue objectInstance t of
        None \<Rightarrow> None
      | Some slot \<Rightarrow> Some (t[slot := (t ! slot)\<lparr>inUse := False\<rparr>])))"

text \<open>The Analog Value branches of \<open>GetPropertyReal\<close> and \<open>SetPropertyReal\<close>.\<close>

definition ReadAnalogValue :: "u32 \<Rightarrow> av_table \<Rightarrow> fp option" where
  "ReadAnalogValue objectInstance t = map_option (\<lambda>i. presentValue (t ! i)) (FindCreatedAnalogValue objectInstance t)"

definition WriteAnalogValue :: "u32 \<Rightarrow> fp \<Rightarrow> av_table \<Rightarrow> av_table option" where
  "WriteAnalogValue objectInstance value t =
     map_option (\<lambda>i. t[i := (t ! i)\<lparr>presentValue := value\<rparr>]) (FindCreatedAnalogValue objectInstance t)"

section \<open>A map with a capacity\<close>

text \<open>The interface, and the abstract map it promises.\<close>

datatype ('k, 'v) store_op = Create 'k | Delete 'k | Write 'k 'v

fun map_step :: "nat \<Rightarrow> 'v \<Rightarrow> ('k, 'v) store_op \<Rightarrow> ('k \<rightharpoonup> 'v) \<Rightarrow> ('k \<rightharpoonup> 'v) option" where
  "map_step cap new (Create k) m = (if k \<in> dom m \<or> cap \<le> card (dom m) then None else Some (m(k \<mapsto> new)))"
| "map_step cap new (Delete k) m = (if k \<in> dom m then Some (m(k := None)) else None)"
| "map_step cap new (Write k v) m = (if k \<in> dom m then Some (m(k \<mapsto> v)) else None)"

text \<open>A run of operations: the answers given, and the final state (a declined operation changes nothing).\<close>

fun op_run :: "('o \<Rightarrow> 's \<Rightarrow> 's option) \<Rightarrow> 'o list \<Rightarrow> 's \<Rightarrow> bool list \<times> 's" where
  "op_run step [] s = ([], s)"
| "op_run step (x # xs) s =
     (case step x s of
        None \<Rightarrow> (let (bs, t) = op_run step xs s in (False # bs, t))
      | Some s' \<Rightarrow> (let (bs, t) = op_run step xs s' in (True # bs, t)))"

definition store_step ::
  "('k \<Rightarrow> 's \<Rightarrow> 's option) \<Rightarrow> ('k \<Rightarrow> 's \<Rightarrow> 's option) \<Rightarrow> ('k \<Rightarrow> 'v \<Rightarrow> 's \<Rightarrow> 's option) \<Rightarrow> ('k, 'v) store_op \<Rightarrow> 's \<Rightarrow> 's option" where
  "store_step create delete store x s = (case x of Create k \<Rightarrow> create k s | Delete k \<Rightarrow> delete k s | Write k v \<Rightarrow> store k v s)"

locale bounded_store =
  fixes lookup :: "'s \<Rightarrow> 'k \<Rightarrow> 'v option"
    and create :: "'k \<Rightarrow> 's \<Rightarrow> 's option"
    and delete :: "'k \<Rightarrow> 's \<Rightarrow> 's option"
    and store :: "'k \<Rightarrow> 'v \<Rightarrow> 's \<Rightarrow> 's option"
    and inv :: "'s \<Rightarrow> bool"
    and cap :: nat
    and new :: 'v
  assumes create_lookup: "inv s \<Longrightarrow> map_option lookup (create k s) = map_step cap new (Create k) (lookup s)"
    and delete_lookup: "inv s \<Longrightarrow> map_option lookup (delete k s) = map_step cap new (Delete k) (lookup s)"
    and store_lookup: "inv s \<Longrightarrow> map_option lookup (store k v s) = map_step cap new (Write k v) (lookup s)"
    and create_inv: "inv s \<Longrightarrow> create k s = Some s' \<Longrightarrow> inv s'"
    and delete_inv: "inv s \<Longrightarrow> delete k s = Some s' \<Longrightarrow> inv s'"
    and store_inv: "inv s \<Longrightarrow> store k v s = Some s' \<Longrightarrow> inv s'"
    and within_cap: "inv s \<Longrightarrow> finite (dom (lookup s)) \<and> card (dom (lookup s)) \<le> cap"
begin

lemma step_refines: "inv s \<Longrightarrow> map_option lookup (store_step create delete store x s) = map_step cap new x (lookup s)"
  by (cases x) (simp_all only: store_step_def store_op.case create_lookup delete_lookup store_lookup)

lemma step_inv: "inv s \<Longrightarrow> store_step create delete store x s = Some s' \<Longrightarrow> inv s'"
  by (cases x) (auto simp: store_step_def intro: create_inv delete_inv store_inv)

lemma run_refines:
  "inv s \<Longrightarrow> op_run (store_step create delete store) xs s = (bs, t) \<Longrightarrow> op_run (map_step cap new) xs (lookup s) = (bs, lookup t) \<and> inv t"
proof (induction xs arbitrary: s bs)
  case (Cons x xs)
  note r = step_refines [OF Cons.prems(1), of x, symmetric]
  show ?case
  proof (cases "store_step create delete store x s")
    case None
    with Cons.prems Cons.IH [of s] r show ?thesis by (auto split: prod.splits)
  next
    case (Some s')
    with Cons.prems Cons.IH [OF step_inv [OF Cons.prems(1) Some]] r show ?thesis by (auto split: prod.splits)
  qed
qed simp

end

section \<open>The table is such a map\<close>

definition entries :: "av_table \<Rightarrow> (u32 \<times> fp) list" where
  "entries t = map (\<lambda>s. (av_instance s, presentValue s)) (filter inUse t)"

definition av_inv :: "av_table \<Rightarrow> bool" where
  "av_inv t \<longleftrightarrow> length t = unat MAX_CREATED_ANALOG_VALUES \<and> distinct (map fst (entries t))"

definition av_map :: "av_table \<Rightarrow> u32 \<Rightarrow> fp option" where
  "av_map t i = ReadAnalogValue i t"

lemma entries_append: "entries (xs @ ys) = entries xs @ entries ys"
  by (simp add: entries_def)

lemma entries_Cons: "entries (s # t) = (if inUse s then (av_instance s, presentValue s) # entries t else entries t)"
  by (simp add: entries_def)

lemma entries_at: "k < length t \<Longrightarrow> entries t = entries (take k t) @ entries [t ! k] @ entries (drop (Suc k) t)"
  by (metis append_Cons append_Nil entries_append id_take_nth_drop)

lemma entries_upd: "k < length t \<Longrightarrow> entries (t[k := s]) = entries (take k t) @ entries [s] @ entries (drop (Suc k) t)"
  by (metis append_Cons append_Nil entries_append upd_conv_take_nth_drop)

lemma set_fst_entries: "set (map fst (entries t)) = {av_instance s | s. s \<in> set t \<and> inUse s}"
  by (auto simp: entries_def)

lemma Find_Some:
  assumes "length t = 8" "FindCreatedAnalogValue i t = Some k"
  shows "k < length t" "inUse (t ! k)" "av_instance (t ! k) = i" "\<forall>j < k. \<not> (inUse (t ! j) \<and> av_instance (t ! j) = i)"
  using assms by (auto simp: FindCreatedAnalogValue_def find_Some_iff)

lemma Find_None:
  assumes "length t = 8"
  shows "FindCreatedAnalogValue i t = None \<longleftrightarrow> i \<notin> set (map fst (entries t))"
  using assms
  by (auto simp: FindCreatedAnalogValue_def find_None_iff set_fst_entries all_set_conv_all_nth in_set_conv_nth simp del: set_map)

lemma FindFree_Some: "length t = 8 \<Longrightarrow> FindFreeAnalogValueSlot t = Some k \<Longrightarrow> k < length t \<and> \<not> inUse (t ! k)"
  by (auto simp: FindFreeAnalogValueSlot_def find_Some_iff)

lemma FindFree_None:
  assumes "length t = 8"
  shows "FindFreeAnalogValueSlot t = None \<longleftrightarrow> length (entries t) = 8"
proof -
  have "FindFreeAnalogValueSlot t = None \<longleftrightarrow> (\<forall>s \<in> set t. inUse s)"
    using assms by (auto simp: FindFreeAnalogValueSlot_def find_None_iff all_set_conv_all_nth)
  also have "\<dots> \<longleftrightarrow> length (filter inUse t) = length t"
    by (metis filter_id_conv length_filter_less less_irrefl)
  finally show ?thesis using assms by (simp add: entries_def)
qed

lemma map_of_middle: "distinct (map fst (xs @ (k, v) # ys)) \<Longrightarrow> map_of (xs @ (k, v) # ys) = (map_of (xs @ ys))(k \<mapsto> v)"
  by (induction xs) (auto simp: fun_upd_twist)

lemma map_of_removed: "distinct (map fst (xs @ (k, v) # ys)) \<Longrightarrow> map_of (xs @ ys) = (map_of (xs @ (k, v) # ys))(k := None)"
  using map_of_middle [of xs k v ys] by (auto simp: fun_eq_iff map_of_eq_None_iff)

lemma av_map_entries:
  assumes "av_inv t"
  shows "av_map t = map_of (entries t)"
proof
  fix i
  have len: "length t = 8" and dist: "distinct (map fst (entries t))" using assms by (auto simp: av_inv_def)
  show "av_map t i = map_of (entries t) i"
  proof (cases "FindCreatedAnalogValue i t")
    case None
    then show ?thesis using Find_None [OF len, of i] map_of_eq_None_iff [of "entries t" i] by (simp add: av_map_def ReadAnalogValue_def)
  next
    case (Some k)
    note f = Find_Some [OF len Some]
    have "(i, presentValue (t ! k)) \<in> set (entries t)" using f by (auto simp: entries_def)
    then show ?thesis using dist Some by (simp add: av_map_def ReadAnalogValue_def)
  qed
qed

lemma card_entries: "av_inv t \<Longrightarrow> card (dom (av_map t)) = length (entries t)"
  using distinct_card [of "map fst (entries t)"] by (simp add: av_map_entries dom_map_of_conv_image_fst av_inv_def)

lemma entries_le: "length (entries t) \<le> length t"
  by (simp add: entries_def)

lemma av_dom: "av_inv t \<Longrightarrow> FindCreatedAnalogValue i t = None \<longleftrightarrow> i \<notin> dom (av_map t)"
  by (auto simp: av_map_def ReadAnalogValue_def)

lemma fill_slot:
  assumes inv: "av_inv t" and k: "FindFreeAnalogValueSlot t = Some k" and i: "FindCreatedAnalogValue i t = None"
  shows "av_inv (t[k := \<lparr>inUse = True, av_instance = i, presentValue = v\<rparr>]) \<and>
    av_map (t[k := \<lparr>inUse = True, av_instance = i, presentValue = v\<rparr>]) = (av_map t)(i \<mapsto> v)"
proof -
  have len: "length t = 8" using inv by (simp add: av_inv_def)
  let ?s = "\<lparr>inUse = True, av_instance = i, presentValue = v\<rparr>"
  let ?A = "entries (take k t)" and ?B = "entries (drop (Suc k) t)"
  note f = FindFree_Some [OF len k]
  have e: "entries t = ?A @ ?B" "entries (t[k := ?s]) = ?A @ (i, v) # ?B"
    using f entries_at [of k t] entries_upd [of k t ?s] by (simp_all add: entries_Cons entries_def [of "[]"])
  have "distinct (map fst (entries (t[k := ?s])))"
    using inv i Find_None [OF len, of i] by (auto simp: e av_inv_def)
  then show ?thesis using inv e len map_of_middle [of ?A i v ?B] by (simp add: av_inv_def av_map_entries)
qed

lemma free_slot: "av_inv t \<Longrightarrow> card (dom (av_map t)) < unat MAX_CREATED_ANALOG_VALUES \<longleftrightarrow> FindFreeAnalogValueSlot t \<noteq> None"
  using FindFree_None [of t] card_entries [of t] entries_le [of t] by (auto simp: av_inv_def)

lemma CreateObject_refines:
  assumes inv: "av_inv t"
  shows "map_option av_map (CreateObject dev dev OBJECT_TYPE_ANALOG_VALUE i t) =
    map_step (unat MAX_CREATED_ANALOG_VALUES) float_zero (Create i) (av_map t)"
    "CreateObject dev dev OBJECT_TYPE_ANALOG_VALUE i t = Some t' \<Longrightarrow> av_inv t'"
  using fill_slot [OF inv] free_slot [OF inv] av_dom [OF inv, of i]
  by (auto simp: CreateObject_def split: option.splits if_splits)

lemma slot_change:
  assumes inv: "av_inv t" and k: "FindCreatedAnalogValue i t = Some k"
  shows "av_inv (t[k := (t ! k)\<lparr>inUse := False\<rparr>]) \<and> av_map (t[k := (t ! k)\<lparr>inUse := False\<rparr>]) = (av_map t)(i := None)"
    "av_inv (t[k := (t ! k)\<lparr>presentValue := v\<rparr>]) \<and> av_map (t[k := (t ! k)\<lparr>presentValue := v\<rparr>]) = (av_map t)(i \<mapsto> v)"
proof -
  have len: "length t = 8" using inv by (simp add: av_inv_def)
  note f = Find_Some [OF len k]
  let ?A = "entries (take k t)" and ?B = "entries (drop (Suc k) t)"
  have e: "entries t = ?A @ (i, presentValue (t ! k)) # ?B"
    "entries (t[k := (t ! k)\<lparr>inUse := False\<rparr>]) = ?A @ ?B"
    "entries (t[k := (t ! k)\<lparr>presentValue := v\<rparr>]) = ?A @ (i, v) # ?B"
    using f entries_at [of k t] entries_upd [of k t] by (simp_all add: entries_Cons entries_def [of "[]"])
  have d: "distinct (map fst (?A @ (i, w) # ?B))" for w
    using inv by (simp add: av_inv_def e)
  show "av_inv (t[k := (t ! k)\<lparr>inUse := False\<rparr>]) \<and> av_map (t[k := (t ! k)\<lparr>inUse := False\<rparr>]) = (av_map t)(i := None)"
    using inv e d map_of_removed [OF d, of "presentValue (t ! k)"] len by (auto simp: av_inv_def av_map_entries)
  show "av_inv (t[k := (t ! k)\<lparr>presentValue := v\<rparr>]) \<and> av_map (t[k := (t ! k)\<lparr>presentValue := v\<rparr>]) = (av_map t)(i \<mapsto> v)"
    using inv e d map_of_middle [OF d, of v] map_of_middle [OF d, of "presentValue (t ! k)"] len
    by (simp add: av_inv_def av_map_entries)
qed

interpretation av_store: bounded_store av_map "\<lambda>i. CreateObject dev dev OBJECT_TYPE_ANALOG_VALUE i"
  "\<lambda>i. DeleteObject dev dev OBJECT_TYPE_ANALOG_VALUE i" WriteAnalogValue av_inv "unat MAX_CREATED_ANALOG_VALUES" float_zero for dev
proof
  fix t i v t' assume inv: "av_inv t"
  show "map_option av_map (DeleteObject dev dev OBJECT_TYPE_ANALOG_VALUE i t) =
      map_step (unat MAX_CREATED_ANALOG_VALUES) float_zero (Delete i) (av_map t)"
    using slot_change(1) [OF inv, of i] av_dom [OF inv, of i] by (auto simp: DeleteObject_def split: option.splits)
  show "map_option av_map (WriteAnalogValue i v t) = map_step (unat MAX_CREATED_ANALOG_VALUES) float_zero (Write i v) (av_map t)"
    using slot_change(2) [OF inv, of i] av_dom [OF inv, of i]
    by (cases "FindCreatedAnalogValue i t") (auto simp: WriteAnalogValue_def)
  show "DeleteObject dev dev OBJECT_TYPE_ANALOG_VALUE i t = Some t' \<Longrightarrow> av_inv t'"
    using slot_change(1) [OF inv, of i] by (auto simp: DeleteObject_def split: option.splits)
  show "WriteAnalogValue i v t = Some t' \<Longrightarrow> av_inv t'"
    using slot_change(2) [OF inv, of i] by (auto simp: WriteAnalogValue_def)
  show "finite (dom (av_map t)) \<and> card (dom (av_map t)) \<le> unat MAX_CREATED_ANALOG_VALUES"
    using card_entries [OF inv] entries_le [of t] inv by (simp add: av_map_entries finite_dom_map_of av_inv_def)
qed (rule CreateObject_refines; assumption)+

lemma av_inv_init: "av_inv g_createdAnalogValues_init" "av_map g_createdAnalogValues_init = Map.empty"
proof -
  show inv: "av_inv g_createdAnalogValues_init"
    by (simp add: av_inv_def g_createdAnalogValues_init_def entries_def)
  show "av_map g_createdAnalogValues_init = Map.empty"
    unfolding av_map_entries [OF inv] by (simp add: g_createdAnalogValues_init_def entries_def)
qed

section \<open>Properties\<close>

text \<open>The three operations of the table, addressed to this device.\<close>

fun av_step :: "u32 \<Rightarrow> (u32, fp) store_op \<Rightarrow> av_table \<Rightarrow> av_table option" where
  "av_step dev (Create i) t = CreateObject dev dev OBJECT_TYPE_ANALOG_VALUE i t"
| "av_step dev (Delete i) t = DeleteObject dev dev OBJECT_TYPE_ANALOG_VALUE i t"
| "av_step dev (Write i v) t = WriteAnalogValue i v t"

lemma av_step_store:
  "av_step dev = store_step (CreateObject dev dev OBJECT_TYPE_ANALOG_VALUE) (DeleteObject dev dev OBJECT_TYPE_ANALOG_VALUE) WriteAnalogValue"
  by (intro ext, rename_tac x t, case_tac x) (simp_all add: store_step_def)

text \<open>
  C8. The table of created Analog Values refines a map from instances to values with room for
  eight: from start-up, any sequence of creations, deletions and writes is answered as the map
  answers it (a creation fails exactly when the instance exists or the map is full) and leaves
  the table representing the same map, with no instance in two slots.
\<close>

theorem analog_values_refine_map:
  "let (bs, t) = op_run (av_step dev) ops g_createdAnalogValues_init in
   op_run (map_step (unat MAX_CREATED_ANALOG_VALUES) float_zero) ops Map.empty = (bs, av_map t) \<and> av_inv t"
proof -
  obtain bs t where "op_run (av_step dev) ops g_createdAnalogValues_init = (bs, t)" by fastforce
  with av_store.run_refines [OF av_inv_init(1) this [unfolded av_step_store]] show ?thesis
    by (simp add: av_inv_init)
qed

end
