(* ===== verification/Device_Clock.thy ===== *)
theory Device_Clock
  imports BACnet_Constants
begin

text \<open>
  The device's clock (\<open>main.cpp\<close> section 2f): the host's wall clock plus the correction the last
  TimeSynchronization applied. The host's clock (\<open>time(NULL)\<close>), \<open>localtime_r\<close> and \<open>mktime\<close>
  depend on the host and its time zone and are arguments: \<open>now\<close>, \<open>localtime\<close> (\<open>None\<close> is the NULL
  result) and \<open>mktime\<close> (\<open>-1\<close> is its failure value). \<open>time_t\<close> is an \<open>int\<close>. The last section
  gives the two functions for the zone UTC, on which the properties are exercised.
\<close>

section \<open>State\<close>

record tm =
  tm_year :: int
  tm_mon :: int
  tm_mday :: int
  tm_hour :: int
  tm_min :: int
  tm_sec :: int
  tm_wday :: int
  tm_isdst :: int

record SyncedDateTime =
  valid :: bool
  yearMinus1900 :: u8
  month :: u8
  day :: u8
  weekday :: u8
  hour :: u8
  minute :: u8
  second :: u8
  hundredthSecond :: u8

definition SyncedDateTime_init :: SyncedDateTime where
  "SyncedDateTime_init = \<lparr>valid = False, yearMinus1900 = 0, month = 1, day = 1, weekday = 1, hour = 0, minute = 0,
     second = 0, hundredthSecond = 0\<rparr>"

section \<open>Operations\<close>

definition GetDeviceLocalTm :: "(int \<Rightarrow> tm option) \<Rightarrow> int \<Rightarrow> int \<Rightarrow> tm option" where
  "GetDeviceLocalTm localtime now g_clockOffsetSeconds = localtime (now + g_clockOffsetSeconds)"

definition ReadDeviceDateTime :: "(int \<Rightarrow> tm option) \<Rightarrow> int \<Rightarrow> int \<Rightarrow> SyncedDateTime \<Rightarrow> SyncedDateTime" where
  "ReadDeviceDateTime localtime now g_clockOffsetSeconds stamp =
     (case GetDeviceLocalTm localtime now g_clockOffsetSeconds of
        None \<Rightarrow> stamp
      | Some parts \<Rightarrow>
          \<lparr>valid = True, yearMinus1900 = word_of_int (tm_year parts), month = word_of_int (tm_mon parts + 1),
           day = word_of_int (tm_mday parts), weekday = word_of_int (if tm_wday parts = 0 then 7 else tm_wday parts),
           hour = word_of_int (tm_hour parts), minute = word_of_int (tm_min parts), second = word_of_int (tm_sec parts),
           hundredthSecond = 0\<rparr>)"

definition requested_tm :: "u8 \<Rightarrow> u8 \<Rightarrow> u8 \<Rightarrow> u8 \<Rightarrow> u8 \<Rightarrow> u8 \<Rightarrow> tm" where
  "requested_tm y mo d h mi s =
     \<lparr>tm_year = uint y, tm_mon = uint mo - 1, tm_mday = uint d, tm_hour = uint h, tm_min = uint mi, tm_sec = uint s,
      tm_wday = 0, tm_isdst = -1\<rparr>"

text \<open>\<open>Some off\<close>: accepted, with the new \<open>g_clockOffsetSeconds\<close>. \<open>None\<close>: refused, nothing changed.\<close>

definition SetSystemTime ::
  "(tm \<Rightarrow> int) \<Rightarrow> int \<Rightarrow> u32 \<Rightarrow> u32 \<Rightarrow> u8 \<Rightarrow> u8 \<Rightarrow> u8 \<Rightarrow> u8 \<Rightarrow> u8 \<Rightarrow> u8 \<Rightarrow> int option" where
  "SetSystemTime mktime now dev deviceInstance y mo d h mi s =
     (if deviceInstance \<noteq> dev then None
      else if y = 255 \<or> mo = 255 \<or> d = 255 \<or> h = 255 \<or> mi = 255 \<or> s = 255 then None
      else (let requestedTime = mktime (requested_tm y mo d h mi s)
            in if requestedTime = - 1 then None else Some (requestedTime - now)))"

definition GetPropertyDate ::
  "(int \<Rightarrow> tm option) \<Rightarrow> int \<Rightarrow> int \<Rightarrow> SyncedDateTime \<Rightarrow> u32 \<Rightarrow> u32 \<Rightarrow> u16 \<Rightarrow> u32 \<Rightarrow> u32 \<Rightarrow> (u8 \<times> u8 \<times> u8 \<times> u8) callback" where
  "GetPropertyDate localtime now off g_fileModificationDate dev deviceInstance objectType objectInstance prop =
     (if deviceInstance = dev \<and> objectType = OBJECT_TYPE_FILE \<and> objectInstance = FILE_INSTANCE \<and>
         prop = PROPERTY_IDENTIFIER_MODIFICATION_DATE
      then Inr (yearMinus1900 g_fileModificationDate, month g_fileModificationDate, day g_fileModificationDate,
                weekday g_fileModificationDate)
      else if deviceInstance \<noteq> dev \<or> objectType \<noteq> OBJECT_TYPE_DEVICE \<or> objectInstance \<noteq> dev \<or>
              prop \<noteq> PROPERTY_IDENTIFIER_LOCAL_DATE then Inl ERROR_CODE_SUCCESS
      else (let deviceNow = ReadDeviceDateTime localtime now off SyncedDateTime_init
            in if \<not> valid deviceNow then Inl ERROR_CODE_SUCCESS
               else Inr (yearMinus1900 deviceNow, month deviceNow, day deviceNow, weekday deviceNow)))"

definition GetPropertyTime ::
  "(int \<Rightarrow> tm option) \<Rightarrow> int \<Rightarrow> int \<Rightarrow> SyncedDateTime \<Rightarrow> u32 \<Rightarrow> u32 \<Rightarrow> u16 \<Rightarrow> u32 \<Rightarrow> u32 \<Rightarrow> (u8 \<times> u8 \<times> u8 \<times> u8) callback" where
  "GetPropertyTime localtime now off g_fileModificationDate dev deviceInstance objectType objectInstance prop =
     (if deviceInstance = dev \<and> objectType = OBJECT_TYPE_FILE \<and> objectInstance = FILE_INSTANCE \<and>
         prop = PROPERTY_IDENTIFIER_MODIFICATION_DATE
      then Inr (hour g_fileModificationDate, minute g_fileModificationDate, second g_fileModificationDate,
                hundredthSecond g_fileModificationDate)
      else if deviceInstance \<noteq> dev \<or> objectType \<noteq> OBJECT_TYPE_DEVICE \<or> objectInstance \<noteq> dev \<or>
              prop \<noteq> PROPERTY_IDENTIFIER_LOCAL_TIME then Inl ERROR_CODE_SUCCESS
      else (let deviceNow = ReadDeviceDateTime localtime now off SyncedDateTime_init
            in if \<not> valid deviceNow then Inl ERROR_CODE_SUCCESS
               else Inr (hour deviceNow, minute deviceNow, second deviceNow, 0)))"

section \<open>The zone UTC\<close>

text \<open>
  The proleptic Gregorian calendar, counted from 1 March of year 0 (so the leap day is the last
  day of a year): the day number of a date and the date of a day number.
\<close>

definition days_of_civil :: "int \<Rightarrow> int \<Rightarrow> int \<Rightarrow> int" where
  "days_of_civil y m d =
     (let y' = (if m \<le> 2 then y - 1 else y); era = y' div 400; yoe = y' mod 400;
          doy = (153 * (if 2 < m then m - 3 else m + 9) + 2) div 5 + d - 1;
          doe = yoe * 365 + yoe div 4 - yoe div 100 + doy
      in era * 146097 + doe - 719468)"

definition civil_of_days :: "int \<Rightarrow> int \<times> int \<times> int" where
  "civil_of_days z =
     (let z' = z + 719468; era = z' div 146097; doe = z' mod 146097;
          yoe = (doe - doe div 1460 + doe div 36524 - doe div 146096) div 365;
          doy = doe - (365 * yoe + yoe div 4 - yoe div 100); mp = (5 * doy + 2) div 153;
          d = doy - (153 * mp + 2) div 5 + 1; m = (if mp < 10 then mp + 3 else mp - 9)
      in (if m \<le> 2 then yoe + era * 400 + 1 else yoe + era * 400, m, d))"

text \<open>\<open>mktime\<close> accepts fields out of their range and carries them over, as the C library does.\<close>

definition utc_mktime :: "tm \<Rightarrow> int" where
  "utc_mktime t = (days_of_civil (1900 + tm_year t + tm_mon t div 12) (tm_mon t mod 12 + 1) 1 + tm_mday t - 1) * 86400 +
     tm_hour t * 3600 + tm_min t * 60 + tm_sec t"

definition utc_localtime :: "int \<Rightarrow> tm option" where
  "utc_localtime t =
     (let dd = t div 86400; s = t mod 86400; (y, m, d) = civil_of_days dd
      in Some \<lparr>tm_year = y - 1900, tm_mon = m - 1, tm_mday = d, tm_hour = s div 3600, tm_min = s mod 3600 div 60,
               tm_sec = s mod 60, tm_wday = (dd + 4) mod 7, tm_isdst = 0\<rparr>)"

section \<open>Properties\<close>


lemma utc_examples:
  "utc_mktime (requested_tm 124 2 28 23 59 55) = 1709164795"
  "utc_localtime 1709164805 = Some \<lparr>tm_year = 124, tm_mon = 1, tm_mday = 29, tm_hour = 0, tm_min = 0, tm_sec = 5,
     tm_wday = 4, tm_isdst = 0\<rparr>"
  by code_simp+


text \<open>
  A date or time that does not exist is not refused: \<open>mktime\<close> carries its fields over and succeeds,
  so 31 February, 24:60:60 sets the clock to a moment in March.
\<close>

lemma nonexistent_date_is_accepted:
  "SetSystemTime utc_mktime 0 7 7 124 2 31 24 60 60 = Some (utc_mktime (requested_tm 124 3 3 1 1 0))"
  by (simp add: SetSystemTime_def utc_mktime_def requested_tm_def days_of_civil_def Let_def)

end
