(* ===== verification/Ivory_File.thy ===== *)
theory Ivory_File
  imports Device_Clock
begin

text \<open>
  File 1 "Ivory" (\<open>main.cpp\<close>, DM-BR-B): the in-memory stream file \<open>g_fileData\<close> with its length,
  archive flag and modification date, and the callbacks that read it, write it and set its size.
  An octet is a \<open>char\<close>. A \<open>memcpy\<close> outside the array is the outcome \<open>Overrun\<close>, so that its
  absence is a theorem. Arithmetic is on 32-bit words, as in the code. The last section shows that
  a client that reads or writes the file in pieces of any size transfers it exactly.
\<close>

section \<open>State\<close>

record ivory =
  g_fileData :: string
  g_fileDataLength :: u32
  g_fileArchive :: bool
  g_fileModificationDate :: SyncedDateTime

definition ivory_init :: ivory where
  "ivory_init = \<lparr>g_fileData = replicate (unat FILE_MAX_SIZE) (CHR 0x00), g_fileDataLength = 0, g_fileArchive = False,
     g_fileModificationDate = SyncedDateTime_init\<rparr>"

text \<open>The file's content, and what every operation keeps.\<close>

definition file_content :: "ivory \<Rightarrow> string" where
  "file_content f = take (unat (g_fileDataLength f)) (g_fileData f)"

definition ivory_inv :: "ivory \<Rightarrow> bool" where
  "ivory_inv f \<longleftrightarrow> length (g_fileData f) = unat FILE_MAX_SIZE \<and> g_fileDataLength f \<le> FILE_MAX_SIZE"

section \<open>Operations\<close>

text \<open>\<open>Some (data, eof)\<close>: \<open>true\<close>, with \<open>fileData\<close>, its length and \<open>*endOfFile\<close>.\<close>

definition ReadFile :: "u32 \<Rightarrow> ivory \<Rightarrow> u32 \<Rightarrow> u32 \<Rightarrow> u32 \<Rightarrow> u32 \<Rightarrow> u32 \<Rightarrow> (string \<times> bool) option" where
  "ReadFile dev f deviceInstance fileInstance fileStart requestedCount maxFileDataLength =
     (if deviceInstance \<noteq> dev \<or> fileInstance \<noteq> FILE_INSTANCE then None
      else if g_fileDataLength f \<le> fileStart then Some ([], True)
      else (let available = g_fileDataLength f - fileStart;
                toCopy = (if requestedCount < available then requestedCount else available);
                toCopy = (if maxFileDataLength < toCopy then maxFileDataLength else toCopy)
            in Some (take (unat toCopy) (drop (unat fileStart) (g_fileData f)), g_fileDataLength f \<le> fileStart + toCopy)))"

datatype 's write_outcome = Declined | Overrun | Written 's "32 word"

definition WriteFile ::
  "(int \<Rightarrow> tm option) \<Rightarrow> int \<Rightarrow> int \<Rightarrow> u32 \<Rightarrow> u32 \<Rightarrow> u32 \<Rightarrow> 32 word \<Rightarrow> string \<Rightarrow> u32 \<Rightarrow> ivory \<Rightarrow> ivory write_outcome" where
  "WriteFile localtime now off dev deviceInstance fileInstance fileStart fileData fileDataLength f =
     (if deviceInstance \<noteq> dev \<or> fileInstance \<noteq> FILE_INSTANCE then Declined
      else (let start = (if sint fileStart = - 1 then g_fileDataLength f else fileStart)
            in if FILE_MAX_SIZE < start + fileDataLength then Declined
               else if length (g_fileData f) < unat start + unat fileDataLength then Overrun
               else Written
                 (f\<lparr>g_fileData := array_put (g_fileData f) (unat start) (take (unat fileDataLength) fileData),
                    g_fileDataLength := (if g_fileDataLength f < start + fileDataLength then start + fileDataLength
                                         else g_fileDataLength f),
                    g_fileModificationDate := ReadDeviceDateTime localtime now off (g_fileModificationDate f)\<rparr>)
                 start))"

definition SetIvoryFileSize :: "(int \<Rightarrow> tm option) \<Rightarrow> int \<Rightarrow> int \<Rightarrow> u32 \<Rightarrow> ivory \<Rightarrow> ivory callback" where
  "SetIvoryFileSize localtime now off newSize f =
     (if FILE_MAX_SIZE < newSize then Inl ERROR_CODE_VALUE_OUT_OF_RANGE
      else Inr (f\<lparr>g_fileData := (if g_fileDataLength f < newSize
                      then array_put (g_fileData f) (unat (g_fileDataLength f)) (replicate (unat (newSize - g_fileDataLength f)) (CHR 0x00))
                      else g_fileData f),
                  g_fileDataLength := newSize,
                  g_fileModificationDate := ReadDeviceDateTime localtime now off (g_fileModificationDate f)\<rparr>))"

section \<open>What the operations do to the content\<close>

lemma ivory_invD:
  assumes "ivory_inv f"
  shows "length (g_fileData f) = 4096" "unat (g_fileDataLength f) \<le> 4096" "length (file_content f) = unat (g_fileDataLength f)"
  using assms by (auto simp: ivory_inv_def word_le_nat_alt file_content_def)

lemma ReadFile_content:
  assumes "ivory_inv f"
  shows "ReadFile dev f dev FILE_INSTANCE start cnt maxLen =
    Some (take (unat (min cnt maxLen)) (drop (unat start) (file_content f)),
          length (file_content f) \<le> unat start + unat (min cnt maxLen))"
proof (cases "g_fileDataLength f \<le> start")
  case True
  then show ?thesis using ivory_invD [OF assms] by (simp add: ReadFile_def word_le_nat_alt)
next
  case False
  note D = ivory_invD [OF assms]
  define av where "av = g_fileDataLength f - start"
  define n where "n = (let k = (if cnt < av then cnt else av) in if maxLen < k then maxLen else k)"
  have av: "unat av = unat (g_fileDataLength f) - unat start"
    using False unfolding av_def by (intro unat_sub) (simp add: word_le_nat_alt)
  have n: "n = min (min cnt maxLen) av" by (auto simp: n_def Let_def min_def)
  have un: "unat n = min (unat (min cnt maxLen)) (unat av)" by (simp add: n min_def word_le_nat_alt)
  have sum: "unat (start + n) = unat start + unat n"
    using False av un D(2) by (intro unat_add_lem [THEN iffD1]) (simp add: word_le_nat_alt not_le)
  have "take (unat n) (drop (unat start) (g_fileData f)) = take (unat (min cnt maxLen)) (drop (unat start) (file_content f))"
    unfolding un av file_content_def by (simp add: drop_take)
  moreover have "g_fileDataLength f \<le> start + n \<longleftrightarrow> length (file_content f) \<le> unat start + unat (min cnt maxLen)"
    using False by (auto simp: word_le_nat_alt sum un av D(3) min_def not_le)
  moreover have "ReadFile dev f dev FILE_INSTANCE start cnt maxLen =
      Some (take (unat n) (drop (unat start) (g_fileData f)), g_fileDataLength f \<le> start + n)"
    using False by (simp add: ReadFile_def Let_def n_def av_def)
  ultimately show ?thesis by simp
qed

text \<open>Writes at an offset a client can name: not negative, or -1 for the end of the file.\<close>

definition write_start :: "32 word \<Rightarrow> ivory \<Rightarrow> nat" where
  "write_start fileStart f = (if sint fileStart = - 1 then unat (g_fileDataLength f) else unat fileStart)"

lemma WriteFile_in_bounds:
  assumes inv: "ivory_inv f" and start: "- 1 \<le> sint fileStart" and n: "unat n = length bytes" and small: "length bytes < 2 ^ 31"
  shows "WriteFile lt now off dev dev FILE_INSTANCE fileStart bytes n f =
    (if 4096 < write_start fileStart f + length bytes then Declined
     else Written (f\<lparr>g_fileData := array_put (g_fileData f) (write_start fileStart f) bytes,
          g_fileDataLength := max (g_fileDataLength f) (word_of_nat (write_start fileStart f + length bytes)),
          g_fileModificationDate := ReadDeviceDateTime lt now off (g_fileModificationDate f)\<rparr>)
        (word_of_nat (write_start fileStart f)))"
proof -
  note D = ivory_invD [OF inv]
  define s where "s = (if sint fileStart = - 1 then g_fileDataLength f else fileStart)"
  have us: "unat s = write_start fileStart f" by (simp add: s_def write_start_def)
  have "unat s < 2 ^ 31"
  proof (cases "sint fileStart = - 1")
    case False
    then have "0 \<le> sint fileStart" using start by simp
    then have "uint fileStart = sint fileStart" "sint fileStart < 2 ^ 31"
      using sint_lt [of fileStart] by (simp_all add: uint_sint take_bit_int_eq_self)
    then have "unat fileStart < 2 ^ 31" by (simp add: unat_eq_nat_uint)
    then show ?thesis using False by (simp add: s_def)
  qed (use D(2) in \<open>simp add: s_def\<close>)
  then have sum: "unat (s + n) = unat s + length bytes"
    using n small by (intro trans [OF unat_add_lem [THEN iffD1]]) simp_all
  have w: "word_of_nat (write_start fileStart f + length bytes) = s + n" "word_of_nat (write_start fileStart f) = s"
    using us n by (simp_all flip: us n)
  have full: "FILE_MAX_SIZE < s + n \<longleftrightarrow> 4096 < write_start fileStart f + length bytes"
    by (simp add: word_less_nat_alt sum us)
  have "max (g_fileDataLength f) (s + n) = (if g_fileDataLength f < s + n then s + n else g_fileDataLength f)"
    by (auto simp: max_def)
  then show ?thesis
    unfolding WriteFile_def s_def [symmetric] Let_def w full using D(1) n us by simp
qed

lemma ivory_inv_write [aec_inv]:
  assumes "ivory_inv f" "WriteFile lt now off dev di fi fileStart bytes n f = Written f' ack" "unat n \<le> length bytes"
  shows "ivory_inv f'"
  using assms by (auto simp: WriteFile_def ivory_inv_def Let_def not_less split: if_splits)

lemma content_array_put:
  assumes "length xs = 4096" "p \<le> len" "p + length ys \<le> 4096" "len \<le> 4096"
  shows "take (max len (p + length ys)) (array_put xs p ys) = take p (take len xs) @ ys @ drop (p + length ys) (take len xs)"
proof (cases "len \<le> p + length ys")
  case True
  then show ?thesis using assms by (simp add: max_def take_array_put min_def)
next
  case False
  then show ?thesis using assms by (simp add: max_def array_put_def min_def drop_take)
qed

lemma SetIvoryFileSize_content:
  assumes inv: "ivory_inv f"
    and ok: "SetIvoryFileSize lt now off newSize f = Inr f'"
  shows "file_content f' = take (unat newSize) (file_content f @ replicate (unat newSize) (CHR 0x00)) \<and> ivory_inv f' \<and>
      g_fileModificationDate f' = ReadDeviceDateTime lt now off (g_fileModificationDate f) \<and> g_fileArchive f' = g_fileArchive f"
proof -
  note D = ivory_invD [OF inv]
  have le: "unat newSize \<le> 4096" using ok by (simp add: SetIvoryFileSize_def not_less word_le_nat_alt split: if_splits)
  have grow: "unat (newSize - g_fileDataLength f) = unat newSize - unat (g_fileDataLength f)" if "g_fileDataLength f < newSize"
    using that by (intro unat_sub) (simp add: word_le_nat_alt word_less_nat_alt)
  show "file_content f' = take (unat newSize) (file_content f @ replicate (unat newSize) (CHR 0x00)) \<and> ivory_inv f' \<and>
      g_fileModificationDate f' = ReadDeviceDateTime lt now off (g_fileModificationDate f) \<and> g_fileArchive f' = g_fileArchive f"
    using ok D le grow inv
    by (auto simp: SetIvoryFileSize_def file_content_def ivory_inv_def array_put_def word_less_nat_alt word_le_nat_alt
        not_less min_def split: if_splits)
qed

section \<open>Transfers in pieces\<close>

text \<open>
  A client that fetches the file: it asks for \<open>cnt\<close> octets from the offset it has reached until
  the file says end of file. \<open>None\<close>: the read was declined, or the client gave up (no fuel).
\<close>

fun fetch_file :: "nat \<Rightarrow> u32 \<Rightarrow> ivory \<Rightarrow> u32 \<Rightarrow> u32 \<Rightarrow> nat \<Rightarrow> string option" where
  "fetch_file 0 dev f cnt maxLen pos = None"
| "fetch_file (Suc fuel) dev f cnt maxLen pos =
     (case ReadFile dev f dev FILE_INSTANCE (word_of_nat pos) cnt maxLen of
        None \<Rightarrow> None
      | Some (bytes, eof) \<Rightarrow>
          if eof then Some bytes else map_option (\<lambda>rest. bytes @ rest) (fetch_file fuel dev f cnt maxLen (pos + length bytes)))"

text \<open>A client that sends a file: one write per piece, each where the last one ended.\<close>

fun send_file :: "(int \<Rightarrow> tm option) \<Rightarrow> int \<Rightarrow> int \<Rightarrow> u32 \<Rightarrow> nat \<Rightarrow> string list \<Rightarrow> ivory \<Rightarrow> ivory option" where
  "send_file lt now off dev pos [] f = Some f"
| "send_file lt now off dev pos (piece # pieces) f =
     (case WriteFile lt now off dev dev FILE_INSTANCE (word_of_nat pos) piece (word_of_nat (length piece)) f of
        Written f' ack \<Rightarrow> send_file lt now off dev (pos + length piece) pieces f'
      | _ \<Rightarrow> None)"

lemma fetch_file_drop:
  assumes inv: "ivory_inv f" and "0 < cnt" "0 < maxLen"
  shows "pos \<le> length (file_content f) \<Longrightarrow> length (file_content f) < fuel + pos \<Longrightarrow>
    fetch_file fuel dev f cnt maxLen pos = Some (drop pos (file_content f))"
proof (induction fuel arbitrary: pos)
  case (Suc fuel)
  note D = ivory_invD [OF inv]
  define m where "m = unat (min cnt maxLen)"
  have m: "0 < m" using assms(2,3) by (auto simp: m_def min_def unat_gt_0)
  have pos: "unat (word_of_nat pos :: u32) = pos"
    using Suc.prems D by (simp add: unsigned_of_nat take_bit_nat_eq_self)
  note r = ReadFile_content [OF inv, of dev "word_of_nat pos" cnt maxLen, unfolded pos, folded m_def]
  show ?case
  proof (cases "length (file_content f) \<le> pos + m")
    case True
    with r show ?thesis by simp
  next
    case False
    then have "fetch_file fuel dev f cnt maxLen (pos + m) = Some (drop (pos + m) (file_content f))"
      using Suc.prems m by (intro Suc.IH) auto
    moreover have "take m (drop pos (file_content f)) @ drop (pos + m) (file_content f) = drop pos (file_content f)"
      by (metis add.commute append_take_drop_id drop_drop)
    ultimately show ?thesis using False r by (auto simp: min_def)
  qed
qed simp

lemma WriteFile_append:
  assumes "ivory_inv f" "length (file_content f) + length piece \<le> 4096"
  shows "\<exists>f' ack. WriteFile lt now off dev dev FILE_INSTANCE (word_of_nat (length (file_content f))) piece (word_of_nat (length piece)) f = Written f' ack \<and>
    ivory_inv f' \<and> file_content f' = file_content f @ piece \<and> g_fileArchive f' = g_fileArchive f"
proof -
  define pos where "pos = length (file_content f)"
  note D = ivory_invD [OF assms(1)]
  have len: "length piece \<le> 4096" "pos \<le> 4096" "pos + length piece \<le> 4096" using assms(2) by (auto simp: pos_def)
  have n: "unat (word_of_nat (length piece) :: u32) = length piece" "unat (word_of_nat pos :: u32) = pos"
    using len by (simp_all add: unsigned_of_nat take_bit_nat_eq_self)
  have "sint (word_of_nat pos :: 32 word) = int pos"
    using len by (simp add: signed_of_nat signed_take_bit_int_eq_self)
  then have ws: "write_start (word_of_nat pos) f = pos" "- 1 \<le> sint (word_of_nat pos :: 32 word)"
    by (simp_all add: write_start_def n)
  obtain f' ack where w: "WriteFile lt now off dev dev FILE_INSTANCE (word_of_nat pos) piece (word_of_nat (length piece)) f = Written f' ack"
    and f': "g_fileData f' = array_put (g_fileData f) pos piece" "g_fileArchive f' = g_fileArchive f"
      "g_fileDataLength f' = max (g_fileDataLength f) (word_of_nat (pos + length piece))"
    using WriteFile_in_bounds [OF assms(1) ws(2) n(1)] len by (simp add: ws)
  have inv': "ivory_inv f'" using ivory_inv_write [OF assms(1) w] n by simp
  have "unat (word_of_nat (pos + length piece) :: u32) = pos + length piece"
    using len by (simp only: unsigned_of_nat) (simp add: take_bit_nat_eq_self)
  then have "unat (g_fileDataLength f') = pos + length piece"
    using pos_def D(3) by (simp add: f' max_def word_le_nat_alt)
  then have "file_content f' = file_content f @ piece"
    using D pos_def len by (simp add: file_content_def f' array_put_def)
  with w inv' f'(2) show ?thesis by (auto simp: pos_def)
qed

lemma send_file_content:
  assumes "ivory_inv f" "pos = length (file_content f)" "pos + length (concat pieces) \<le> 4096"
  shows "\<exists>f'. send_file lt now off dev pos pieces f = Some f' \<and> ivory_inv f' \<and>
    file_content f' = file_content f @ concat pieces \<and> g_fileArchive f' = g_fileArchive f"
  using assms
proof (induction pieces arbitrary: pos f)
  case (Cons piece pieces)
  obtain f' ack where f': "WriteFile lt now off dev dev FILE_INSTANCE (word_of_nat pos) piece (word_of_nat (length piece)) f = Written f' ack"
      "ivory_inv f'" "file_content f' = file_content f @ piece" "g_fileArchive f' = g_fileArchive f"
    using WriteFile_append [OF Cons.prems(1), of piece lt now off dev] Cons.prems(2,3) by auto
  then have "pos + length piece = length (file_content f')" using Cons.prems(2) by simp
  from Cons.IH [OF f'(2) this] Cons.prems(3) f' show ?case by auto
qed simp

section \<open>Properties\<close>

text \<open>
  A backup client gets the whole file: reading from offset 0 in pieces of any positive size
  until end of file is reported yields exactly the content, with at most one read per octet and
  one more; each single read stays inside the content.
\<close>

lemma fetch_file_complete:
  assumes "ivory_inv f" "0 < cnt" "0 < maxLen" "length (file_content f) < fuel"
  shows "fetch_file fuel dev f cnt maxLen 0 = Some (file_content f) \<and>
    (\<forall>start bytes eof. ReadFile dev f dev FILE_INSTANCE start cnt maxLen = Some (bytes, eof) \<longrightarrow>
       bytes = take (unat (min cnt maxLen)) (drop (unat start) (file_content f)))"
  using fetch_file_drop [OF assms(1-3), of 0 fuel dev] assms(4) ReadFile_content [OF assms(1), of dev] by auto

definition hello_file :: ivory where
  "hello_file = ivory_init\<lparr>g_fileData := ''hello'' @ replicate 4091 (CHR 0x00), g_fileDataLength := 5\<rparr>"

lemma hello_file_inv: "ivory_inv hello_file" "file_content hello_file = ''hello''"
  by (simp_all add: ivory_inv_def hello_file_def file_content_def)

lemma fetch_file_complete_example: "fetch_file 6 1 hello_file 2 1476 0 = Some ''hello''"
  using fetch_file_complete [OF hello_file_inv(1), of 2 1476 6 1] by (simp add: hello_file_inv(2))



text \<open>
  C40. Finding: the bound check of \<open>WriteFile\<close> is made on a 32-bit sum, so a negative offset other
  than -1 wraps around it. Two octets at offset -2 pass the check in every state of the file and
  the copy leaves the array.
\<close>

theorem write_file_wraps_around:
  assumes "ivory_inv f"
  shows "WriteFile lt now off dev dev FILE_INSTANCE (- 2) bytes 2 f = Overrun"
proof -
  have "length (g_fileData f) < unat (- 2 :: u32) + unat (2 :: u32)" using ivory_invD(1) [OF assms] by simp
  then show ?thesis by (simp add: WriteFile_def Let_def)
qed

theorem write_file_wraps_around_witness:
  "WriteFile utc_localtime 0 0 1 1 FILE_INSTANCE (- 2) ''ab'' 2 hello_file = Overrun"
  by (rule write_file_wraps_around [OF hello_file_inv(1)])

text \<open>
  Writing \<open>File_Size\<close> refuses more than the file can hold with value-out-of-range and changes
  nothing; otherwise the content is cut at the new size or extended to it with zero octets, and the
  modification date is stamped.
\<close>

lemma file_size_write:
  assumes "ivory_inv f"
  shows "if FILE_MAX_SIZE < newSize then SetIvoryFileSize lt now off newSize f = Inl ERROR_CODE_VALUE_OUT_OF_RANGE
    else \<exists>f'. SetIvoryFileSize lt now off newSize f = Inr f' \<and> ivory_inv f' \<and>
      file_content f' = take (unat newSize) (file_content f @ replicate (unat newSize) (CHR 0x00)) \<and>
      g_fileModificationDate f' = ReadDeviceDateTime lt now off (g_fileModificationDate f)"
proof (cases "FILE_MAX_SIZE < newSize")
  case False
  then obtain f' where "SetIvoryFileSize lt now off newSize f = Inr f'" by (simp add: SetIvoryFileSize_def)
  with SetIvoryFileSize_content [OF assms this] False show ?thesis by simp
qed (simp add: SetIvoryFileSize_def)

lemma file_size_write_example:
  "\<exists>f'. SetIvoryFileSize utc_localtime 0 0 3 hello_file = Inr f' \<and> file_content f' = ''hel''"
  using file_size_write [OF hello_file_inv(1), of 3 utc_localtime 0 0] by (auto simp: hello_file_inv(2))

end
