(* ===== verification/C_Text.thy ===== *)
theory C_Text
  imports C_Float
begin

text \<open>
  The text conversions of the C library the program relies on: \<open>%u\<close> and \<open>%.6g\<close> of
  \<open>snprintf\<close>, \<open>strtoul\<close> with base 10 (64-bit \<open>unsigned long\<close>) and \<open>strtod\<close> in the C locale. A
  parser returns the converted value and the unread rest of the text (\<open>*endptr\<close>); when there is
  nothing to convert the rest is the whole text. The main results are the round trips
  \<open>strtoul_show_nat\<close> and \<open>strtod_fmt_g6\<close>.
\<close>

section \<open>Characters and digits\<close>

definition NUL :: char where "NUL = CHR 0x00"
definition NEWLINE :: char where "NEWLINE = CHR 0x0A"

text \<open>A C string held in a longer buffer ends at its first NUL.\<close>

definition c_str :: "string \<Rightarrow> string" where
  "c_str s = takeWhile (\<lambda>c. c \<noteq> NUL) s"

abbreviation code :: "char \<Rightarrow> nat" where "code c \<equiv> of_char c"

definition is_space :: "char \<Rightarrow> bool" where
  "is_space c \<longleftrightarrow> code c = 32 \<or> (9 \<le> code c \<and> code c \<le> 13)"

definition is_digit :: "char \<Rightarrow> bool" where
  "is_digit c \<longleftrightarrow> 48 \<le> code c \<and> code c \<le> 57"

definition digit_val :: "char \<Rightarrow> nat" where
  "digit_val c = code c - 48"

definition digit_char :: "nat \<Rightarrow> char" where
  "digit_char d = char_of (48 + d)"

definition dec_val :: "string \<Rightarrow> nat" where
  "dec_val s = foldl (\<lambda>a c. 10 * a + digit_val c) 0 s"

fun show_nat :: "nat \<Rightarrow> string" where
  "show_nat n = (if n < 10 then [digit_char n] else show_nat (n div 10) @ [digit_char (n mod 10)])"

declare show_nat.simps [simp del]

definition fmt_u :: "u32 \<Rightarrow> string" where
  "fmt_u w = show_nat (unat w)"

section \<open>\<open>strtoul\<close>\<close>

definition ULONG_MAX :: nat where "ULONG_MAX = 2 ^ 64 - 1"

fun opt_sign :: "string \<Rightarrow> bool \<times> string" where
  "opt_sign (c # s) = (if c = CHR ''-'' then (True, s) else if c = CHR ''+'' then (False, s) else (False, c # s))"
| "opt_sign [] = (False, [])"

text \<open>
  Out of range the result is \<open>ULONG_MAX\<close>; a minus sign negates the result in \<open>unsigned long\<close>.
\<close>

definition strtoul :: "string \<Rightarrow> nat \<times> string" where
  "strtoul s = (let (neg, t) = opt_sign (dropWhile is_space s); ds = takeWhile is_digit t; v = dec_val ds
     in if ds = [] then (0, s)
        else (if ULONG_MAX < v then ULONG_MAX
              else if neg then (2 ^ 64 - v) mod 2 ^ 64 else v, dropWhile is_digit t))"

section \<open>\<open>strtod\<close>\<close>

definition lower :: "char \<Rightarrow> char" where
  "lower c = (if 65 \<le> code c \<and> code c \<le> 90 then char_of (code c + 32) else c)"

text \<open>\<open>starts_ci w s\<close>: the text starts with the (lower-case) word, in any case.\<close>

definition starts_ci :: "string \<Rightarrow> string \<Rightarrow> bool" where
  "starts_ci w s \<longleftrightarrow> map lower (take (length w) s) = w"

definition is_xdigit :: "char \<Rightarrow> bool" where
  "is_xdigit c \<longleftrightarrow> is_digit c \<or> (97 \<le> code (lower c) \<and> code (lower c) \<le> 102)"

definition xdigit_val :: "char \<Rightarrow> nat" where
  "xdigit_val c = (if is_digit c then digit_val c else code (lower c) - 87)"

definition hex_val :: "string \<Rightarrow> nat" where
  "hex_val s = foldl (\<lambda>a c. 16 * a + xdigit_val c) 0 s"

text \<open>An exponent part: the marker, an optional sign and at least one digit; else nothing is read.\<close>

definition opt_exponent :: "char \<Rightarrow> string \<Rightarrow> int \<times> string" where
  "opt_exponent mark s = (case s of [] \<Rightarrow> (0, [])
     | c # t \<Rightarrow> (if lower c = mark then
          (let (neg, u) = opt_sign t; ds = takeWhile is_digit u
           in if ds = [] then (0, s)
              else (if neg then - int (dec_val ds) else int (dec_val ds), dropWhile is_digit u))
        else (0, s)))"

text \<open>Digits, optionally a point and more digits: integer part, fraction part, rest.\<close>

definition point_digits :: "(char \<Rightarrow> bool) \<Rightarrow> string \<Rightarrow> string \<times> string \<times> string" where
  "point_digits dig s = (let ip = takeWhile dig s; t = dropWhile dig s in
     case t of c # u \<Rightarrow> if c = CHR ''.'' \<and> (ip \<noteq> [] \<or> takeWhile dig u \<noteq> [])
                         then (ip, takeWhile dig u, dropWhile dig u) else (ip, [], t)
     | [] \<Rightarrow> (ip, [], []))"

text \<open>\<open>k * b ^ x\<close> rounded to \<open>double\<close>.\<close>

definition round_pow :: "bool \<Rightarrow> nat \<Rightarrow> nat \<Rightarrow> int \<Rightarrow> fp" where
  "round_pow s k b x = (if 0 \<le> x then fp_round binary64 s (k * b ^ nat x) 1
                        else fp_round binary64 s k (b ^ nat (- x)))"

definition strtod_dec :: "bool \<Rightarrow> string \<Rightarrow> (fp \<times> string) option" where
  "strtod_dec neg t = (let (ip, fr, u) = point_digits is_digit t in
     if ip = [] \<and> fr = [] then None
     else (let (x, v) = opt_exponent (CHR ''e'') u
           in Some (round_pow neg (dec_val (ip @ fr)) 10 (x - int (length fr)), v)))"

definition strtod_hex :: "bool \<Rightarrow> string \<Rightarrow> (fp \<times> string) option" where
  "strtod_hex neg t = (let (ip, fr, u) = point_digits is_xdigit t in
     if ip = [] \<and> fr = [] then None
     else (let (x, v) = opt_exponent (CHR ''p'') u
           in Some (round_pow neg (hex_val (ip @ fr)) 2 (x - 4 * int (length fr)), v)))"

text \<open>\<open>nan\<close> may be followed by a parenthesised sequence of letters, digits and underscores.\<close>

definition is_nchar :: "char \<Rightarrow> bool" where
  "is_nchar c \<longleftrightarrow> is_digit c \<or> (97 \<le> code (lower c) \<and> code (lower c) \<le> 122) \<or> c = CHR ''_''"

definition nan_tail :: "string \<Rightarrow> string" where
  "nan_tail t = (case t of [] \<Rightarrow> []
     | c # u \<Rightarrow> (if c = CHR ''('' then
          (case dropWhile is_nchar u of [] \<Rightarrow> t | d # v \<Rightarrow> if d = CHR '')'' then v else t) else t))"

definition strtod :: "string \<Rightarrow> fp \<times> string" where
  "strtod s = (let (neg, t) = opt_sign (dropWhile is_space s) in
     if starts_ci ''infinity'' t then (FInf neg, drop 8 t)
     else if starts_ci ''inf'' t then (FInf neg, drop 3 t)
     else if starts_ci ''nan'' t then (FNaN neg, nan_tail (drop 3 t))
     else if starts_ci ''0x'' t \<and> strtod_hex neg (drop 2 t) \<noteq> None then the (strtod_hex neg (drop 2 t))
     else (case strtod_dec neg t of None \<Rightarrow> (FNum False 0 0, s) | Some r \<Rightarrow> r))"

section \<open>\<open>%.6g\<close>\<close>

text \<open>The decimal exponent of \<open>n / d\<close>: \<open>10 ^ x \<le> n / d < 10 ^ (x + 1)\<close>.\<close>

function down10 :: "nat \<Rightarrow> nat \<Rightarrow> nat" where
  "down10 n d = (if n = 0 \<or> d \<le> n then 0 else Suc (down10 (10 * n) d))"
  by pat_completeness auto
termination
  by (relation "measure (\<lambda>(n, d). d - n)") auto

declare down10.simps [simp del]

definition dec_exp :: "nat \<Rightarrow> nat \<Rightarrow> int" where
  "dec_exp n d = (if d \<le> n then int (length (show_nat (n div d))) - 1 else - int (down10 n d))"

text \<open>Six significant digits and the exponent of the first: \<open>n / d\<close> is about \<open>D * 10 ^ (x - 5)\<close>.\<close>

definition sig6 :: "nat \<Rightarrow> nat \<Rightarrow> nat \<times> int" where
  "sig6 n d = (let x = dec_exp n d; (a, b) = scaled 10 n d (x - 5); D = rne a b
     in if D = 10 ^ 6 then (10 ^ 5, x + 1) else (D, x))"

definition strip0 :: "string \<Rightarrow> string" where
  "strip0 s = rev (dropWhile (\<lambda>c. c = CHR ''0'') (rev s))"

definition with_fraction :: "string \<Rightarrow> string \<Rightarrow> string" where
  "with_fraction ip fr = ip @ (if strip0 fr = [] then [] else CHR ''.'' # strip0 fr)"

definition exp_digits :: "int \<Rightarrow> string" where
  "exp_digits x = (let t = show_nat (nat \<bar>x\<bar>) in if length t < 2 then CHR ''0'' # t else t)"

definition g6_digits :: "nat \<Rightarrow> int \<Rightarrow> string" where
  "g6_digits D x = (let ds = show_nat D in
     if 0 \<le> x \<and> x < 6 then with_fraction (take (nat x + 1) ds) (drop (nat x + 1) ds)
     else if -4 \<le> x \<and> x < 0 then with_fraction ''0'' (replicate (nat (- x) - 1) CHR ''0'' @ ds)
     else with_fraction (take 1 ds) (drop 1 ds) @ [CHR ''e'', if x < 0 then CHR ''-'' else CHR ''+''] @ exp_digits x)"

definition sign_text :: "bool \<Rightarrow> string" where
  "sign_text s = (if s then ''-'' else '''')"

fun fmt_g6 :: "fp \<Rightarrow> string" where
  "fmt_g6 (FNaN s) = sign_text s @ ''nan''"
| "fmt_g6 (FInf s) = sign_text s @ ''inf''"
| "fmt_g6 (FNum s m e) = sign_text s @
     (if m = 0 then ''0''
      else (case scaled 2 m 1 (- e) of (n, d) \<Rightarrow> case sig6 n d of (D, x) \<Rightarrow> g6_digits D x))"

section \<open>Digits\<close>

lemma digit_char_simps [simp]:
  assumes "d < 10"
  shows "is_digit (digit_char d)" "digit_val (digit_char d) = d"
  using assms by (simp_all add: is_digit_def digit_val_def digit_char_def of_char_of)

lemma dec_val_Nil [simp]: "dec_val [] = 0"
  by (simp add: dec_val_def)

lemma dec_val_snoc [simp]: "dec_val (s @ [c]) = 10 * dec_val s + digit_val c"
  by (simp add: dec_val_def)

lemma dec_val_append: "dec_val (s @ t) = dec_val s * 10 ^ length t + dec_val t"
proof (induction t rule: rev_induct)
  case (snoc c t)
  then show ?case by (simp flip: append_assoc)
qed simp

lemma show_nat_digits: "\<forall>c \<in> set (show_nat n). is_digit c"
proof (induction n rule: show_nat.induct)
  case (1 n)
  then show ?case by (subst show_nat.simps) auto
qed

lemma show_nat_nonempty [simp]: "show_nat n \<noteq> []"
  by (subst show_nat.simps) simp

lemma dec_val_show_nat [simp]: "dec_val (show_nat n) = n"
proof (induction n rule: show_nat.induct)
  case (1 n)
  show ?case
  proof (cases "n < 10")
    case True
    then show ?thesis using dec_val_snoc [of "[]"] by (subst show_nat.simps) simp
  next
    case False
    then show ?thesis using "1" by (subst show_nat.simps) simp
  qed
qed

lemma length_show_nat: "length (show_nat n) \<le> k \<longleftrightarrow> n < 10 ^ k" if "0 < k"
  using that
proof (induction n arbitrary: k rule: show_nat.induct)
  case (1 n)
  show ?case
  proof (cases "n < 10")
    case True
    have "(10::nat) ^ 1 \<le> 10 ^ k" using "1.prems" by (intro power_increasing) auto
    with True "1.prems" show ?thesis by (subst show_nat.simps) simp
  next
    case False
    show ?thesis
    proof (cases "k = 1")
      case True
      with False show ?thesis
        using show_nat_nonempty [of "n div 10"]
        by (subst show_nat.simps) (simp add: not_less_eq_eq length_greater_0_conv [symmetric] del: length_greater_0_conv)
    next
      case k: False
      then obtain j where j: "k = Suc j" "0 < j" using "1.prems" by (cases k) auto
      have "length (show_nat n) \<le> k \<longleftrightarrow> length (show_nat (n div 10)) \<le> j"
        using False j by (subst show_nat.simps) simp
      also have "\<dots> \<longleftrightarrow> n div 10 < 10 ^ j" using "1.IH" [OF False j(2)] .
      also have "\<dots> \<longleftrightarrow> n < 10 ^ k"
        using j by (simp add: div_less_iff_less_mult mult.commute)
      finally show ?thesis .
    qed
  qed
qed

lemma show_nat_length_bounds:
  assumes "0 < n"
  shows "10 ^ (length (show_nat n) - 1) \<le> n" "n < 10 ^ length (show_nat n)"
proof -
  have l: "0 < length (show_nat n)" by simp
  show "n < 10 ^ length (show_nat n)" using length_show_nat [OF l, of n] by simp
  show "10 ^ (length (show_nat n) - 1) \<le> n"
  proof (cases "length (show_nat n) = 1")
    case False
    then have "0 < length (show_nat n) - 1" using l by linarith
    from length_show_nat [OF this, of n] l show ?thesis by linarith
  qed (use assms in simp)
qed

lemma length_show_nat_eq:
  assumes "10 ^ k \<le> n" "n < 10 ^ Suc k"
  shows "length (show_nat n) = Suc k"
proof (cases k)
  case 0
  then show ?thesis using length_show_nat [of 1 n] assms show_nat_nonempty [of n]
    by (simp add: le_Suc_eq)
next
  case (Suc j)
  then show ?thesis using length_show_nat [of "Suc k" n] length_show_nat [of k n] assms by simp
qed

text \<open>Not a digit: what may follow a number.\<close>

definition no_digit_first :: "string \<Rightarrow> bool" where
  "no_digit_first s \<longleftrightarrow> (case s of [] \<Rightarrow> True | c # _ \<Rightarrow> \<not> is_digit c)"

lemma takeWhile_digits:
  assumes "\<forall>c \<in> set ds. is_digit c" "no_digit_first rest"
  shows "takeWhile is_digit (ds @ rest) = ds" "dropWhile is_digit (ds @ rest) = rest"
  using assms by (auto simp: no_digit_first_def takeWhile_append dropWhile_append split: list.splits)

lemma all_digits [simp]:
  assumes "\<forall>c \<in> set ds. is_digit c"
  shows "takeWhile is_digit ds = ds" "dropWhile is_digit ds = []"
  using assms by (simp_all add: takeWhile_eq_all_conv dropWhile_eq_Nil_conv)

lemma digit_facts:
  assumes "is_digit c"
  shows "\<not> is_space c" "c \<noteq> CHR ''-''" "c \<noteq> CHR ''+''" "c \<noteq> CHR ''.''" "lower c = c" "c \<noteq> CHR ''e''"
    "c \<noteq> CHR ''i''" "c \<noteq> CHR ''n''" "c \<noteq> CHR ''x''" "c \<noteq> NUL" "c \<noteq> NEWLINE"
  using assms by (auto simp: is_digit_def is_space_def lower_def NUL_def NEWLINE_def)

lemma dropWhile_spaces:
  "\<forall>c \<in> set sp. is_space c \<Longrightarrow> dropWhile is_space (sp @ s) = dropWhile is_space s"
  by (simp add: dropWhile_append)

lemma opt_sign_digit: "s \<noteq> [] \<Longrightarrow> is_digit (hd s) \<Longrightarrow> opt_sign s = (False, s)"
  by (cases s) (auto dest: digit_facts)

lemma show_nat_hd: "is_digit (hd (show_nat n @ s))" "show_nat n @ s \<noteq> []"
  using show_nat_digits [of n] show_nat_nonempty [of n] by (auto simp: hd_append)

theorem strtoul_show_nat:
  assumes "n \<le> ULONG_MAX" "\<forall>c \<in> set sp. is_space c" "no_digit_first rest"
  shows "strtoul (sp @ show_nat n @ rest) = (n, rest)"
proof -
  have hd: "\<not> is_space (hd (show_nat n @ rest))"
    using digit_facts(1) [OF show_nat_hd(1)] .
  have "dropWhile is_space (sp @ show_nat n @ rest) = show_nat n @ rest"
    using hd show_nat_hd(2) [of n rest] dropWhile_spaces [OF assms(2)]
    by (cases "show_nat n @ rest") (auto simp: dropWhile_spaces)
  then show ?thesis
    using assms opt_sign_digit [OF show_nat_hd(2,1), of n rest]
      takeWhile_digits [OF show_nat_digits assms(3), of n]
    by (simp add: strtoul_def)
qed

section \<open>Six significant digits\<close>

lemma down10_props:
  assumes "0 < n"
  shows "d \<le> n * 10 ^ down10 n d" "n < d \<Longrightarrow> 0 < down10 n d \<and> n * 10 ^ (down10 n d - 1) < d"
  using assms
proof (induction n d rule: down10.induct)
  case (1 n d)
  {
    case 1
    then show ?case
      using "1.IH" by (cases "d \<le> n") (auto simp: down10.simps [of n d] algebra_simps)
  next
    case 2
    have IH: "10 * n < d \<Longrightarrow> 0 < down10 (10 * n) d \<and> 10 * n * 10 ^ (down10 (10 * n) d - 1) < d"
      using "1.IH" 2 by simp
    show ?case
    proof (cases "10 * n < d")
      case True
      then obtain j where j: "down10 (10 * n) d = Suc j" using IH gr0_implies_Suc by blast
      then show ?thesis using IH True 2 by (simp add: down10.simps [of n d] algebra_simps)
    next
      case False
      then have "down10 (10 * n) d = 0" by (simp add: down10.simps)
      then show ?thesis using 2 by (simp add: down10.simps [of n d])
    qed
  }
qed

lemma real_pow10: "real (10 ^ k) = 10 powi int k"
  by simp

lemma dec_exp_bounds:
  assumes "0 < n" "0 < d"
  shows "10 powi dec_exp n d \<le> real n / real d" "real n / real d < 10 powi (dec_exp n d + 1)"
proof -
  have "10 powi dec_exp n d \<le> real n / real d \<and> real n / real d < 10 powi (dec_exp n d + 1)"
  proof (cases "d \<le> n")
    case True
    define q where "q = n div d"
    have q: "0 < q" using True assms by (simp add: q_def div_greater_zero_iff)
    obtain j where j: "length (show_nat q) = Suc j" using show_nat_nonempty [of q] by (cases "show_nat q") auto
    have "real (10 ^ j) \<le> real q" "real (q + 1) \<le> real (10 ^ Suc j)"
      using show_nat_length_bounds [OF q] j by (simp_all only: of_nat_le_iff) simp_all
    note qb = this [unfolded real_pow10 of_nat_add]
    have "real q \<le> real n / real d" "real n / real d < real q + 1"
    proof -
      have "real (q * d) \<le> real n" "real n < real ((q + 1) * d)"
        unfolding of_nat_le_iff of_nat_less_iff q_def
        using assms(2) by (simp_all add: dividend_less_div_times)
      then show "real q \<le> real n / real d" "real n / real d < real q + 1"
        using assms(2) by (simp_all add: field_simps)
    qed
    with qb have "10 powi int j \<le> real n / real d" "real n / real d < 10 powi int (Suc j)" by linarith+
    moreover have "dec_exp n d = int j" using True j by (simp add: dec_exp_def q_def)
    ultimately show ?thesis by (simp add: add.commute)
  next
    case False
    define j where "j = down10 n d"
    have j: "d \<le> n * 10 ^ j" "0 < j" "n * 10 ^ (j - 1) < d"
      using down10_props [OF assms(1), of d] False by (auto simp: j_def)
    have "real d \<le> real (n * 10 ^ j)" "real (n * 10 ^ (j - 1)) < real d"
      using j by (simp_all only: of_nat_le_iff of_nat_less_iff)
    then have "10 powi (- int j) \<le> real n / real d" "real n / real d < 10 powi (- int (j - 1))"
      unfolding power_int_minus power_int_of_nat using assms by (simp_all add: field_simps)
    moreover have "dec_exp n d = - int j" "- int j + 1 = - int (j - 1)"
      using False j by (simp_all add: dec_exp_def j_def)
    ultimately show ?thesis by metis
  qed
  then show "10 powi dec_exp n d \<le> real n / real d" "real n / real d < 10 powi (dec_exp n d + 1)"
    by auto
qed

lemma powi10_less_iff: "(10::real) powi i < 10 powi j \<longleftrightarrow> i < j"
  by (metis linorder_not_less one_less_numeral_iff power_int_increasing power_int_strict_increasing
      semiring_norm(76) order_less_imp_le)

lemma dec_exp_unique:
  assumes "0 < n" "0 < d" "10 powi k \<le> real n / real d" "real n / real d < 10 powi (k + 1)"
  shows "dec_exp n d = k"
proof -
  have "10 powi k < (10::real) powi (dec_exp n d + 1)" "10 powi dec_exp n d < (10::real) powi (k + 1)"
    using assms dec_exp_bounds [OF assms(1,2)] by linarith+
  then show ?thesis by (simp add: powi10_less_iff)
qed

lemma rne_lower:
  assumes "0 < d" "real K \<le> real n / real d"
  shows "K \<le> rne n d"
proof -
  have "real (K * d) \<le> real n" using assms by (simp add: field_simps)
  then have "K \<le> n div d" using assms(1) by (simp add: less_eq_div_iff_mult_less_eq del: of_nat_mult)
  moreover have "n div d \<le> rne n d" by (simp add: rne_def Let_def)
  ultimately show ?thesis by linarith
qed

lemma sig6_bounds:
  assumes "0 < n" "0 < d" "sig6 n d = (D, x)"
  shows "10 ^ 5 \<le> D" "D < 10 ^ 6"
proof -
  define y where "y = dec_exp n d"
  obtain a b where ab: "scaled 10 n d (y - 5) = (a, b)" by fastforce
  have r: "0 < b" "real a / real b = real n / real d * 10 powi (5 - y)"
    using scaled_ratio [OF assms(2) _ ab] by simp_all
  have p: "(0::real) < 10 powi (5 - y)" by simp
  have "10 powi y * 10 powi (5 - y) \<le> real a / real b" "real a / real b < 10 powi (y + 1) * 10 powi (5 - y)"
    unfolding r(2) y_def using dec_exp_bounds [OF assms(1,2)] p
    by (intro mult_right_mono mult_strict_right_mono; simp)+
  then have "real (10 ^ 5) \<le> real a / real b" "real a / real b < real (10 ^ 6)"
    by (simp_all flip: power_int_add)
  with r(1) have "10 ^ 5 \<le> rne a b" "rne a b \<le> 10 ^ 6"
    by (blast intro: rne_lower rne_bound)+
  then show "10 ^ 5 \<le> D" "D < 10 ^ 6"
    using assms(3) ab by (auto simp: sig6_def Let_def y_def split: if_splits)
qed

text \<open>A value of at most six significant digits is rendered exactly.\<close>

lemma sig6_exact:
  assumes "0 < d" "10 ^ 5 \<le> D" "D < 10 ^ 6" "real n / real d = real D * 10 powi (x - 5)"
  shows "sig6 n d = (D, x)"
proof -
  have n: "0 < n" using assms by (intro Nat.gr0I) auto
  have D: "10 powi 5 \<le> real D" "real D < 10 powi 6" using assms(2,3) by simp_all
  have p: "(0::real) < 10 powi (x - 5)" by simp
  have "10 powi 5 * 10 powi (x - 5) \<le> real n / real d" "real n / real d < 10 powi 6 * 10 powi (x - 5)"
    unfolding assms(4) using D p by (intro mult_right_mono mult_strict_right_mono; simp)+
  then have "10 powi x \<le> real n / real d" "real n / real d < 10 powi (x + 1)"
    unfolding power_int_add [of "10::real", symmetric, OF disjI1 [OF numeral_neq_zero]] by (simp_all add: add.commute)
  then have x: "dec_exp n d = x" using n assms(1) by (intro dec_exp_unique)
  obtain a b where ab: "scaled 10 n d (x - 5) = (a, b)" by fastforce
  have r: "0 < b" "real a / real b = real n / real d * 10 powi (5 - x)"
    using scaled_ratio [OF assms(1) _ ab] by simp_all
  have "real a / real b = real D * (10 powi (x - 5) * 10 powi (5 - x))" unfolding r(2) assms(4) by simp
  then have "real a / real b = real D / real 1" by (simp flip: power_int_add)
  then have "rne a b = rne D 1" using r(1) by (intro rne_cong) auto
  then show ?thesis using ab x assms(3) rne_exact [of 1 D] by (simp add: sig6_def)
qed

section \<open>Reading back what \<open>%.6g\<close> wrote\<close>

lemma round_pow_ratio:
  assumes "0 < b"
  obtains n d where "0 < d" "round_pow s k b x = fp_round binary64 s n d"
    "real n / real d = real k * real b powi x"
  using assms that [of 1 "k * b ^ nat x"] that [of "b ^ nat (- x)" k]
  by (cases "0 \<le> x") (simp_all add: round_pow_def power_int_def field_simps)

lemma round_pow_cong:
  assumes "0 < b" "0 < b'" "real k * real b powi x = real k' * real b' powi x'"
  shows "round_pow s k b x = round_pow s k' b' x'"
proof -
  obtain n d where 1: "0 < d" "round_pow s k b x = fp_round binary64 s n d"
    "real n / real d = real k * real b powi x" using round_pow_ratio [OF assms(1)] by blast
  obtain n' d' where 2: "0 < d'" "round_pow s k' b' x' = fp_round binary64 s n' d'"
    "real n' / real d' = real k' * real b' powi x'" using round_pow_ratio [OF assms(2)] by blast
  show ?thesis using fp_round_cong [OF 1(1) 2(1)] 1 2 assms(3) by simp
qed

lemma strip0_split: "\<exists>k. fr = strip0 fr @ replicate k CHR ''0''"
proof (induction fr rule: rev_induct)
  case Nil
  show ?case by (simp add: strip0_def)
next
  case (snoc c fr)
  then obtain k where k: "fr = strip0 fr @ replicate k CHR ''0''" by blast
  show ?case
  proof (cases "c = CHR ''0''")
    case True
    then have "fr @ [c] = strip0 (fr @ [c]) @ replicate (Suc k) CHR ''0''"
      using k by (simp add: strip0_def replicate_append_same [symmetric])
    then show ?thesis by blast
  next
    case False
    then have "fr @ [c] = strip0 (fr @ [c]) @ replicate 0 CHR ''0''" by (simp add: strip0_def)
    then show ?thesis by blast
  qed
qed

lemma dec_val_zeros: "dec_val (replicate k CHR ''0'') = 0"
proof (induction k)
  case (Suc k)
  then show ?case
    by (simp only: replicate_Suc replicate_append_same [symmetric] dec_val_snoc) (simp add: digit_val_def)
qed simp

lemma strip0_value:
  "round_pow s (dec_val (ip @ strip0 fr)) 10 (x - int (length (strip0 fr))) =
   round_pow s (dec_val (ip @ fr)) 10 (x - int (length fr))"
proof -
  obtain k where k: "fr = strip0 fr @ replicate k CHR ''0''" using strip0_split by blast
  define g where "g = strip0 fr"
  have fr: "fr = g @ replicate k CHR ''0''" using k g_def by simp
  have v: "dec_val (ip @ fr) = dec_val (ip @ g) * 10 ^ k"
    unfolding fr append_assoc [symmetric] by (simp only: dec_val_append [of "ip @ g"] length_replicate dec_val_zeros add_0_right)
  have l: "x - int (length g) = int k + (x - int (length fr))" by (simp add: fr)
  show ?thesis
    unfolding g_def [symmetric] v l by (intro round_pow_cong) (simp_all add: power_int_add)
qed

lemma strip0_digits: "\<forall>c \<in> set fr. is_digit c \<Longrightarrow> \<forall>c \<in> set (strip0 fr). is_digit c"
  by (metis strip0_split set_append UnCI)

lemma point_digits_fraction:
  assumes "ip \<noteq> []" "\<forall>c \<in> set ip. is_digit c" "\<forall>c \<in> set fr. is_digit c"
    and u: "u = [] \<or> hd u = CHR ''e''"
  shows "point_digits is_digit (ip @ (if fr = [] then [] else CHR ''.'' # fr) @ u) = (ip, fr, u)"
proof -
  have u': "no_digit_first u" and nd: "\<not> is_digit CHR ''.''"
    using u by (cases u; auto simp: no_digit_first_def is_digit_def)+
  show ?thesis
  proof (cases "fr = []")
    case True
    then show ?thesis
      using takeWhile_digits [OF assms(2) u'] u assms(1)
      by (cases u) (auto simp: point_digits_def Let_def)
  next
    case False
    have "no_digit_first (CHR ''.'' # fr @ u)" using nd by (simp add: no_digit_first_def)
    then show ?thesis
      using takeWhile_digits [OF assms(2), of "CHR ''.'' # fr @ u"] takeWhile_digits [OF assms(3) u'] False assms(1)
      by (simp add: point_digits_def)
  qed
qed

lemma exp_digits_props:
  "dec_val (exp_digits x) = nat \<bar>x\<bar>" "\<forall>c \<in> set (exp_digits x). is_digit c" "exp_digits x \<noteq> []"
  using show_nat_digits [of "nat \<bar>x\<bar>"] dec_val_append [of "''0''" "show_nat (nat \<bar>x\<bar>)"]
    dec_val_zeros [of 1] by (auto simp: exp_digits_def Let_def is_digit_def)

definition exp_text :: "int \<Rightarrow> string" where
  "exp_text x = [CHR ''e'', if x < 0 then CHR ''-'' else CHR ''+''] @ exp_digits x"

lemma opt_exponent_text: "opt_exponent (CHR ''e'') (exp_text x) = (x, [])"
  using exp_digits_props [of x] by (simp add: opt_exponent_def exp_text_def lower_def)

lemma opt_exponent_Nil: "opt_exponent m [] = (0, [])"
  by (simp add: opt_exponent_def)

lemma strtod_dec_fraction:
  assumes "ip \<noteq> []" "\<forall>c \<in> set ip. is_digit c" "\<forall>c \<in> set fr. is_digit c"
    and u: "(u = [] \<and> x = 0) \<or> u = exp_text x"
  shows "strtod_dec neg (with_fraction ip fr @ u) =
    Some (round_pow neg (dec_val (ip @ fr)) 10 (x - int (length fr)), [])"
proof -
  have "point_digits is_digit (with_fraction ip fr @ u) = (ip, strip0 fr, u)"
    using point_digits_fraction [OF assms(1,2) strip0_digits [OF assms(3)], of u] u
    by (auto simp: with_fraction_def exp_text_def)
  moreover have "opt_exponent (CHR ''e'') u = (x, [])"
    using u by (auto simp: opt_exponent_text opt_exponent_Nil)
  ultimately show ?thesis
    using assms(1) by (simp add: strtod_dec_def strip0_value)
qed

lemma length_strip0: "length (strip0 fr) \<le> length fr"
  by (metis strip0_split length_append le_add1)

text \<open>The three layouts of \<open>%.6g\<close> at once: an integer part, a fraction and an exponent part.\<close>

lemma g6_digits_layout:
  assumes "10 ^ 5 \<le> D" "D < 10 ^ 6"
  obtains ip fr u x' where "g6_digits D x = with_fraction ip fr @ u" "ip \<noteq> []"
    "\<forall>c \<in> set ip. is_digit c" "\<forall>c \<in> set fr. is_digit c" "dec_val (ip @ fr) = D"
    "(u = [] \<and> x' = 0) \<or> (u = exp_text x' \<and> x' = x)" "x' - int (length fr) = x - 5"
    "length ip + length fr + length u \<le> 10 \<or> length ip + length fr + length u = 8 + length (exp_digits x)"
proof -
  define ds where "ds = show_nat D"
  have len: "length ds = 6" using length_show_nat_eq [of 5 D] assms by (simp add: ds_def)
  have dig: "\<forall>c \<in> set ds. is_digit c" and val: "dec_val ds = D" by (simp_all add: ds_def show_nat_digits)
  have part: "\<forall>c \<in> set (take k ds). is_digit c" "\<forall>c \<in> set (drop k ds). is_digit c" for k
    using dig in_set_takeD in_set_dropD by fast+
  have z: "is_digit CHR ''0''" by (simp add: is_digit_def)
  consider "0 \<le> x" "x < 6" | "-4 \<le> x" "x < 0" | "\<not> (-4 \<le> x \<and> x < 6)" by linarith
  then show thesis
  proof cases
    case 1
    then show thesis
      using len val part by (intro that [of "take (nat x + 1) ds" "drop (nat x + 1) ds" "[]" 0])
        (auto simp: g6_digits_def ds_def Let_def)
  next
    case 2
    define fr where "fr = replicate (nat (- x) - 1) CHR ''0'' @ ds"
    have "dec_val (''0'' @ fr) = dec_val (replicate (nat (- x)) CHR ''0'' @ ds)"
      using 2 by (cases "nat (- x)") (simp_all add: fr_def)
    then have "dec_val (''0'' @ fr) = D" by (simp add: dec_val_append dec_val_zeros val)
    then show thesis
      using 2 len dig z by (intro that [of "''0''" fr "[]" 0]) (auto simp: g6_digits_def ds_def fr_def)
  next
    case 3
    have "g6_digits D x = with_fraction (take 1 ds) (drop 1 ds) @ exp_text x"
      unfolding g6_digits_def Let_def ds_def [symmetric] exp_text_def using 3 by auto
    then show thesis
      using len val part [of 1] by (intro that [of "take 1 ds" "drop 1 ds" "exp_text x" x])
        (auto simp: exp_text_def)
  qed
qed

lemma strtod_dec_g6:
  assumes "10 ^ 5 \<le> D" "D < 10 ^ 6"
  shows "strtod_dec neg (g6_digits D x) = Some (round_pow neg D 10 (x - 5), [])"
  using assms
proof (rule g6_digits_layout [where x = x])
  fix ip fr u x'
  assume *: "g6_digits D x = with_fraction ip fr @ u" "ip \<noteq> []" "\<forall>c \<in> set ip. is_digit c"
    "\<forall>c \<in> set fr. is_digit c" "dec_val (ip @ fr) = D" "(u = [] \<and> x' = 0) \<or> (u = exp_text x' \<and> x' = x)"
    "x' - int (length fr) = x - 5"
  have "(u = [] \<and> x' = 0) \<or> u = exp_text x'" using *(6) by blast
  from strtod_dec_fraction [OF *(2,3,4) this] show ?thesis by (simp only: * )
qed

lemma exp_digits_length: "2 \<le> length (exp_digits x)"
  using show_nat_nonempty [of "nat \<bar>x\<bar>"] by (simp add: exp_digits_def Let_def Suc_le_eq)

lemma g6_digits_shape:
  assumes "10 ^ 5 \<le> D" "D < 10 ^ 6"
  shows "g6_digits D x \<noteq> []" "is_digit (hd (g6_digits D x))"
    "\<forall>c \<in> set (g6_digits D x). is_digit c \<or> c \<in> {CHR ''.'', CHR ''e'', CHR ''+'', CHR ''-''}"
    "length (g6_digits D x) \<le> 9 + length (exp_digits x)"
proof -
  obtain ip fr u x' where *: "g6_digits D x = with_fraction ip fr @ u" "ip \<noteq> []"
    "\<forall>c \<in> set ip. is_digit c" "\<forall>c \<in> set fr. is_digit c"
    "(u = [] \<and> x' = 0) \<or> (u = exp_text x' \<and> x' = x)"
    "length ip + length fr + length u \<le> 10 \<or> length ip + length fr + length u = 8 + length (exp_digits x)"
    using g6_digits_layout [OF assms, of x] by metis
  have u: "\<forall>c \<in> set u. is_digit c \<or> c \<in> {CHR ''e'', CHR ''+'', CHR ''-''}"
    using *(5) exp_digits_props(2) by (auto simp: exp_text_def)
  show "g6_digits D x \<noteq> []" "is_digit (hd (g6_digits D x))"
    using *(2,3) by (auto simp: *(1) with_fraction_def hd_append)
  show "\<forall>c \<in> set (g6_digits D x). is_digit c \<or> c \<in> {CHR ''.'', CHR ''e'', CHR ''+'', CHR ''-''}"
    using *(3) strip0_digits [OF *(4)] u by (auto simp: *(1) with_fraction_def)
  show "length (g6_digits D x) \<le> 9 + length (exp_digits x)"
    using *(6) length_strip0 [of fr] exp_digits_length [of x] by (auto simp: *(1) with_fraction_def)
qed

text \<open>What a finite value becomes when its \<open>%.6g\<close> text is read back as a \<open>double\<close>.\<close>

fun reread_g6 :: "fp \<Rightarrow> fp" where
  "reread_g6 (FNum s m e) = (if m = 0 then FNum s 0 0
     else (case scaled 2 m 1 (- e) of (n, d) \<Rightarrow> case sig6 n d of (D, x) \<Rightarrow> round_pow s D 10 (x - 5)))"
| "reread_g6 v = v"

lemma starts_ci_hd: "w \<noteq> [] \<Longrightarrow> t \<noteq> [] \<Longrightarrow> lower (hd t) \<noteq> hd w \<Longrightarrow> \<not> starts_ci w t"
  by (cases w; cases t) (auto simp: starts_ci_def)

lemma opt_sign_text:
  assumes "t \<noteq> []" "hd t \<noteq> CHR ''-''" "hd t \<noteq> CHR ''+''"
  shows "opt_sign (sign_text s @ t) = (s, t)"
  using assms by (cases t) (auto simp: sign_text_def)

lemma skip_spaces_sign:
  assumes "\<forall>c \<in> set sp. is_space c" "t \<noteq> []" "\<not> is_space (hd t)" "hd t \<noteq> CHR ''-''" "hd t \<noteq> CHR ''+''"
  shows "opt_sign (dropWhile is_space (sp @ sign_text s @ t)) = (s, t)"
proof -
  have "dropWhile is_space (sign_text s @ t) = sign_text s @ t"
    using assms(2,3) by (cases t) (auto simp: sign_text_def is_space_def)
  then show ?thesis using assms by (simp add: dropWhile_spaces opt_sign_text)
qed

lemma strtod_number:
  assumes sp: "\<forall>c \<in> set sp. is_space c"
    and t: "t \<noteq> []" "is_digit (hd t)" "\<forall>c \<in> set t. is_digit c \<or> c \<in> {CHR ''.'', CHR ''e'', CHR ''+'', CHR ''-''}"
    and r: "strtod_dec s t = Some r"
  shows "strtod (sp @ sign_text s @ t) = r"
proof -
  note h = digit_facts [OF t(2)]
  have "\<not> starts_ci ''0x'' t"
  proof
    assume "starts_ci ''0x'' t"
    then have "map lower (take 2 t) = ''0x''" by (simp add: starts_ci_def numeral_2_eq_2)
    then obtain c where "c \<in> set t" "lower c = CHR ''x''"
      by (cases t; cases "tl t") auto
    with t(3) show False by (auto simp: lower_def is_digit_def split: if_splits)
  qed
  moreover have "\<not> starts_ci ''infinity'' t" "\<not> starts_ci ''inf'' t" "\<not> starts_ci ''nan'' t"
    using h t(1) starts_ci_hd [of "''infinity''" t] starts_ci_hd [of "''inf''" t] starts_ci_hd [of "''nan''" t]
    by simp_all
  ultimately show ?thesis
    using skip_spaces_sign [OF sp t(1) h(1,2,3)] r by (simp add: strtod_def)
qed

lemma strtod_word:
  assumes sp: "\<forall>c \<in> set sp. is_space c"
  shows "strtod (sp @ sign_text s @ ''inf'') = (FInf s, [])" "strtod (sp @ sign_text s @ ''nan'') = (FNaN s, [])"
  using skip_spaces_sign [OF sp, of "''inf''" s] skip_spaces_sign [OF sp, of "''nan''" s]
  by (simp_all add: strtod_def starts_ci_def lower_def is_space_def nan_tail_def)

lemma strtod_zero:
  "\<forall>c \<in> set sp. is_space c \<Longrightarrow> strtod (sp @ sign_text s @ ''0'') = (FNum s 0 0, [])"
  by (rule strtod_number)
     (auto simp: is_digit_def strtod_dec_def point_digits_def opt_exponent_Nil round_pow_def
       dec_val_def digit_val_def fp_round_def)

lemma scaled_pos:
  assumes "0 < m" "scaled 2 m 1 e = (n, d)"
  shows "0 < n" "0 < d"
  using assms by (auto simp: scaled_def split: if_splits)

theorem strtod_fmt_g6:
  assumes "\<forall>c \<in> set sp. is_space c"
  shows "strtod (sp @ fmt_g6 v) = (reread_g6 v, [])"
proof (cases v)
  case (FNum s m e)
  show ?thesis
  proof (cases "m = 0")
    case False
    obtain n d where nd: "scaled 2 m 1 (- e) = (n, d)" by fastforce
    obtain D x where Dx: "sig6 n d = (D, x)" by fastforce
    have b: "10 ^ 5 \<le> D" "D < 10 ^ 6" using sig6_bounds [OF scaled_pos [OF _ nd] Dx] False by auto
    show ?thesis
      using strtod_number [OF assms g6_digits_shape(1,2,3) [OF b, of x] strtod_dec_g6 [OF b, of s x]] False
      by (simp add: FNum nd [simplified] Dx)
  qed (simp add: FNum strtod_zero [OF assms])
qed (use strtod_word [OF assms] in simp_all)

section \<open>When nothing is lost, and how long the text can be\<close>

theorem reread_g6_exact:
  assumes "is_f64 (FNum s m e)" "10 ^ 5 \<le> D" "D < 10 ^ 6" "real m * 2 powi e = real D * 10 powi (x - 5)"
  shows "reread_g6 (FNum s m e) = FNum s m e"
proof -
  have m: "m \<noteq> 0" using assms(2,4) by (intro notI) simp
  obtain n d where nd: "scaled 2 m 1 (- e) = (n, d)" by fastforce
  have r: "0 < d" "real n / real d = real m * 2 powi e"
    using scaled_ratio [OF _ _ nd] by simp_all
  have "sig6 n d = (D, x)" using r assms by (intro sig6_exact) simp_all
  moreover have "round_pow s D 10 (x - 5) = FNum s m e"
  proof -
    obtain k j where kj: "0 < j" "round_pow s D 10 (x - 5) = fp_round binary64 s k j"
      "real k / real j = real D * real 10 powi (x - 5)" using round_pow_ratio [of 10] by (metis zero_less_numeral)
    then show ?thesis using fp_round_exact [OF assms(1) m kj(1)] assms(4) by simp
  qed
  ultimately show ?thesis using m nd [simplified] by simp
qed

text \<open>The decimal exponents a \<open>float\<close> can have take at most two digits.\<close>

lemma f32_magnitude:
  assumes "is_f32 (FNum s m e)" "m \<noteq> 0"
  shows "2 powi (-149) \<le> real m * 2 powi e" "real m * 2 powi e < 2 powi 128"
proof -
  have e: "-149 \<le> e" "e + int (bitlen m) \<le> 128" using assms by (auto simp: binary32_def)
  have "2 powi (-149) \<le> 1 * (2::real) powi e" unfolding mult_1 using e by (intro power_int_increasing) auto
  also have "1 * 2 powi e \<le> real m * 2 powi e" using assms(2) by (intro mult_right_mono) auto
  finally show "2 powi (-149) \<le> real m * 2 powi e" .
  have "real m * 2 powi e < 2 powi int (bitlen m) * 2 powi e"
    using bitlen_real(2) [of m] assms(2) by (intro mult_strict_right_mono) auto
  also have "\<dots> = 2 powi (int (bitlen m) + e)" by (simp add: power_int_add)
  also have "\<dots> \<le> 2 powi 128" using e by (intro power_int_increasing) auto
  finally show "real m * 2 powi e < 2 powi 128" .
qed

lemma exp_digits_short: "\<bar>x\<bar> < 100 \<Longrightarrow> length (exp_digits x) = 2"
  using length_show_nat [of 2 "nat \<bar>x\<bar>"] exp_digits_length [of x]
  by (auto simp: exp_digits_def Let_def)

theorem length_fmt_g6:
  assumes "is_f32 v"
  shows "length (fmt_g6 v) \<le> 12"
proof (cases v)
  case (FNum s m e)
  show ?thesis
  proof (cases "m = 0")
    case False
    obtain n d where nd: "scaled 2 m 1 (- e) = (n, d)" by fastforce
    have r: "0 < d" "real n / real d = real m * 2 powi e" and n: "0 < n"
      using scaled_ratio [OF _ _ nd] scaled_pos [OF _ nd] False by simp_all
    obtain D x where Dx: "sig6 n d = (D, x)" by fastforce
    have b: "10 ^ 5 \<le> D" "D < 10 ^ 6" using sig6_bounds [OF n r(1) Dx] by auto
    note mag = f32_magnitude [OF assms [unfolded FNum] False]
    have "10 powi dec_exp n d < (10::real) powi 39" "(10::real) powi (-46) < 10 powi (dec_exp n d + 1)"
    proof -
      have c: "(2::real) powi 128 \<le> 10 powi 39" "(10::real) powi (-46) < 2 powi (-149)" by simp_all
      show "10 powi dec_exp n d < (10::real) powi 39" "(10::real) powi (-46) < 10 powi (dec_exp n d + 1)"
        using dec_exp_bounds [OF n r(1)] mag r(2) c by linarith+
    qed
    then have "-47 < dec_exp n d" "dec_exp n d < 39" unfolding powi10_less_iff by simp_all
    then have "\<bar>x\<bar> < 100" using Dx by (auto simp: sig6_def Let_def split: prod.splits if_splits)
    then show ?thesis
      using g6_digits_shape(4) [OF b, of x] exp_digits_short [of x] False
      by (simp add: FNum nd [simplified] Dx sign_text_def)
  qed (simp add: FNum sign_text_def)
qed (simp_all add: sign_text_def)

lemma fmt_g6_chars:
  "\<forall>c \<in> set (fmt_g6 v). c \<noteq> NUL \<and> c \<noteq> NEWLINE"
proof (cases v)
  case (FNum s m e)
  show ?thesis
  proof (cases "m = 0")
    case False
    obtain n d where nd: "scaled 2 m 1 (- e) = (n, d)" by fastforce
    obtain D x where Dx: "sig6 n d = (D, x)" by fastforce
    have b: "10 ^ 5 \<le> D" "D < 10 ^ 6" using sig6_bounds [OF scaled_pos [OF _ nd] Dx] False by auto
    show ?thesis
      using g6_digits_shape(3) [OF b, of x] False
      by (auto simp: FNum nd [simplified] Dx sign_text_def NUL_def NEWLINE_def is_digit_def)
  qed (simp add: FNum sign_text_def NUL_def NEWLINE_def)
qed (simp_all add: sign_text_def NUL_def NEWLINE_def)

lemma round_pow_in_format: "0 < b \<Longrightarrow> is_f64 (round_pow s k b x)"
  by (simp add: round_pow_def binary64_def fp_round_in_format)

end
