(* ===== verification/Config_Image.thy ===== *)
theory Config_Image
  imports Analog_Values Ivory_File C_Text
begin

text \<open>
  Backup and restore (\<open>main.cpp\<close>, DM-BR-B): the configuration image a backup writes into File 1,
  the parser a restore runs on it, the application of the parsed set to the table of created Analog
  Values, and the four life-cycle callbacks. \<open>BACnetStack_AddObject\<close> is the parameter \<open>addObject\<close>
  (whether the stack adds the object); the calls made to the stack are returned in order.
\<close>

section \<open>State\<close>

record restore =
  g_restoredAnalogValues :: "(u32 \<times> fp) list"
  g_restoredAnalogValueCount :: nat
  g_restorePending :: bool

definition restore_init :: restore where
  "restore_init = \<lparr>g_restoredAnalogValues = replicate (unat MAX_CREATED_ANALOG_VALUES) (0, float_zero),
     g_restoredAnalogValueCount = 0, g_restorePending = False\<rparr>"

definition CONFIGURATION_IMAGE_HEADER :: string where
  "CONFIGURATION_IMAGE_HEADER = ''B-AEC configuration 1'' @ [NEWLINE]"

definition CONFIGURATION_IMAGE_ANALOG_VALUE :: string where
  "CONFIGURATION_IMAGE_ANALOG_VALUE = ''analog-value''"

section \<open>Writing the image\<close>

text \<open>\<open>snprintf (buf + pos, limit, \<dots>)\<close>: at most \<open>limit - 1\<close> characters and a zero octet; returns the length of the whole text.\<close>

definition snprintf_at :: "string \<Rightarrow> nat \<Rightarrow> nat \<Rightarrow> string \<Rightarrow> string" where
  "snprintf_at buf pos limit s = (if limit = 0 then buf else array_put buf pos (take (limit - 1) s @ [NUL]))"

definition append_text :: "string \<Rightarrow> string \<times> nat \<Rightarrow> string \<times> nat" where
  "append_text s b = (case b of (buf, len) \<Rightarrow> (snprintf_at buf len (unat FILE_MAX_SIZE - len) s, len + length s))"

definition image_line :: "created_av \<Rightarrow> string" where
  "image_line av = CONFIGURATION_IMAGE_ANALOG_VALUE @ '' '' @ fmt_u (av_instance av) @ '' '' @
     fmt_g6 (f64_of_f32 (presentValue av)) @ [NEWLINE]"

definition BuildConfigurationImage :: "(int \<Rightarrow> tm option) \<Rightarrow> int \<Rightarrow> int \<Rightarrow> av_table \<Rightarrow> ivory \<Rightarrow> ivory" where
  "BuildConfigurationImage localtime now off t f =
     (let b = append_text CONFIGURATION_IMAGE_HEADER (g_fileData f, 0);
          (buf, len) = fold (\<lambda>slotIndex b. if inUse (t ! slotIndex) \<and> snd b < unat FILE_MAX_SIZE
                                           then append_text (image_line (t ! slotIndex)) b else b)
                         [0..<unat MAX_CREATED_ANALOG_VALUES] b
      in f\<lparr>g_fileData := buf,
           g_fileDataLength := (if len < unat FILE_MAX_SIZE then word_of_nat len else FILE_MAX_SIZE),
           g_fileModificationDate := ReadDeviceDateTime localtime now off (g_fileModificationDate f)\<rparr>)"

section \<open>Reading the image\<close>

text \<open>
  One line after its type word: \<open>strtoul\<close>, then \<open>strtod\<close> where it stopped. The pointers are the
  texts they point to; two of them are equal exactly if nothing was consumed.
\<close>

definition parse_line :: "string \<Rightarrow> (u32 \<times> fp) option" where
  "parse_line line =
     (let instanceText = drop (length CONFIGURATION_IMAGE_ANALOG_VALUE) (c_str line);
          (parsedInstance, valueText) = strtoul instanceText;
          (parsedValue, parseEnd) = strtod valueText
      in if valueText = instanceText \<or> parseEnd = valueText \<or> parseEnd \<noteq> [] \<or> 4194302 < parsedInstance then None
         else Some (word_of_nat parsedInstance, f32_of_f64 parsedValue))"

text \<open>
  The loop over the lines, from \<open>lineStart\<close> on (\<open>text\<close> is the rest of the image). It writes the
  staging array as it goes: the result has the array also when the image is rejected.
\<close>

function parse_lines :: "string \<Rightarrow> (u32 \<times> fp) list \<Rightarrow> nat \<Rightarrow> bool \<times> (u32 \<times> fp) list \<times> nat" where
  "parse_lines text restored parsedCount =
     (if text = [] then (True, restored, parsedCount)
      else (let line = takeWhile (\<lambda>c. c \<noteq> NEWLINE) text; rest = drop (Suc (length line)) text
            in if line = [] then parse_lines rest restored parsedCount
               else if take (length CONFIGURATION_IMAGE_ANALOG_VALUE) line \<noteq> CONFIGURATION_IMAGE_ANALOG_VALUE \<or>
                       unat MAX_CREATED_ANALOG_VALUES \<le> parsedCount then (False, restored, parsedCount)
               else (case parse_line line of
                   None \<Rightarrow> (False, restored, parsedCount)
                 | Some av \<Rightarrow> parse_lines rest (restored[parsedCount := av]) (Suc parsedCount))))"
  by pat_completeness auto
termination
  by (relation "measure (\<lambda>(text, restored, parsedCount). length text)") auto

declare parse_lines.simps [simp del]

definition ParseConfigurationImage :: "ivory \<Rightarrow> restore \<Rightarrow> bool \<times> restore" where
  "ParseConfigurationImage f r =
     (let image = file_content f; headerLength = length CONFIGURATION_IMAGE_HEADER
      in if take headerLength image \<noteq> CONFIGURATION_IMAGE_HEADER then (False, r)
         else (case parse_lines (drop headerLength image) (g_restoredAnalogValues r) 0 of
             (ok, restored, parsedCount) \<Rightarrow>
               (ok, r\<lparr>g_restoredAnalogValues := restored,
                      g_restoredAnalogValueCount := (if ok then parsedCount else g_restoredAnalogValueCount r)\<rparr>)))"

section \<open>Applying a restore\<close>

datatype stack_call = RemoveObject u32 | AddObject u32 | UpdateValue u32

definition delete_unlisted :: "restore \<Rightarrow> nat \<Rightarrow> av_table \<times> stack_call list \<Rightarrow> av_table \<times> stack_call list" where
  "delete_unlisted r slotIndex s = (case s of (t, cs) \<Rightarrow>
     let av = t ! slotIndex;
         inImage = list_ex (\<lambda>k. fst (g_restoredAnalogValues r ! k) = av_instance av) [0..<g_restoredAnalogValueCount r]
     in if \<not> inUse av then (t, cs)
        else if \<not> inImage then (t[slotIndex := av\<lparr>inUse := False\<rparr>], cs @ [RemoveObject (av_instance av)])
        else (t, cs))"

definition restore_value :: "(u32 \<Rightarrow> bool) \<Rightarrow> u32 \<times> fp \<Rightarrow> av_table \<times> stack_call list \<Rightarrow> av_table \<times> stack_call list" where
  "restore_value addObject restored s = (case s of (t, cs) \<Rightarrow> case restored of (i, v) \<Rightarrow>
     (case FindCreatedAnalogValue i t of
        Some k \<Rightarrow> (t[k := (t ! k)\<lparr>presentValue := v\<rparr>], cs @ [UpdateValue i])
      | None \<Rightarrow>
          (case FindFreeAnalogValueSlot t of
             None \<Rightarrow> (t, cs)
           | Some k \<Rightarrow>
               if \<not> addObject i then (t, cs @ [AddObject i])
               else (t[k := \<lparr>inUse = True, av_instance = i, presentValue = v\<rparr>], cs @ [AddObject i, UpdateValue i]))))"

definition ApplyRestoredConfiguration :: "(u32 \<Rightarrow> bool) \<Rightarrow> restore \<Rightarrow> av_table \<Rightarrow> av_table \<times> stack_call list" where
  "ApplyRestoredConfiguration addObject r t =
     fold (\<lambda>k. restore_value addObject (g_restoredAnalogValues r ! k)) [0..<g_restoredAnalogValueCount r]
       (fold (delete_unlisted r) [0..<unat MAX_CREATED_ANALOG_VALUES] (t, []))"

section \<open>The life-cycle callbacks\<close>

definition PrepareBackup :: "(int \<Rightarrow> tm option) \<Rightarrow> int \<Rightarrow> int \<Rightarrow> u32 \<Rightarrow> u32 \<Rightarrow> av_table \<Rightarrow> ivory \<Rightarrow> ivory option" where
  "PrepareBackup localtime now off dev deviceInstance t f =
     (if deviceInstance \<noteq> dev then None else Some (BuildConfigurationImage localtime now off t f))"

definition CompleteBackup :: "u32 \<Rightarrow> u32 \<Rightarrow> bool" where
  "CompleteBackup dev deviceInstance \<longleftrightarrow> deviceInstance = dev"

definition PrepareRestore :: "u32 \<Rightarrow> u32 \<Rightarrow> ivory \<Rightarrow> ivory option" where
  "PrepareRestore dev deviceInstance f = (if deviceInstance \<noteq> dev then None else Some (f\<lparr>g_fileDataLength := 0\<rparr>))"

definition CompleteRestore :: "u32 \<Rightarrow> u32 \<Rightarrow> bool \<Rightarrow> ivory \<Rightarrow> restore \<Rightarrow> bool \<times> restore" where
  "CompleteRestore dev deviceInstance wasAborted f r =
     (if deviceInstance \<noteq> dev then (False, r)
      else if wasAborted then (True, r)
      else (case ParseConfigurationImage f r of
          (False, r') \<Rightarrow> (False, r')
        | (True, r') \<Rightarrow> (True, r'\<lparr>g_restorePending := True\<rparr>)))"

section \<open>The image a backup writes\<close>

definition image_of :: "av_table \<Rightarrow> string" where
  "image_of t = CONFIGURATION_IMAGE_HEADER @ concat (map image_line (filter inUse t))"

lemma append_text_content:
  assumes "length buf = 4096" "len + length s < 4096"
  shows "\<exists>buf'. append_text s (buf, len) = (buf', len + length s) \<and> length buf' = 4096 \<and>
    take (len + length s) buf' = take len buf @ s"
proof -
  have "append_text s (buf, len) = (array_put buf len (s @ [NUL]), len + length s)"
    using assms by (simp add: append_text_def snprintf_at_def)
  moreover have "take (len + length s) (array_put buf len (s @ [NUL])) = take len buf @ s"
    using assms by (simp add: array_put_def)
  ultimately show ?thesis using assms by simp
qed

lemma build_fold:
  assumes "length buf = 4096" "len + length (concat (map (\<lambda>k. if inUse (t ! k) then image_line (t ! k) else []) ks)) < 4096"
  shows "\<exists>buf'. fold (\<lambda>k b. if inUse (t ! k) \<and> snd b < unat FILE_MAX_SIZE then append_text (image_line (t ! k)) b else b) ks (buf, len) =
      (buf', len + length (concat (map (\<lambda>k. if inUse (t ! k) then image_line (t ! k) else []) ks))) \<and> length buf' = 4096 \<and>
    take (len + length (concat (map (\<lambda>k. if inUse (t ! k) then image_line (t ! k) else []) ks))) buf' =
      take len buf @ concat (map (\<lambda>k. if inUse (t ! k) then image_line (t ! k) else []) ks)"
  using assms
proof (induction ks arbitrary: buf len)
  case (Cons k ks)
  show ?case
  proof (cases "inUse (t ! k)")
    case True
    obtain buf1 where b: "append_text (image_line (t ! k)) (buf, len) = (buf1, len + length (image_line (t ! k)))"
      "length buf1 = 4096" "take (len + length (image_line (t ! k))) buf1 = take len buf @ image_line (t ! k)"
      using append_text_content [OF Cons.prems(1), of len "image_line (t ! k)"] Cons.prems(2) True by auto
    show ?thesis using Cons.IH [OF b(2), of "len + length (image_line (t ! k))"] Cons.prems(2) True b by (simp add: add.assoc)
  qed (use Cons in simp)
qed simp

lemma concat_in_use:
  "concat (map (\<lambda>k. if inUse (t ! k) then image_line (t ! k) else []) [0..<length t]) = concat (map image_line (filter inUse t))"
proof -
  have "concat (map (\<lambda>av. if inUse av then image_line av else []) t) = concat (map image_line (filter inUse t))"
    by (induction t) auto
  then show ?thesis by (metis (mono_tags, lifting) map_map comp_def map_nth map_eq_conv)
qed

lemma build_content:
  assumes "ivory_inv f" "length t = 8" "length (image_of t) < 4096"
  shows "file_content (BuildConfigurationImage lt now off t f) = image_of t" "ivory_inv (BuildConfigurationImage lt now off t f)"
proof -
  note D = ivory_invD [OF assms(1)]
  let ?h = CONFIGURATION_IMAGE_HEADER
  obtain buf0 where b0: "append_text ?h (g_fileData f, 0) = (buf0, length ?h)" "length buf0 = 4096" "take (length ?h) buf0 = ?h"
    using append_text_content [OF D(1), of 0 ?h] assms(3) by (auto simp: image_of_def)
  let ?c = "concat (map image_line (filter inUse t))"
  obtain buf where b: "fold (\<lambda>k b. if inUse (t ! k) \<and> snd b < unat FILE_MAX_SIZE then append_text (image_line (t ! k)) b else b) [0..<8]
      (buf0, length ?h) = (buf, length ?h + length ?c)" "length buf = 4096" "take (length ?h + length ?c) buf = ?h @ ?c"
    using build_fold [OF b0(2), of "length ?h" t "[0..<8]"] concat_in_use [of t] assms(2,3) b0(3) by (auto simp: image_of_def)
  have len: "length ?h + length ?c < 4096" using assms(3) by (simp add: image_of_def)
  have "BuildConfigurationImage lt now off t f = f\<lparr>g_fileData := buf, g_fileDataLength := word_of_nat (length ?h + length ?c),
      g_fileModificationDate := ReadDeviceDateTime lt now off (g_fileModificationDate f)\<rparr>"
    using b0(1) b(1) len by (simp add: BuildConfigurationImage_def)
  moreover have "unat (word_of_nat (length ?h + length ?c) :: u32) = length ?h + length ?c"
    using len by (simp only: unsigned_of_nat) (simp add: take_bit_nat_eq_self)
  ultimately show "file_content (BuildConfigurationImage lt now off t f) = image_of t" "ivory_inv (BuildConfigurationImage lt now off t f)"
    using b(2,3) len by (simp_all add: file_content_def image_of_def ivory_inv_def word_le_nat_alt del: of_nat_add)
qed

lemma image_line_length:
  assumes "is_f32 (presentValue av)"
  shows "length (image_line av) \<le> 37"
proof -
  have "unat (av_instance av) < 2 ^ 32" using unsigned_less [of "av_instance av"] by simp
  then have "length (fmt_u (av_instance av)) \<le> 10" unfolding fmt_u_def by (subst length_show_nat) simp_all
  then show ?thesis using length_fmt_g6 [OF assms]
    by (simp add: image_line_def CONFIGURATION_IMAGE_ANALOG_VALUE_def f64_of_f32_def)
qed

lemma image_length:
  assumes "length t = 8" "\<forall>av \<in> set t. is_f32 (presentValue av)"
  shows "length (image_of t) \<le> 318"
proof -
  have "length (concat (map image_line avs)) \<le> 37 * length avs" if "\<forall>av \<in> set avs. is_f32 (presentValue av)" for avs
    using that by (induction avs) (auto simp: image_line_length add_mono)
  then have "length (concat (map image_line (filter inUse t))) \<le> 37 * length (filter inUse t)" using assms(2) by simp
  also have "\<dots> \<le> 37 * 8" using length_filter_le [of inUse t] assms(1) by simp
  finally show ?thesis by (simp add: image_of_def CONFIGURATION_IMAGE_HEADER_def)
qed

section \<open>The parser on such an image\<close>

text \<open>What a value becomes on the way through the image.\<close>

definition through_image :: "fp \<Rightarrow> fp" where
  "through_image v = f32_of_f64 (reread_g6 (f64_of_f32 v))"

definition line_text :: "created_av \<Rightarrow> string" where
  "line_text av = CONFIGURATION_IMAGE_ANALOG_VALUE @ '' '' @ show_nat (unat (av_instance av)) @ '' '' @
     fmt_g6 (f64_of_f32 (presentValue av))"

lemma image_line_text: "image_line av = line_text av @ [NEWLINE]"
  by (simp add: image_line_def line_text_def fmt_u_def)

lemma show_nat_plain: "c \<in> set (show_nat n) \<Longrightarrow> c \<noteq> NUL \<and> c \<noteq> NEWLINE"
  using show_nat_digits [of n] by (auto simp: is_digit_def NUL_def NEWLINE_def)

lemma line_text_plain: "c \<in> set (line_text av) \<Longrightarrow> c \<noteq> NUL \<and> c \<noteq> NEWLINE"
  using show_nat_plain fmt_g6_chars [of "f64_of_f32 (presentValue av)"]
  by (auto simp: line_text_def CONFIGURATION_IMAGE_ANALOG_VALUE_def NUL_def NEWLINE_def)

lemma parse_line_text:
  assumes "unat (av_instance av) \<le> 4194302"
  shows "parse_line (line_text av) = Some (av_instance av, through_image (presentValue av))"
proof -
  let ?n = "unat (av_instance av)" and ?v = "f64_of_f32 (presentValue av)"
  have c: "c_str (line_text av) = line_text av"
    using line_text_plain by (auto simp: c_str_def takeWhile_eq_all_conv)
  have u: "strtoul ('' '' @ show_nat ?n @ '' '' @ fmt_g6 ?v) = (?n, '' '' @ fmt_g6 ?v)"
    using assms by (intro strtoul_show_nat) (simp_all add: ULONG_MAX_def no_digit_first_def is_digit_def is_space_def)
  have d: "strtod ('' '' @ fmt_g6 ?v) = (reread_g6 ?v, [])"
    by (intro strtod_fmt_g6) (simp add: is_space_def)
  have i: "drop (length CONFIGURATION_IMAGE_ANALOG_VALUE) (line_text av) = '' '' @ show_nat ?n @ '' '' @ fmt_g6 ?v"
    by (simp add: line_text_def)
  have ne: "'' '' @ fmt_g6 ?v \<noteq> '' '' @ show_nat ?n @ '' '' @ fmt_g6 ?v"
  proof
    assume "'' '' @ fmt_g6 ?v = '' '' @ show_nat ?n @ '' '' @ fmt_g6 ?v"
    then have "length ('' '' @ fmt_g6 ?v) = length ('' '' @ show_nat ?n @ '' '' @ fmt_g6 ?v)" by (rule arg_cong)
    then show False by simp
  qed
  show ?thesis
    unfolding parse_line_def c i Let_def u prod.case d using ne assms by (simp add: through_image_def)
qed

lemma parse_lines_image:
  assumes "\<forall>av \<in> set avs. unat (av_instance av) \<le> 4194302" "n + length avs \<le> 8" "length res = 8"
  shows "\<exists>res'. parse_lines (concat (map image_line avs)) res n = (True, res', n + length avs) \<and> length res' = 8 \<and>
    take (n + length avs) res' = take n res @ map (\<lambda>av. (av_instance av, through_image (presentValue av))) avs"
  using assms
proof (induction avs arbitrary: res n)
  case Nil
  then show ?case by (simp add: parse_lines.simps [of "[]"])
next
  case (Cons av avs)
  let ?rest = "concat (map image_line avs)" and ?p = "(av_instance av, through_image (presentValue av))"
  have tw: "takeWhile (\<lambda>c. c \<noteq> NEWLINE) (line_text av @ NEWLINE # ?rest) = line_text av"
    using line_text_plain by (simp add: takeWhile_append2 takeWhile_tail)
  have ty: "take (length CONFIGURATION_IMAGE_ANALOG_VALUE) (line_text av) = CONFIGURATION_IMAGE_ANALOG_VALUE"
    "line_text av \<noteq> []"
    by (simp_all add: line_text_def)
  have "parse_lines (concat (map image_line (av # avs))) res n = parse_lines ?rest (res[n := ?p]) (Suc n)"
    using tw ty parse_line_text [of av] Cons.prems
    by (simp add: parse_lines.simps [of "line_text av @ NEWLINE # ?rest"] image_line_text Let_def)
  moreover obtain res' where "parse_lines ?rest (res[n := ?p]) (Suc n) = (True, res', Suc n + length avs)" "length res' = 8"
    "take (Suc n + length avs) res' = take (Suc n) (res[n := ?p]) @ map (\<lambda>av. (av_instance av, through_image (presentValue av))) avs"
    using Cons.IH [of "Suc n" "res[n := ?p]"] Cons.prems by auto
  ultimately show ?case using Cons.prems list_update_take_last [of n res ?p] by simp
qed

text \<open>On any text at all, the loop stays inside the staging array and stages only valid instances and \<open>float\<close>s.\<close>

definition staged_ok :: "u32 \<times> fp \<Rightarrow> bool" where
  "staged_ok q \<longleftrightarrow> unat (fst q) \<le> 4194302 \<and> is_f32 (snd q)"

lemma parse_line_ok: "parse_line line = Some q \<Longrightarrow> staged_ok q"
  by (auto simp: parse_line_def staged_ok_def f32_of_f64_in_format unsigned_of_nat take_bit_nat_eq_self Let_def
      split: prod.splits if_splits)

lemma parse_lines_any:
  assumes "length res = 8" "n \<le> 8" "list_all staged_ok (take n res)" "parse_lines tx res n = (ok, res', n')"
  shows "length res' = 8 \<and> n' \<le> 8 \<and> list_all staged_ok (take n' res')"
  using assms
proof (induction tx res n arbitrary: ok res' n' rule: parse_lines.induct)
  case (1 tx res n)
  let ?line = "takeWhile (\<lambda>c. c \<noteq> NEWLINE) tx"
  let ?rest = "drop (Suc (length ?line)) tx"
  note eq = "1.prems"(4) [unfolded parse_lines.simps [of tx] Let_def]
  consider "tx = []" | "tx \<noteq> []" "?line = []"
    | "tx \<noteq> []" "?line \<noteq> []" "take (length CONFIGURATION_IMAGE_ANALOG_VALUE) ?line \<noteq> CONFIGURATION_IMAGE_ANALOG_VALUE \<or> 8 \<le> n"
    | "tx \<noteq> []" "?line \<noteq> []" "take (length CONFIGURATION_IMAGE_ANALOG_VALUE) ?line = CONFIGURATION_IMAGE_ANALOG_VALUE" "n < 8"
    by fastforce
  then show ?case
  proof cases
    case 2
    with "1.IH"(1) [OF 2(1) refl refl 2(2)] "1.prems" eq show ?thesis by simp
  next
    case 4
    show ?thesis
    proof (cases "parse_line ?line")
      case (Some q)
      have "list_all staged_ok (take (Suc n) (res[n := q]))"
        using parse_line_ok [OF Some] "1.prems"(1,3) 4(4) by (simp add: list_update_take_last)
      with "1.IH"(2) [OF 4(1) refl refl 4(2) _ Some] 4 "1.prems"(1) eq Some show ?thesis by simp
    qed (use 4 eq "1.prems" in auto)
  qed (use eq "1.prems" in auto)
qed

section \<open>Applying the restored set\<close>

definition restored :: "restore \<Rightarrow> (u32 \<times> fp) list" where
  "restored r = take (g_restoredAnalogValueCount r) (g_restoredAnalogValues r)"

definition restore_inv :: "restore \<Rightarrow> bool" where
  "restore_inv r \<longleftrightarrow> length (g_restoredAnalogValues r) = unat MAX_CREATED_ANALOG_VALUES \<and>
     g_restoredAnalogValueCount r \<le> unat MAX_CREATED_ANALOG_VALUES"

lemma in_image_iff:
  assumes "restore_inv r"
  shows "list_ex (\<lambda>k. fst (g_restoredAnalogValues r ! k) = i) [0..<g_restoredAnalogValueCount r] \<longleftrightarrow> i \<in> fst ` set (restored r)"
proof -
  have "g_restoredAnalogValueCount r \<le> length (g_restoredAnalogValues r)" using assms by (simp add: restore_inv_def)
  then have "set (restored r) = nth (g_restoredAnalogValues r) ` {0..<g_restoredAnalogValueCount r}"
    unfolding restored_def by (rule nth_image [symmetric])
  then show ?thesis by (auto simp: list_ex_iff)
qed

definition unlist :: "restore \<Rightarrow> created_av \<Rightarrow> created_av" where
  "unlist r av = (if inUse av \<and> av_instance av \<notin> fst ` set (restored r) then av\<lparr>inUse := False\<rparr> else av)"

lemma delete_fold:
  assumes "restore_inv r"
  shows "n \<le> length t \<Longrightarrow> fst (fold (delete_unlisted r) [0..<n] (t, cs)) = map (unlist r) (take n t) @ drop n t"
proof (induction n)
  case (Suc n)
  obtain t' cs' where f: "fold (delete_unlisted r) [0..<n] (t, cs) = (t', cs')" by fastforce
  have t': "t' = map (unlist r) (take n t) @ drop n t" using Suc f by simp
  have len: "length (map (unlist r) (take n t)) = n" using Suc.prems by simp
  have split: "drop n t = t ! n # drop (Suc n) t" using Suc.prems by (metis Cons_nth_drop_Suc Suc_le_eq)
  then have "t' ! n = t ! n" "t'[n := x] = map (unlist r) (take n t) @ x # drop (Suc n) t" for x
    using len by (simp_all add: t' nth_append list_update_append)
  then have "fst (delete_unlisted r n (t', cs')) = map (unlist r) (take n t) @ unlist r (t ! n) # drop (Suc n) t"
    using split by (simp add: delete_unlisted_def unlist_def in_image_iff [OF assms] Let_def t')
  then show ?case using f Suc.prems by (simp add: take_Suc_conv_app_nth)
qed simp

lemma entries_unlist: "entries (map (unlist r) t) = filter (\<lambda>e. fst e \<in> fst ` set (restored r)) (entries t)"
  by (induction t) (auto simp: entries_Cons unlist_def entries_def [of "[]"])

lemma map_of_filter_fst: "map_of (filter (\<lambda>e. fst e \<in> I) xs) = map_of xs |` I"
  by (induction xs) (auto simp: fun_eq_iff restrict_map_def)

lemma distinct_filter_fst: "distinct (map fst xs) \<Longrightarrow> distinct (map fst (filter P xs))"
  by (induction xs) auto

lemma unlist_table:
  assumes "av_inv t"
  shows "av_inv (map (unlist r) t)" "av_map (map (unlist r) t) = av_map t |` (fst ` set (restored r))"
proof -
  show inv: "av_inv (map (unlist r) t)"
    using assms by (simp add: av_inv_def entries_unlist distinct_filter_fst)
  show "av_map (map (unlist r) t) = av_map t |` (fst ` set (restored r))"
    by (simp add: av_map_entries [OF inv] av_map_entries [OF assms] entries_unlist map_of_filter_fst)
qed

lemma restore_value_map:
  assumes "av_inv t" "addObject i" "i \<in> dom (av_map t) \<or> card (dom (av_map t)) < unat MAX_CREATED_ANALOG_VALUES"
  shows "av_inv (fst (restore_value addObject (i, v) (t, cs))) \<and> av_map (fst (restore_value addObject (i, v) (t, cs))) = (av_map t)(i \<mapsto> v)"
proof (cases "FindCreatedAnalogValue i t")
  case None
  then obtain k where "FindFreeAnalogValueSlot t = Some k"
    using assms(3) av_dom [OF assms(1), of i] free_slot [OF assms(1)] by auto
  then show ?thesis using None fill_slot [OF assms(1) _ None] assms(2) by (simp add: restore_value_def)
next
  case (Some k)
  then show ?thesis using slot_change(2) [OF assms(1) Some] by (simp add: restore_value_def)
qed

lemma restore_fold:
  assumes "\<forall>i. addObject i" "av_inv t" "card (dom (av_map t) \<union> fst ` set rs) \<le> 8"
  shows "av_inv (fst (fold (restore_value addObject) rs (t, cs))) \<and>
    av_map (fst (fold (restore_value addObject) rs (t, cs))) = av_map t ++ map_of (rev rs)"
  using assms(2,3)
proof (induction rs arbitrary: t cs)
  case (Cons q rs)
  obtain i v where q: "q = (i, v)" by (cases q)
  obtain t' cs' where f: "restore_value addObject (i, v) (t, cs) = (t', cs')" by fastforce
  have fin: "finite (dom (av_map t))" using av_map_entries [OF Cons.prems(1)] by (simp add: finite_dom_map_of)
  have "i \<in> dom (av_map t) \<or> card (dom (av_map t)) < 8"
  proof (rule disjCI)
    assume "\<not> card (dom (av_map t)) < 8"
    then have "dom (av_map t) = dom (av_map t) \<union> fst ` set (q # rs)"
      using Cons.prems(2) fin by (intro card_seteq) auto
    then show "i \<in> dom (av_map t)" by (auto simp: q)
  qed
  then have t': "av_inv t'" "av_map t' = (av_map t)(i \<mapsto> v)"
    using restore_value_map [of t addObject i v cs] Cons.prems(1) assms(1) f by simp_all
  have "dom (av_map t') \<union> fst ` set rs = dom (av_map t) \<union> fst ` set (q # rs)" by (auto simp: t' q)
  then have "av_inv (fst (fold (restore_value addObject) rs (t', cs'))) \<and>
      av_map (fst (fold (restore_value addObject) rs (t', cs'))) = av_map t' ++ map_of (rev rs)"
    using Cons.IH [OF t'(1)] Cons.prems(2) by simp
  then show ?case using f q t' by simp
qed simp

lemma apply_restored:
  assumes "\<forall>i. addObject i" "av_inv t" "restore_inv r"
  shows "av_inv (fst (ApplyRestoredConfiguration addObject r t))"
    "av_map (fst (ApplyRestoredConfiguration addObject r t)) = map_of (rev (restored r))"
proof -
  let ?I = "fst ` set (restored r)"
  have len: "length t = 8" "length (restored r) \<le> 8" using assms(2,3) by (auto simp: av_inv_def restored_def restore_inv_def)
  obtain t1 cs1 where d: "fold (delete_unlisted r) [0..<8] (t, []) = (t1, cs1)" by fastforce
  have t1: "t1 = map (unlist r) t" using delete_fold [OF assms(3), of 8 t "[]"] d len by simp
  note u = unlist_table [OF assms(2), of r, folded t1]
  have "map (\<lambda>k. g_restoredAnalogValues r ! k) [0..<g_restoredAnalogValueCount r] = restored r"
    using assms(3) by (simp add: restored_def restore_inv_def take_map [symmetric] map_nth nth_take_lemma list_eq_iff_nth_eq)
  then have f: "fold (\<lambda>k. restore_value addObject (g_restoredAnalogValues r ! k)) [0..<g_restoredAnalogValueCount r] =
      fold (restore_value addObject) (restored r)"
    using fold_map [of "restore_value addObject" "nth (g_restoredAnalogValues r)" "[0..<g_restoredAnalogValueCount r]"]
    by (simp add: comp_def)
  have "dom (av_map t1) \<union> ?I = ?I" by (auto simp: u)
  moreover have "card ?I \<le> 8" using card_image_le [of "set (restored r)" fst] card_length [of "restored r"] len by simp
  ultimately have r: "av_inv (fst (fold (restore_value addObject) (restored r) (t1, cs1))) \<and>
      av_map (fst (fold (restore_value addObject) (restored r) (t1, cs1))) = av_map t1 ++ map_of (rev (restored r))"
    using restore_fold [OF assms(1) u(1), of "restored r" cs1] by simp
  have "dom (av_map t1) \<subseteq> dom (map_of (rev (restored r)))" by (auto simp: u dom_map_of_conv_image_fst)
  then have "av_map t1 ++ map_of (rev (restored r)) = map_of (rev (restored r))"
    by (intro ext) (auto simp: map_add_def dom_def split: option.splits)
  with r show "av_inv (fst (ApplyRestoredConfiguration addObject r t))"
    "av_map (fst (ApplyRestoredConfiguration addObject r t)) = map_of (rev (restored r))"
    by (simp_all add: ApplyRestoredConfiguration_def f d)
qed

section \<open>The table and the stack's objects\<close>

text \<open>The Analog Values the stack has after the calls.\<close>

fun stack_objects :: "(u32 \<Rightarrow> bool) \<Rightarrow> stack_call list \<Rightarrow> u32 set \<Rightarrow> u32 set" where
  "stack_objects addObject [] S = S"
| "stack_objects addObject (RemoveObject i # cs) S = stack_objects addObject cs (S - {i})"
| "stack_objects addObject (AddObject i # cs) S = stack_objects addObject cs (if addObject i then insert i S else S)"
| "stack_objects addObject (UpdateValue i # cs) S = stack_objects addObject cs S"

lemma stack_objects_append: "stack_objects add (cs @ ds) S = stack_objects add ds (stack_objects add cs S)"
  by (induction add cs S rule: stack_objects.induct) auto

definition synced :: "(u32 \<Rightarrow> bool) \<Rightarrow> u32 set \<Rightarrow> av_table \<times> stack_call list \<Rightarrow> bool" where
  "synced addObject S s \<longleftrightarrow> av_inv (fst s) \<and> stack_objects addObject (snd s) S = dom (av_map (fst s))"

lemma slot_found:
  assumes inv: "av_inv t" and k: "k < 8" "inUse (t ! k)"
  shows "FindCreatedAnalogValue (av_instance (t ! k)) t = Some k"
proof -
  have len: "length t = 8" using inv by (simp add: av_inv_def)
  have no: "\<not> (inUse (t ! j) \<and> av_instance (t ! j) = av_instance (t ! k))" if j: "j < k" for j
  proof
    assume u: "inUse (t ! j) \<and> av_instance (t ! j) = av_instance (t ! k)"
    have "t ! k \<in> set (drop (Suc j) t)"
      using j k len by (auto simp: in_set_conv_nth intro!: exI [of _ "k - Suc j"])
    then have "av_instance (t ! k) \<in> set (map fst (entries (drop (Suc j) t)))" using k(2) by (auto simp: entries_def)
    then show False using inv entries_at [of j t] u j k len by (auto simp: av_inv_def entries_Cons entries_def [of "[]"])
  qed
  show ?thesis unfolding FindCreatedAnalogValue_def find_Some_iff using no k by (intro exI [of _ k]) auto
qed

lemma delete_synced:
  assumes "synced add S s" "k < 8"
  shows "synced add S (delete_unlisted r k s)"
proof -
  obtain t cs where s: "s = (t, cs)" by (cases s)
  have inv: "av_inv t" "stack_objects add cs S = dom (av_map t)" using assms(1) by (auto simp: synced_def s)
  show ?thesis
    using inv slot_change(1) [OF inv(1) slot_found [OF inv(1) assms(2)]]
    by (auto simp: synced_def delete_unlisted_def s Let_def stack_objects_append)
qed

lemma restore_synced:
  assumes "synced add S s"
  shows "synced add S (restore_value add q s)"
proof -
  obtain t cs i v where s: "s = (t, cs)" "q = (i, v)" by (cases s, cases q) auto
  have inv: "av_inv t" "stack_objects add cs S = dom (av_map t)" using assms by (auto simp: synced_def s)
  show ?thesis
    using inv fill_slot [OF inv(1), of _ i v] slot_change(2) [OF inv(1), of i _ v] av_dom [OF inv(1), of i]
    by (auto simp: synced_def restore_value_def s stack_objects_append split: option.splits)
qed

lemma apply_synced:
  assumes "av_inv t"
  shows "synced add (dom (av_map t)) (ApplyRestoredConfiguration add r t)"
proof -
  have "synced add (dom (av_map t)) (fold (delete_unlisted r) ks (t, []))" if "\<forall>k \<in> set ks. k < 8" for ks
    using that by (induction ks rule: rev_induct) (auto simp: assms delete_synced, simp add: synced_def assms)
  then have d: "synced add (dom (av_map t)) (fold (delete_unlisted r) [0..<8] (t, []))" by simp
  have "synced add S s \<Longrightarrow> synced add S (fold (\<lambda>k. restore_value add (g_restoredAnalogValues r ! k)) ks s)" for S s ks
    by (induction ks arbitrary: s) (auto simp: restore_synced)
  with d show ?thesis by (simp add: ApplyRestoredConfiguration_def)
qed

section \<open>Backup followed by restore\<close>

lemma parse_image:
  assumes "file_content f = image_of t" "length t = 8" "restore_inv r"
    and "\<forall>av \<in> set t. inUse av \<longrightarrow> unat (av_instance av) \<le> 4194302"
  obtains r' where "ParseConfigurationImage f r = (True, r')" "restore_inv r'"
    "restored r' = map (\<lambda>(i, v). (i, through_image v)) (entries t)"
proof -
  let ?avs = "filter inUse t"
  have n: "0 + length ?avs \<le> 8" using length_filter_le [of inUse t] assms(2) by simp
  obtain res where res: "parse_lines (concat (map image_line ?avs)) (g_restoredAnalogValues r) 0 = (True, res, length ?avs)"
    "length res = 8" "take (length ?avs) res = map (\<lambda>av. (av_instance av, through_image (presentValue av))) ?avs"
    using parse_lines_image [of ?avs 0 "g_restoredAnalogValues r"] n assms(3,4) by (auto simp: restore_inv_def)
  define r' where "r' = r\<lparr>g_restoredAnalogValues := res, g_restoredAnalogValueCount := length ?avs\<rparr>"
  have "ParseConfigurationImage f r = (True, r')"
    using res(1) by (simp add: ParseConfigurationImage_def assms(1) image_of_def r'_def)
  moreover have "restore_inv r'" using n res(2) by (simp add: restore_inv_def r'_def)
  moreover have "restored r' = map (\<lambda>(i, v). (i, through_image v)) (entries t)"
    using res(3) by (simp add: restored_def entries_def comp_def r'_def)
  ultimately show thesis by (rule that)
qed

lemma map_of_rev_distinct: "distinct (map fst xs) \<Longrightarrow> map_of (rev xs) = map_of xs"
  by (rule map_of_inject_set [THEN iffD2]) (simp_all add: rev_map [symmetric])

lemma map_of_through: "map_of (map (\<lambda>(i, v). (i, f v)) xs) = map_option f \<circ> map_of xs"
  by (induction xs) (auto simp: fun_eq_iff)

text \<open>
  A management station's side of the two procedures: fetch the image after a PrepareBackup; send
  an image in pieces between a PrepareRestore and a CompleteRestore, after which the main loop
  applies it.
\<close>

definition backup_client :: "nat \<Rightarrow> (int \<Rightarrow> tm option) \<Rightarrow> int \<Rightarrow> int \<Rightarrow> u32 \<Rightarrow> u32 \<Rightarrow> u32 \<Rightarrow> av_table \<Rightarrow> ivory \<Rightarrow> string option" where
  "backup_client fuel lt now off dev cnt maxLen t f =
     (case PrepareBackup lt now off dev dev t f of None \<Rightarrow> None | Some f' \<Rightarrow> fetch_file fuel dev f' cnt maxLen 0)"

definition restore_client ::
  "(int \<Rightarrow> tm option) \<Rightarrow> int \<Rightarrow> int \<Rightarrow> u32 \<Rightarrow> (u32 \<Rightarrow> bool) \<Rightarrow> string list \<Rightarrow> av_table \<Rightarrow> ivory \<Rightarrow> restore \<Rightarrow> av_table option" where
  "restore_client lt now off dev addObject pieces t f r =
     (case PrepareRestore dev dev f of
        None \<Rightarrow> None
      | Some f1 \<Rightarrow>
          (case send_file lt now off dev 0 pieces f1 of
             None \<Rightarrow> None
           | Some f2 \<Rightarrow>
               (case CompleteRestore dev dev False f2 r of
                  (False, r') \<Rightarrow> None
                | (True, r') \<Rightarrow> Some (fst (ApplyRestoredConfiguration addObject r' t)))))"

definition savable :: "av_table \<Rightarrow> bool" where
  "savable t \<longleftrightarrow> av_inv t \<and> list_all (\<lambda>av. is_f32 (presentValue av) \<and> (inUse av \<longrightarrow> unat (av_instance av) \<le> 4194302)) t"

lemma savable_image: "savable t \<Longrightarrow> length (image_of t) \<le> 318" "savable t \<Longrightarrow> length t = 8"
  by (auto simp: savable_def list_all_iff av_inv_def intro: image_length)

lemma backup_client_image:
  assumes "savable t" "ivory_inv f" "0 < cnt" "0 < maxLen" "318 < fuel"
  shows "backup_client fuel lt now off dev cnt maxLen t f = Some (image_of t)"
proof -
  note s = savable_image [OF assms(1)]
  have "length (image_of t) < 4096" using s by simp
  note b = build_content [OF assms(2) s(2) this, of lt now off]
  have "fetch_file fuel dev (BuildConfigurationImage lt now off t f) cnt maxLen 0 = Some (drop 0 (image_of t))"
    using fetch_file_drop [OF b(2) assms(3,4), of 0 fuel dev] b(1) s(1) assms(5) by simp
  then show ?thesis by (simp add: backup_client_def PrepareBackup_def)
qed

lemma complete_image:
  assumes "savable t" "file_content f = image_of t" "restore_inv r"
  shows "\<exists>r'. CompleteRestore dev dev False f r = (True, r') \<and> g_restorePending r' \<and> restore_inv r' \<and>
    map_of (rev (restored r')) = map_option through_image \<circ> av_map t"
proof -
  have inv: "av_inv t" using assms(1) by (simp add: savable_def)
  have "\<forall>av \<in> set t. inUse av \<longrightarrow> unat (av_instance av) \<le> 4194302" using assms(1) by (auto simp: savable_def list_all_iff)
  then obtain r' where r': "ParseConfigurationImage f r = (True, r')" "restore_inv r'"
    "restored r' = map (\<lambda>(i, v). (i, through_image v)) (entries t)"
    using parse_image [OF assms(2) savable_image(2) [OF assms(1)] assms(3)] by blast
  have "distinct (map fst (restored r'))" using inv by (simp add: r'(3) av_inv_def comp_def case_prod_beta)
  then have "map_of (rev (restored r')) = map_option through_image \<circ> av_map t"
    by (simp add: map_of_rev_distinct) (simp add: r'(3) map_of_through av_map_entries [OF inv])
  moreover have "restore_inv (r'\<lparr>g_restorePending := True\<rparr>)" "restored (r'\<lparr>g_restorePending := True\<rparr>) = restored r'"
    using r'(2) by (simp_all add: restore_inv_def restored_def)
  ultimately show ?thesis using r'(1) by (simp add: CompleteRestore_def)
qed

lemma restore_client_image:
  assumes "savable t" "concat pieces = image_of t" "ivory_inv f" "restore_inv r" "av_inv t2" "\<forall>i. addObject i"
  obtains t3 where "restore_client lt now off dev addObject pieces t2 f r = Some t3" "av_inv t3"
    "av_map t3 = map_option through_image \<circ> av_map t"
proof -
  note s = savable_image [OF assms(1)]
  let ?f1 = "f\<lparr>g_fileDataLength := 0\<rparr>"
  have f1: "ivory_inv ?f1" "file_content ?f1 = []" using assms(3) by (simp_all add: ivory_inv_def file_content_def)
  obtain f2 where f2: "send_file lt now off dev 0 pieces ?f1 = Some f2" "file_content f2 = image_of t"
    using send_file_content [OF f1(1), of 0 pieces lt now off dev] f1(2) assms(2) s(1) by auto
  obtain r2 where r2: "CompleteRestore dev dev False f2 r = (True, r2)" "restore_inv r2"
      "map_of (rev (restored r2)) = map_option through_image \<circ> av_map t"
    using complete_image [OF assms(1) f2(2) assms(4)] by blast
  then have "restore_client lt now off dev addObject pieces t2 f r = Some (fst (ApplyRestoredConfiguration addObject r2 t2))"
    by (simp add: restore_client_def PrepareRestore_def f2(1))
  then show thesis using that apply_restored [OF assms(6,5) r2(2)] r2(3) by metis
qed

text \<open>Values with at most six significant decimal digits pass through the image unchanged.\<close>

lemma through_image_exact:
  assumes "is_f32 (FNum s m e)" "10 ^ 5 \<le> D" "D < 10 ^ 6" "real m * 2 powi e = real D * 10 powi (x - 5)"
  shows "through_image (FNum s m e) = FNum s m e"
  using reread_g6_exact [OF binary32_in_binary64 [OF assms(1)] assms(2-4)] f32_of_f64_id [OF assms(1)]
  by (simp add: through_image_def f64_of_f32_def)

lemma through_image_special: "through_image (FNaN s) = FNaN s" "through_image (FInf s) = FInf s" "through_image (FNum s 0 0) = FNum s 0 0"
  using f32_of_f64_id [of "FNum s 0 0"] by (simp_all add: through_image_def f64_of_f32_def)

lemma bitlen_in: "n < 2 ^ k \<Longrightarrow> bitlen n \<le> k"
  by (simp add: bitlen_less_pow)

lemma through_image_rounds: "through_image (FNum False 16777215 0) = FNum False 1048575 4"
proof -
  have sh: "length (show_nat 16777215) = 8" using length_show_nat_eq [of 7 16777215] by simp
  have "sig6 16777215 1 = (167772, 7)"
    by (simp add: sig6_def dec_exp_def sh scaled_def rne_def Let_def)
  moreover have f: "in_format binary32 (FNum False 1048575 4)"
    using bitlen_in [of 1048575 20] by (simp add: binary32_def)
  have "round_pow False 167772 10 2 = FNum False 1048575 4"
    using fp_round_exact [OF binary32_in_binary64 [OF f], of 1 16777200] by (simp add: round_pow_def)
  ultimately have "reread_g6 (FNum False 16777215 0) = FNum False 1048575 4"
    by (simp add: scaled_def)
  then show ?thesis using f32_of_f64_id [OF f] by (simp add: through_image_def f64_of_f32_def)
qed

lemma through_image_42_5: "through_image (FNum False 85 (- 1)) = FNum False 85 (- 1)"
  using bitlen_in [of 85 7]
  by (intro through_image_exact [of _ _ _ 425000 1]) (simp_all add: binary32_def power_int_minus field_simps)

section \<open>Properties\<close>

text \<open>The examples of the witnesses: Analog Value 100 with the value 42.5, and with 16777215.\<close>

definition one_av :: "fp \<Rightarrow> av_table" where
  "one_av v = \<lparr>inUse = True, av_instance = 100, presentValue = v\<rparr> # replicate 7 \<lparr>inUse = False, av_instance = 0, presentValue = float_zero\<rparr>"

lemma one_av_savable: "is_f32 v \<Longrightarrow> savable (one_av v)" "av_map (one_av v) = [100 \<mapsto> v]"
proof -
  have e: "entries (one_av v) = [(100, v)]" by (simp add: entries_def one_av_def)
  then have inv: "av_inv (one_av v)" by (simp add: av_inv_def one_av_def)
  show "av_map (one_av v) = [100 \<mapsto> v]" by (simp add: av_map_entries [OF inv] e)
  assume "is_f32 v"
  then show "savable (one_av v)" using inv by (simp add: savable_def list_all_iff) (simp add: one_av_def float_zero_def)
qed

lemma f32_examples: "is_f32 (FNum False 85 (- 1))" "is_f32 (FNum False 16777215 0)"
  using bitlen_in [of 85 7] bitlen_in [of 16777215 24] by (simp_all add: binary32_def)

lemma ivory_inv_init: "ivory_inv ivory_init" by (simp add: ivory_inv_def ivory_init_def)

lemma restore_inv_init: "restore_inv restore_init" by (simp add: restore_inv_def restore_init_def)

text \<open>
  C3. Backup and restore: whatever set of Analog Values a client has created, a backup client
  that reads File 1 in pieces of any size receives the complete image, and sending that image
  back, cut into pieces in any way, to a device in any state succeeds and leaves exactly the
  saved instances (objects created since are removed, deleted ones recreated), each with its saved
  value as it reads after six significant digits.
\<close>

theorem backup_restore_round_trip:
  assumes "savable t" "ivory_inv f" "0 < cnt" "0 < maxLen" "318 < fuel"
    and "ivory_inv f2" "restore_inv r" "av_inv t2" "\<forall>i. addObject i" "concat pieces = image_of t"
  shows "backup_client fuel lt now off dev cnt maxLen t f = Some (concat pieces) \<and>
    (\<exists>t3. restore_client lt' now' off' dev addObject pieces t2 f2 r = Some t3 \<and> av_inv t3 \<and>
       av_map t3 = map_option through_image \<circ> av_map t)"
  using backup_client_image [OF assms(1-5)] restore_client_image [OF assms(1,10,6,7,8,9)] assms(10) by metis

theorem backup_restore_round_trip_witness:
  "\<exists>t3. restore_client utc_localtime 0 0 7 (\<lambda>i. True) [take 9 (image_of (one_av (FNum False 85 (- 1)))), drop 9 (image_of (one_av (FNum False 85 (- 1))))]
     g_createdAnalogValues_init ivory_init restore_init = Some t3 \<and> av_map t3 = [100 \<mapsto> FNum False 85 (- 1)]"
proof -
  let ?t = "one_av (FNum False 85 (- 1))"
  have "concat [take 9 (image_of ?t), drop 9 (image_of ?t)] = image_of ?t" by simp
  from backup_restore_round_trip [OF one_av_savable(1) [OF f32_examples(1)] ivory_inv_init _ _ _ ivory_inv_init
      restore_inv_init av_inv_init(1) _ this, where cnt = 1 and maxLen = 1476 and fuel = 319 and addObject = "\<lambda>i. True" and lt' = utc_localtime
      and now' = 0 and off' = 0 and dev = 7 and lt = utc_localtime and now = 0 and off = 0]
  obtain t3 where "restore_client utc_localtime 0 0 7 (\<lambda>i. True) [take 9 (image_of ?t), drop 9 (image_of ?t)]
      g_createdAnalogValues_init ivory_init restore_init = Some t3" "av_map t3 = map_option through_image \<circ> av_map ?t"
    by auto
  then show ?thesis by (auto simp: one_av_savable(2) through_image_42_5 fun_eq_iff)
qed

text \<open>
  A saved value comes back unchanged if it has at most six significant decimal digits, is
  zero, or is not a finite number.
\<close>

lemma six_digit_values_survive:
  assumes "is_f32 v" "\<forall>s m e. v = FNum s m e \<longrightarrow> m = 0 \<or> (\<exists>D x. 10 ^ 5 \<le> D \<and> D < 10 ^ 6 \<and> real m * 2 powi e = real D * 10 powi (x - 5))"
  shows "through_image v = v"
proof (cases v)
  case (FNum s m e)
  then show ?thesis using assms through_image_exact [of s m e] through_image_special(3) by (cases "m = 0") auto
qed (simp_all add: through_image_special)

lemma six_digit_values_survive_example: "through_image (FNum False 85 (- 1)) = FNum False 85 (- 1)"
proof -
  have "real 85 * 2 powi (- 1) = real 425000 * 10 powi (1 - 5)" by (simp add: power_int_minus field_simps)
  moreover have "10 ^ 5 \<le> (425000 :: nat)" "(425000 :: nat) < 10 ^ 6" by simp_all
  ultimately have "\<exists>D x. 10 ^ 5 \<le> D \<and> D < 10 ^ 6 \<and> real 85 * 2 powi (- 1) = real D * 10 powi (x - 5)" by blast
  then have "\<forall>s m e. FNum False 85 (- 1) = FNum s m e \<longrightarrow>
      m = 0 \<or> (\<exists>D x. 10 ^ 5 \<le> D \<and> D < 10 ^ 6 \<and> real m * 2 powi e = real D * 10 powi (x - 5))" by blast
  from six_digit_values_survive [OF f32_examples(1) this] show ?thesis .
qed

text \<open>
  The restore is not exact in general. The image prints a value with \<open>%.6g\<close>, fewer
  digits than a \<open>float\<close> can carry: an Analog Value holding 16777215 is restored as 16777200.
\<close>

lemma restore_loses_digits:
  "backup_client 319 utc_localtime 0 0 7 100 1476 (one_av (FNum False 16777215 0)) ivory_init =
     Some (image_of (one_av (FNum False 16777215 0))) \<and>
   (\<exists>t3. restore_client utc_localtime 0 0 7 (\<lambda>i. True) [image_of (one_av (FNum False 16777215 0))]
       (one_av (FNum False 16777215 0)) ivory_init restore_init = Some t3 \<and>
     ReadAnalogValue 100 t3 = Some (f64_of_u32 16777200) \<and> f64_of_u32 16777200 \<noteq> FNum False 16777215 0)"
proof -
  let ?t = "one_av (FNum False 16777215 0)"
  have s: "savable ?t" by (rule one_av_savable(1) [OF f32_examples(2)])
  have v: "f64_of_u32 16777200 = FNum False 1048575 4"
    by (simp add: f64_of_u32_def fp_make_def odd_norm.simps)
  have "av_inv ?t" using s by (simp add: savable_def)
  then obtain t3 where "restore_client utc_localtime 0 0 7 (\<lambda>i. True) [image_of ?t] ?t ivory_init restore_init = Some t3"
    "av_map t3 = map_option through_image \<circ> av_map ?t"
    using restore_client_image [OF s _ ivory_inv_init restore_inv_init, of "[image_of ?t]" ?t "\<lambda>i. True" utc_localtime 0 0 7] by auto
  moreover from this(2) have "ReadAnalogValue 100 t3 = Some (FNum False 1048575 4)"
    by (simp add: av_map_def [symmetric] one_av_savable(2) through_image_rounds)
  ultimately show ?thesis using backup_client_image [OF s ivory_inv_init, of 100 1476 319] by (simp add: v)
qed



text \<open>
  C27. The image comes from the network and may be anything: on every content of the file
  \<open>CompleteRestore\<close> returns, never writes outside the staging array, and a restore becomes pending
  only with at most eight values, each a \<open>float\<close> under a valid instance number. Rejecting an image
  (or an aborted restore) changes neither the pending flag nor the number of staged values.
\<close>

theorem restore_of_any_file_is_safe:
  assumes "restore_inv r" "list_all staged_ok (restored r)" "CompleteRestore dev di aborted f r = (ok, r')"
  shows "restore_inv r' \<and> length (restored r') \<le> 8 \<and>
    (ok \<and> di = dev \<and> \<not> aborted \<longrightarrow> g_restorePending r' \<and> list_all staged_ok (restored r')) \<and>
    (\<not> ok \<or> aborted \<longrightarrow> g_restorePending r' = g_restorePending r \<and> g_restoredAnalogValueCount r' = g_restoredAnalogValueCount r)"
proof (cases "di = dev \<and> \<not> aborted \<and> take (length CONFIGURATION_IMAGE_HEADER) (file_content f) = CONFIGURATION_IMAGE_HEADER")
  case True
  obtain b res n where p: "parse_lines (drop (length CONFIGURATION_IMAGE_HEADER) (file_content f)) (g_restoredAnalogValues r) 0 = (b, res, n)"
    by (metis prod_cases3)
  have "length res = 8 \<and> n \<le> 8 \<and> list_all staged_ok (take n res)"
    using parse_lines_any [OF _ _ _ p] assms(1) by (simp add: restore_inv_def)
  with True p assms show ?thesis
    by (cases b) (auto simp: CompleteRestore_def ParseConfigurationImage_def restore_inv_def restored_def Let_def)
qed (use assms in \<open>auto simp: CompleteRestore_def ParseConfigurationImage_def restore_inv_def restored_def Let_def split: if_splits\<close>)

theorem restore_of_any_file_is_safe_witness:
  "restore_inv (snd (CompleteRestore 7 7 False hello_file restore_init)) \<and>
   \<not> g_restorePending (snd (CompleteRestore 7 7 False hello_file restore_init))"
proof -
  have s: "list_all staged_ok (restored restore_init)" by (simp add: restored_def restore_init_def)
  have "fst (CompleteRestore 7 7 False hello_file restore_init) = False"
    by (simp add: CompleteRestore_def ParseConfigurationImage_def hello_file_inv(2) CONFIGURATION_IMAGE_HEADER_def)
  with restore_of_any_file_is_safe [OF restore_inv_init s, of 7 7 False hello_file] show ?thesis
    by (cases "CompleteRestore 7 7 False hello_file restore_init") (simp add: restore_init_def)
qed

end
