(* ===== verification/Lift_Car.thy ===== *)
theory Lift_Car
  imports BACnet_Constants
begin

text \<open>
  The elevator car behind Lift 1 (\<open>main.cpp\<close>, "SIMULATION: the elevator car"): its state
  \<open>g_liftCar\<close> with the fixed array of outstanding landing calls, the opening of the door that
  compacts that array in place, and \<open>LiftCarTick\<close>, which the main loop calls on every pass. A
  \<open>steady_clock::time_point\<close> is an \<open>int\<close> number of nanoseconds. \<open>LiftCarPropertyChanged\<close> tells
  the stack that a property changed: each operation returns the list of properties announced,
  in order. The console output is not modelled.
\<close>

section \<open>State\<close>

datatype LiftCarPhase = Idle | Moving | DoorOpen

record landing_call =
  floorNumber :: u8
  direction :: u32

record lift_car =
  position :: u8
  movingDirection :: u32
  doorStatus :: u32
  phase :: LiftCarPhase
  phaseDeadline :: int
  calls :: "landing_call list"
  callCount :: nat

definition LiftCar_init :: lift_car where
  "LiftCar_init = \<lparr>position = LIFT_START_FLOOR, movingDirection = LIFT_CAR_DIRECTION_STOPPED,
     doorStatus = DOOR_STATUS_CLOSED, phase = Idle, phaseDeadline = 0,
     calls = replicate (unat MAX_LANDING_CALLS) \<lparr>floorNumber = 0, direction = 0\<rparr>, callCount = 0\<rparr>"

definition milliseconds :: "u32 \<Rightarrow> int" where
  "milliseconds ms = uint ms * 1000000"

text \<open>The calls not yet answered, oldest first: the used part of the array.\<close>

definition active_calls :: "lift_car \<Rightarrow> landing_call list" where
  "active_calls car = take (callCount car) (calls car)"

section \<open>Operations\<close>

text \<open>
  The loop of \<open>LiftCarOpenDoor\<close>: from index \<open>i\<close> on, calls for another floor are moved down to
  index \<open>k\<close>.
\<close>

function keep_other_floors :: "u8 \<Rightarrow> nat \<Rightarrow> nat \<Rightarrow> nat \<Rightarrow> landing_call list \<Rightarrow> nat \<times> landing_call list" where
  "keep_other_floors p n i k cs =
     (if i < n then
        (if floorNumber (cs ! i) \<noteq> p then keep_other_floors p n (Suc i) (Suc k) (cs[k := cs ! i])
         else keep_other_floors p n (Suc i) k cs)
      else (k, cs))"
  by pat_completeness auto
termination
  by (relation "measure (\<lambda>(p, n, i, k, cs). n - i)") auto

declare keep_other_floors.simps [simp del]

definition LiftCarOpenDoor :: "int \<Rightarrow> lift_car \<Rightarrow> lift_car \<times> u32 list" where
  "LiftCarOpenDoor now car =
     (let (keptCalls, cs) = keep_other_floors (position car) (callCount car) 0 0 (calls car)
      in (car\<lparr>calls := cs, callCount := keptCalls, movingDirection := LIFT_CAR_DIRECTION_STOPPED,
              doorStatus := DOOR_STATUS_OPENED, phase := DoorOpen,
              phaseDeadline := now + milliseconds LIFT_DOOR_DWELL_MILLISECONDS\<rparr>,
          [PROPERTY_IDENTIFIER_CAR_MOVING_DIRECTION, PROPERTY_IDENTIFIER_CAR_DOOR_STATUS]))"

definition LiftCarHasCallAt :: "lift_car \<Rightarrow> u8 \<Rightarrow> bool" where
  "LiftCarHasCallAt car f \<longleftrightarrow> list_ex (\<lambda>i. floorNumber (calls car ! i) = f) [0..<callCount car]"

definition LiftCarTick :: "int \<Rightarrow> lift_car \<Rightarrow> lift_car \<times> u32 list" where
  "LiftCarTick now car = (case phase car of
     Idle \<Rightarrow>
       if callCount car = 0 then (car, [])
       else if LiftCarHasCallAt car (position car) then LiftCarOpenDoor now car
       else (car\<lparr>movingDirection := (if position car < floorNumber (calls car ! 0)
                                     then LIFT_CAR_DIRECTION_UP else LIFT_CAR_DIRECTION_DOWN),
                 phase := Moving,
                 phaseDeadline := now + milliseconds LIFT_MILLISECONDS_PER_FLOOR\<rparr>,
             [PROPERTY_IDENTIFIER_CAR_MOVING_DIRECTION])
   | Moving \<Rightarrow>
       if now < phaseDeadline car then (car, [])
       else (let car' = car\<lparr>position := (if movingDirection car = LIFT_CAR_DIRECTION_UP
                                         then position car + 1 else position car - 1)\<rparr>
             in if LiftCarHasCallAt car' (position car')
                then (let (car'', ps) = LiftCarOpenDoor now car'
                      in (car'', PROPERTY_IDENTIFIER_CAR_POSITION # ps))
                else (car'\<lparr>phaseDeadline := phaseDeadline car' + milliseconds LIFT_MILLISECONDS_PER_FLOOR\<rparr>,
                      [PROPERTY_IDENTIFIER_CAR_POSITION]))
   | DoorOpen \<Rightarrow>
       if now < phaseDeadline car then (car, [])
       else (car\<lparr>doorStatus := DOOR_STATUS_CLOSED, phase := Idle\<rparr>,
             [PROPERTY_IDENTIFIER_CAR_DOOR_STATUS]))"

section \<open>The compaction loop is a filter\<close>

lemma keep_other_floors_filter:
  assumes "keep_other_floors p n i k cs = (k', cs')" "k \<le> i" "i \<le> n" "n \<le> length cs"
  shows "length cs' = length cs \<and> k' \<le> n \<and>
    take k' cs' = take k cs @ filter (\<lambda>c. floorNumber c \<noteq> p) (take (n - i) (drop i cs))"
  using assms
proof (induction p n i k cs arbitrary: k' cs' rule: keep_other_floors.induct)
  case (1 p n i k cs)
  show ?case
  proof (cases "i < n")
    case False
    with "1.prems" show ?thesis by (simp add: keep_other_floors.simps [of p n i])
  next
    case True
    then have i: "i < length cs" "k < length cs" using "1.prems" by auto
    have split: "take (n - i) (drop i cs) = cs ! i # take (n - Suc i) (drop (Suc i) cs)"
      using True i by (metis Cons_nth_drop_Suc Suc_diff_Suc take_Suc_Cons)
    show ?thesis
    proof (cases "floorNumber (cs ! i) = p")
      case True
      with \<open>i < n\<close> "1.prems" have "keep_other_floors p n (Suc i) k cs = (k', cs')"
        by (simp add: keep_other_floors.simps [of p n i])
      with "1.IH"(2) [OF \<open>i < n\<close>] True "1.prems" \<open>i < n\<close> show ?thesis by (simp add: split)
    next
      case False
      with \<open>i < n\<close> "1.prems" have "keep_other_floors p n (Suc i) (Suc k) (cs[k := cs ! i]) = (k', cs')"
        by (simp add: keep_other_floors.simps [of p n i])
      from "1.IH"(1) [OF \<open>i < n\<close> False this] have IH: "length cs' = length cs \<and> k' \<le> n \<and>
          take k' cs' = take (Suc k) (cs[k := cs ! i]) @
            filter (\<lambda>c. floorNumber c \<noteq> p) (take (n - Suc i) (drop (Suc i) (cs[k := cs ! i])))"
        using "1.prems" \<open>i < n\<close> by simp
      have "drop (Suc i) (cs[k := cs ! i]) = drop (Suc i) cs" using "1.prems" by simp
      with IH False show ?thesis by (simp add: split list_update_take_last i(2))
    qed
  qed
qed

lemma LiftCarHasCallAt_iff:
  assumes "callCount car \<le> length (calls car)"
  shows "LiftCarHasCallAt car f \<longleftrightarrow> (\<exists>c \<in> set (active_calls car). floorNumber c = f)"
  unfolding LiftCarHasCallAt_def active_calls_def nth_image [OF assms, symmetric] by (simp add: list_ex_iff)

text \<open>\<open>LiftCarOpenDoor\<close> on the abstract list: the calls of this floor leave it, the others keep their order.\<close>

lemma LiftCarOpenDoor_spec:
  assumes "callCount car \<le> length (calls car)" "LiftCarOpenDoor now car = (car', ps)"
  shows "active_calls car' = filter (\<lambda>c. floorNumber c \<noteq> position car) (active_calls car)"
    "length (calls car') = length (calls car)" "callCount car' \<le> callCount car"
    "position car' = position car" "phase car' = DoorOpen"
    "movingDirection car' = LIFT_CAR_DIRECTION_STOPPED" "doorStatus car' = DOOR_STATUS_OPENED"
    "phaseDeadline car' = now + milliseconds LIFT_DOOR_DWELL_MILLISECONDS"
    "ps = [PROPERTY_IDENTIFIER_CAR_MOVING_DIRECTION, PROPERTY_IDENTIFIER_CAR_DOOR_STATUS]"
proof -
  obtain k cs where k: "keep_other_floors (position car) (callCount car) 0 0 (calls car) = (k, cs)" by fastforce
  note keep_other_floors_filter [OF k le_refl _ assms(1)]
  moreover have "car' = car\<lparr>calls := cs, callCount := k, movingDirection := LIFT_CAR_DIRECTION_STOPPED,
      doorStatus := DOOR_STATUS_OPENED, phase := DoorOpen,
      phaseDeadline := now + milliseconds LIFT_DOOR_DWELL_MILLISECONDS\<rparr>"
    and "ps = [PROPERTY_IDENTIFIER_CAR_MOVING_DIRECTION, PROPERTY_IDENTIFIER_CAR_DOOR_STATUS]"
    using assms(2) k by (simp_all add: LiftCarOpenDoor_def)
  ultimately show "active_calls car' = filter (\<lambda>c. floorNumber c \<noteq> position car) (active_calls car)"
    "length (calls car') = length (calls car)" "callCount car' \<le> callCount car"
    "position car' = position car" "phase car' = DoorOpen"
    "movingDirection car' = LIFT_CAR_DIRECTION_STOPPED" "doorStatus car' = DOOR_STATUS_OPENED"
    "phaseDeadline car' = now + milliseconds LIFT_DOOR_DWELL_MILLISECONDS"
    "ps = [PROPERTY_IDENTIFIER_CAR_MOVING_DIRECTION, PROPERTY_IDENTIFIER_CAR_DOOR_STATUS]"
    by (simp_all add: active_calls_def)
qed

section \<open>The invariant\<close>

definition floor_served :: "u8 \<Rightarrow> bool" where
  "floor_served f \<longleftrightarrow> LIFT_LOWEST_FLOOR \<le> f \<and> f \<le> LIFT_HIGHEST_FLOOR"

definition call_ok :: "landing_call \<Rightarrow> bool" where
  "call_ok c \<longleftrightarrow> floor_served (floorNumber c) \<and>
     direction c \<in> {LIFT_CAR_DIRECTION_UP, LIFT_CAR_DIRECTION_DOWN}"

definition phase_ok :: "lift_car \<Rightarrow> bool" where
  "phase_ok car \<longleftrightarrow> (case phase car of
     Idle \<Rightarrow> movingDirection car = LIFT_CAR_DIRECTION_STOPPED \<and> doorStatus car = DOOR_STATUS_CLOSED
   | DoorOpen \<Rightarrow> movingDirection car = LIFT_CAR_DIRECTION_STOPPED \<and> doorStatus car = DOOR_STATUS_OPENED
   | Moving \<Rightarrow> doorStatus car = DOOR_STATUS_CLOSED \<and>
       (movingDirection car = LIFT_CAR_DIRECTION_UP \<and> (\<exists>c \<in> set (active_calls car). position car < floorNumber c) \<or>
        movingDirection car = LIFT_CAR_DIRECTION_DOWN \<and> (\<exists>c \<in> set (active_calls car). floorNumber c < position car)))"

definition car_inv :: "lift_car \<Rightarrow> bool" where
  "car_inv car \<longleftrightarrow> length (calls car) = unat MAX_LANDING_CALLS \<and> callCount car \<le> unat MAX_LANDING_CALLS \<and>
     list_all call_ok (active_calls car) \<and> distinct (active_calls car) \<and>
     floor_served (position car) \<and> phase_ok car"

lemma car_invD:
  assumes "car_inv car"
  shows "length (calls car) = 8" "callCount car \<le> 8" "\<And>c. c \<in> set (active_calls car) \<Longrightarrow> call_ok c"
    "distinct (active_calls car)" "floor_served (position car)" "phase_ok car"
    "callCount car \<le> length (calls car)"
  using assms by (auto simp: car_inv_def list_all_iff)

lemma car_inv_init: "car_inv LiftCar_init"
  by (simp add: car_inv_def LiftCar_init_def active_calls_def floor_served_def phase_ok_def)

lemma car_inv_open:
  assumes "car_inv car" "LiftCarOpenDoor now car = (car', ps)"
  shows "car_inv car'"
  using car_invD [OF assms(1)] LiftCarOpenDoor_spec [OF car_invD(7) [OF assms(1)] assms(2)]
  by (auto simp: car_inv_def phase_ok_def list_all_iff)

text \<open>One floor up (or down) towards a call that is further up (down) stays among the floors served.\<close>

lemma floor_up: "floor_served p \<Longrightarrow> floor_served f \<Longrightarrow> p < f \<Longrightarrow> floor_served (p + 1) \<and> p + 1 \<le> f \<and> unat (p + 1) = Suc (unat p)"
  unfolding floor_served_def by simp unat_arith

lemma floor_down: "floor_served p \<Longrightarrow> floor_served f \<Longrightarrow> f < p \<Longrightarrow> floor_served (p - 1) \<and> f \<le> p - 1 \<and> Suc (unat (p - 1)) = unat p"
  unfolding floor_served_def by simp unat_arith

lemma active_calls_upd [simp]:
  "active_calls (car\<lparr>position := p\<rparr>) = active_calls car"
  "active_calls (car\<lparr>movingDirection := d\<rparr>) = active_calls car"
  "active_calls (car\<lparr>doorStatus := s\<rparr>) = active_calls car"
  "active_calls (car\<lparr>phase := ph\<rparr>) = active_calls car"
  "active_calls (car\<lparr>phaseDeadline := t\<rparr>) = active_calls car"
  by (simp_all add: active_calls_def)

lemma callCount_active: "callCount car \<le> length (calls car) \<Longrightarrow> callCount car = length (active_calls car)"
  by (simp add: active_calls_def)

lemma oldest_call:
  assumes "callCount car \<le> length (calls car)" "callCount car \<noteq> 0"
  shows "calls car ! 0 \<in> set (active_calls car)" "active_calls car \<noteq> []"
  using assms by (auto simp: active_calls_def in_set_conv_nth intro!: exI [of _ 0])

text \<open>
  The car after one floor, before the check for a call there. It keeps everything of the
  invariant but the phase condition.
\<close>

definition one_floor :: "lift_car \<Rightarrow> lift_car" where
  "one_floor car = car\<lparr>position := (if movingDirection car = LIFT_CAR_DIRECTION_UP
                                    then position car + 1 else position car - 1)\<rparr>"

lemma one_floor_cases:
  assumes "car_inv car" "phase car = Moving"
  shows "floor_served (position (one_floor car))"
    "LiftCarHasCallAt (one_floor car) (position (one_floor car)) \<or> phase_ok (one_floor car)"
proof -
  have inv: "floor_served (position car)" "callCount car \<le> length (calls car)" "doorStatus car = DOOR_STATUS_CLOSED"
    using car_invD [OF assms(1)] assms(2) by (auto simp: phase_ok_def)
  have hc: "LiftCarHasCallAt (one_floor car) f \<longleftrightarrow> (\<exists>c \<in> set (active_calls car). floorNumber c = f)" for f
    using LiftCarHasCallAt_iff [of "one_floor car"] inv(2) by (simp add: one_floor_def)
  have served: "c \<in> set (active_calls car) \<Longrightarrow> floor_served (floorNumber c)" for c
    using car_invD(3) [OF assms(1)] by (simp add: call_ok_def)
  consider c where "movingDirection car = LIFT_CAR_DIRECTION_UP" "c \<in> set (active_calls car)" "position car < floorNumber c"
    | c where "movingDirection car = LIFT_CAR_DIRECTION_DOWN" "c \<in> set (active_calls car)" "floorNumber c < position car"
    using car_invD(6) [OF assms(1)] assms(2) by (auto simp: phase_ok_def)
  then have "floor_served (position (one_floor car)) \<and>
    (LiftCarHasCallAt (one_floor car) (position (one_floor car)) \<or> phase_ok (one_floor car))"
  proof cases
    case 1
    note fl = floor_up [OF inv(1) served [OF 1(2)] 1(3)]
    have p: "position (one_floor car) = position car + 1" using 1(1) by (simp add: one_floor_def)
    have "floorNumber c = position car + 1 \<or> position car + 1 < floorNumber c" using fl by auto
    then have "LiftCarHasCallAt (one_floor car) (position car + 1) \<or> phase_ok (one_floor car)"
    proof
      assume "floorNumber c = position car + 1"
      then show ?thesis using 1(2) hc by blast
    qed (use 1 inv(3) assms(2) in \<open>auto simp: one_floor_def phase_ok_def\<close>)
    then show ?thesis using fl by (simp add: p)
  next
    case 2
    note fl = floor_down [OF inv(1) served [OF 2(2)] 2(3)]
    have p: "position (one_floor car) = position car - 1" using 2(1) by (simp add: one_floor_def)
    have "floorNumber c = position car - 1 \<or> floorNumber c < position car - 1" using fl by auto
    then have "LiftCarHasCallAt (one_floor car) (position car - 1) \<or> phase_ok (one_floor car)"
    proof
      assume "floorNumber c = position car - 1"
      then show ?thesis using 2(2) hc by blast
    qed (use 2 inv(3) assms(2) in \<open>auto simp: one_floor_def phase_ok_def\<close>)
    then show ?thesis using fl by (simp add: p)
  qed
  then show "floor_served (position (one_floor car))"
    "LiftCarHasCallAt (one_floor car) (position (one_floor car)) \<or> phase_ok (one_floor car)" by auto
qed

text \<open>The tick by cases, the form the proofs use.\<close>

lemma LiftCarTick_cases:
  obtains (rest) "phase car = Idle" "callCount car = 0" "LiftCarTick now car = (car, [])"
  | (answer) "phase car = Idle" "LiftCarHasCallAt car (position car)" "LiftCarTick now car = LiftCarOpenDoor now car"
  | (depart) "phase car = Idle" "callCount car \<noteq> 0" "\<not> LiftCarHasCallAt car (position car)"
      "LiftCarTick now car = (car\<lparr>movingDirection := (if position car < floorNumber (calls car ! 0)
          then LIFT_CAR_DIRECTION_UP else LIFT_CAR_DIRECTION_DOWN), phase := Moving,
          phaseDeadline := now + milliseconds LIFT_MILLISECONDS_PER_FLOOR\<rparr>, [PROPERTY_IDENTIFIER_CAR_MOVING_DIRECTION])"
  | (wait) "phase car \<noteq> Idle" "now < phaseDeadline car" "LiftCarTick now car = (car, [])"
  | (arrive) car' ps where "phase car = Moving" "phaseDeadline car \<le> now"
      "LiftCarHasCallAt (one_floor car) (position (one_floor car))"
      "LiftCarOpenDoor now (one_floor car) = (car', ps)"
      "LiftCarTick now car = (car', PROPERTY_IDENTIFIER_CAR_POSITION # ps)"
  | (pass) "phase car = Moving" "phaseDeadline car \<le> now"
      "\<not> LiftCarHasCallAt (one_floor car) (position (one_floor car))"
      "LiftCarTick now car = ((one_floor car)\<lparr>phaseDeadline := phaseDeadline car + milliseconds LIFT_MILLISECONDS_PER_FLOOR\<rparr>,
         [PROPERTY_IDENTIFIER_CAR_POSITION])"
  | (close) "phase car = DoorOpen" "phaseDeadline car \<le> now"
      "LiftCarTick now car = (car\<lparr>doorStatus := DOOR_STATUS_CLOSED, phase := Idle\<rparr>, [PROPERTY_IDENTIFIER_CAR_DOOR_STATUS])"
proof (cases "phase car")
  case Idle
  then show thesis
    using rest answer depart
    by (cases "callCount car = 0"; cases "LiftCarHasCallAt car (position car)")
       (simp_all add: LiftCarTick_def LiftCarHasCallAt_def)
next
  case Moving
  obtain car' ps where o: "LiftCarOpenDoor now (one_floor car) = (car', ps)" by fastforce
  have t: "LiftCarTick now car = (if now < phaseDeadline car then (car, [])
      else if LiftCarHasCallAt (one_floor car) (position (one_floor car)) then (car', PROPERTY_IDENTIFIER_CAR_POSITION # ps)
      else ((one_floor car)\<lparr>phaseDeadline := phaseDeadline car + milliseconds LIFT_MILLISECONDS_PER_FLOOR\<rparr>,
         [PROPERTY_IDENTIFIER_CAR_POSITION]))"
    using Moving o by (simp add: LiftCarTick_def one_floor_def Let_def)
  show thesis
    using t Moving wait arrive [OF Moving _ _ o] pass
    by (cases "now < phaseDeadline car"; cases "LiftCarHasCallAt (one_floor car) (position (one_floor car))") simp_all
next
  case DoorOpen
  then show thesis using wait close by (cases "now < phaseDeadline car") (simp_all add: LiftCarTick_def)
qed

lemma car_inv_tick [aec_inv]:
  assumes inv: "car_inv car"
  shows "car_inv (fst (LiftCarTick now car))"
proof (cases rule: LiftCarTick_cases [of car now])
  case answer
  then show ?thesis using car_inv_open [OF inv] by (metis surjective_pairing)
next
  case depart
  note D = car_invD [OF inv]
  have c: "calls car ! 0 \<in> set (active_calls car)" using oldest_call(1) D(7) depart(2) by blast
  have ne: "floorNumber (calls car ! 0) \<noteq> position car"
    using depart(3) c by (auto simp: LiftCarHasCallAt_iff [OF D(7)])
  have "phase_ok (fst (LiftCarTick now car))"
  proof (cases "position car < floorNumber (calls car ! 0)")
    case True
    then show ?thesis using depart c D(6) by (auto simp: phase_ok_def)
  next
    case False
    then have "floorNumber (calls car ! 0) < position car" using ne by simp
    then show ?thesis using False depart c D(6) by (auto simp: phase_ok_def)
  qed
  then show ?thesis using inv depart(4) by (simp add: car_inv_def)
next
  case (arrive car' ps)
  have "car_inv (fst (LiftCarOpenDoor now (one_floor car)))"
    using car_invD [OF inv] one_floor_cases(1) [OF inv arrive(1)]
      LiftCarOpenDoor_spec [of "one_floor car" now car' ps] arrive(4)
    by (auto simp: car_inv_def phase_ok_def list_all_iff one_floor_def)
  then show ?thesis using arrive by simp
next
  case pass
  then show ?thesis
    using inv one_floor_cases [OF inv pass(1)] by (simp add: car_inv_def one_floor_def phase_ok_def)
next
  case close
  then show ?thesis using inv by (simp add: car_inv_def phase_ok_def)
qed (use inv in simp_all)

section \<open>What a tick does to the calls, and what it announces\<close>

lemma one_floor_simps [simp]:
  "active_calls (one_floor car) = active_calls car" "phase (one_floor car) = phase car"
  "calls (one_floor car) = calls car" "callCount (one_floor car) = callCount car"
  "movingDirection (one_floor car) = movingDirection car" "doorStatus (one_floor car) = doorStatus car"
  by (simp_all add: one_floor_def)

lemma tick_calls:
  assumes inv: "car_inv car" and t: "LiftCarTick now car = (car', ps)"
  shows "active_calls car' = active_calls car \<or>
    (active_calls car' = filter (\<lambda>c. floorNumber c \<noteq> position car') (active_calls car) \<and>
     length (active_calls car') < length (active_calls car) \<and>
     phase car' = DoorOpen \<and> movingDirection car' = LIFT_CAR_DIRECTION_STOPPED \<and> doorStatus car' = DOOR_STATUS_OPENED)"
proof -
  note D = car_invD [OF inv]
  have shorter: "length (filter (\<lambda>c. floorNumber c \<noteq> f) xs) < length xs"
    if "\<exists>c \<in> set xs. floorNumber c = f" for f and xs :: "landing_call list"
    using that by (auto intro: length_filter_less)
  show ?thesis
  proof (cases rule: LiftCarTick_cases [of car now])
    case answer
    then show ?thesis
      using t LiftCarOpenDoor_spec [OF D(7), of now car' ps] shorter
      by (simp add: LiftCarHasCallAt_iff [OF D(7)])
  next
    case (arrive car'' qs)
    have h: "callCount (one_floor car) \<le> length (calls (one_floor car))" using D(7) by simp
    have "\<exists>c \<in> set (active_calls car). floorNumber c = position (one_floor car)"
      using arrive(3) LiftCarHasCallAt_iff [OF h] by simp
    then show ?thesis
      using t arrive LiftCarOpenDoor_spec [OF h arrive(4)] shorter by simp
  qed (use t in \<open>simp_all add: active_calls_def one_floor_def\<close>)
qed

lemma tick_announces:
  assumes "LiftCarTick now car = (car', ps)"
  shows "position car' \<noteq> position car \<Longrightarrow> PROPERTY_IDENTIFIER_CAR_POSITION \<in> set ps"
    "movingDirection car' \<noteq> movingDirection car \<Longrightarrow> PROPERTY_IDENTIFIER_CAR_MOVING_DIRECTION \<in> set ps"
    "doorStatus car' \<noteq> doorStatus car \<Longrightarrow> PROPERTY_IDENTIFIER_CAR_DOOR_STATUS \<in> set ps"
  using assms
  by (cases rule: LiftCarTick_cases [of car now];
      auto simp: LiftCarOpenDoor_def one_floor_def split: prod.splits)+

lemma one_floor_position:
  assumes "car_inv car" "phase car = Moving"
  shows "\<bar>int (unat (position (one_floor car))) - int (unat (position car))\<bar> \<le> 1"
proof -
  note D = car_invD [OF assms(1)]
  consider c where "movingDirection car = LIFT_CAR_DIRECTION_UP" "c \<in> set (active_calls car)" "position car < floorNumber c"
    | c where "movingDirection car = LIFT_CAR_DIRECTION_DOWN" "c \<in> set (active_calls car)" "floorNumber c < position car"
    using D(6) assms(2) by (auto simp: phase_ok_def)
  then show ?thesis
  proof cases
    case 1
    then show ?thesis using floor_up [OF D(5) _ 1(3)] D(3) [OF 1(2)] by (simp add: one_floor_def call_ok_def)
  next
    case 2
    then have "Suc (unat (position (one_floor car))) = unat (position car)"
      using floor_down [OF D(5) _ 2(3)] D(3) [OF 2(2)] by (simp add: one_floor_def call_ok_def)
    then have "int (unat (position car)) = int (unat (position (one_floor car))) + 1" by linarith
    then show ?thesis by linarith
  qed
qed

lemma tick_one_floor:
  assumes "car_inv car" "LiftCarTick now car = (car', ps)"
  shows "\<bar>int (unat (position car')) - int (unat (position car))\<bar> \<le> 1"
  using assms(2) one_floor_position [OF assms(1)]
  by (cases rule: LiftCarTick_cases [of car now]) (auto simp: LiftCarOpenDoor_def split: prod.splits)

section \<open>Every call is answered\<close>

definition tick_due :: "int \<Rightarrow> lift_car \<Rightarrow> bool" where
  "tick_due now car \<longleftrightarrow> phase car = Idle \<or> phaseDeadline car \<le> now"

definition travel_left :: "lift_car \<Rightarrow> nat" where
  "travel_left car = (if movingDirection car = LIFT_CAR_DIRECTION_UP
     then unat LIFT_HIGHEST_FLOOR - unat (position car) else unat (position car) - unat LIFT_LOWEST_FLOOR)"

definition lift_work :: "lift_car \<Rightarrow> nat" where
  "lift_work car = 12 * length (active_calls car) +
     (case phase car of DoorOpen \<Rightarrow> 11 | Idle \<Rightarrow> 10 | Moving \<Rightarrow> travel_left car)"

definition at_rest :: "lift_car \<Rightarrow> bool" where
  "at_rest car \<longleftrightarrow> phase car = Idle \<and> active_calls car = []"

lemma not_due_waits: "\<not> tick_due now car \<Longrightarrow> LiftCarTick now car = (car, [])"
  by (cases rule: LiftCarTick_cases [of car now]) (auto simp: tick_due_def)

lemma travel_left_bound: "floor_served (position car) \<Longrightarrow> travel_left car \<le> 9"
  unfolding travel_left_def floor_served_def by simp unat_arith

lemma one_floor_travel:
  assumes "car_inv car" "phase car = Moving"
  shows "travel_left (one_floor car) < travel_left car"
proof -
  note D = car_invD [OF assms(1)]
  have served: "c \<in> set (active_calls car) \<Longrightarrow> floor_served (floorNumber c)" for c
    using D(3) by (simp add: call_ok_def)
  have b: "unat (LIFT_HIGHEST_FLOOR :: u8) = 10" "unat (LIFT_LOWEST_FLOOR :: u8) = 1" by simp_all
  have le: "floor_served p \<Longrightarrow> 1 \<le> unat p \<and> unat p \<le> 10" for p
    unfolding floor_served_def by simp unat_arith
  consider c where "movingDirection car = LIFT_CAR_DIRECTION_UP" "c \<in> set (active_calls car)" "position car < floorNumber c"
    | c where "movingDirection car = LIFT_CAR_DIRECTION_DOWN" "c \<in> set (active_calls car)" "floorNumber c < position car"
    using D(6) assms(2) by (auto simp: phase_ok_def)
  then show ?thesis
  proof cases
    case 1
    with floor_up [OF D(5) served [OF 1(2)] 1(3)] le [of "position car + 1"] show ?thesis
      by (simp add: travel_left_def one_floor_def b)
  next
    case 2
    with floor_down [OF D(5) served [OF 2(2)] 2(3)] le [of "position car - 1"] show ?thesis
      by (auto simp: travel_left_def one_floor_def b)
  qed
qed

lemma due_tick_works:
  assumes inv: "car_inv car" and due: "tick_due now car" and busy: "\<not> at_rest car"
  shows "lift_work (fst (LiftCarTick now car)) < lift_work car"
proof -
  obtain car' ps where t: "LiftCarTick now car = (car', ps)" by fastforce
  note D = car_invD [OF inv]
  from tick_calls [OF inv t] have "lift_work car' < lift_work car"
  proof
    assume shorter: "active_calls car' = filter (\<lambda>c. floorNumber c \<noteq> position car') (active_calls car) \<and>
      length (active_calls car') < length (active_calls car) \<and> phase car' = DoorOpen \<and>
      movingDirection car' = LIFT_CAR_DIRECTION_STOPPED \<and> doorStatus car' = DOOR_STATUS_OPENED"
    then have "Suc (length (active_calls car')) \<le> length (active_calls car)" "phase car' = DoorOpen" by auto
    then show ?thesis by (simp add: lift_work_def)
  next
    assume same: "active_calls car' = active_calls car"
    show ?thesis
    proof (cases rule: LiftCarTick_cases [of car now])
      case rest
      then show ?thesis using busy by (simp add: at_rest_def active_calls_def)
    next
      case answer
      then have "active_calls car' = filter (\<lambda>c. floorNumber c \<noteq> position car) (active_calls car)"
        using t LiftCarOpenDoor_spec(1) [OF D(7), of now car' ps] by simp
      with same have "\<forall>c \<in> set (active_calls car). floorNumber c \<noteq> position car" by (metis (mono_tags, lifting) filter_id_conv)
      then show ?thesis using answer(2) by (simp add: LiftCarHasCallAt_iff [OF D(7)])
    next
      case depart
      then show ?thesis using t travel_left_bound [of car'] D(5) by (auto simp: lift_work_def)
    next
      case wait
      then show ?thesis using due by (simp add: tick_due_def)
    next
      case (arrive car'' qs)
      have h: "callCount (one_floor car) \<le> length (calls (one_floor car))" using D(7) by simp
      have "active_calls car' = filter (\<lambda>c. floorNumber c \<noteq> position (one_floor car)) (active_calls car)"
        using t arrive LiftCarOpenDoor_spec(1) [OF h arrive(4)] by simp
      with same have "\<forall>c \<in> set (active_calls car). floorNumber c \<noteq> position (one_floor car)"
        by (metis (mono_tags, lifting) filter_id_conv)
      then show ?thesis using arrive(3) by (simp add: LiftCarHasCallAt_iff [OF h])
    next
      case pass
      have "travel_left car' = travel_left (one_floor car)" using t pass by (auto simp: travel_left_def)
      then show ?thesis using t pass one_floor_travel [OF inv pass(1)] by (auto simp: lift_work_def)
    next
      case close
      then show ?thesis using t by (auto simp: lift_work_def)
    qed
  qed
  with t show ?thesis by simp
qed

text \<open>Ticks at the times \<open>now 0\<close>, \<open>now 1\<close>, \<dots> with no new call in between.\<close>

fun tick_seq :: "(nat \<Rightarrow> int) \<Rightarrow> nat \<Rightarrow> lift_car \<Rightarrow> lift_car" where
  "tick_seq now 0 car = car"
| "tick_seq now (Suc n) car = fst (LiftCarTick (now n) (tick_seq now n car))"

lemma car_inv_tick_seq: "car_inv car \<Longrightarrow> car_inv (tick_seq now n car)"
  by (induction n) (auto intro: car_inv_tick)

lemma eventually_at_rest:
  assumes "car_inv car" and clock: "\<And>t k. \<exists>n \<ge> k. t \<le> now n"
  shows "\<exists>n. at_rest (tick_seq now n car)"
proof -
  have "\<exists>n. at_rest (tick_seq now n car)" if "lift_work (tick_seq now k car) = w" for w k
    using that
  proof (induction w arbitrary: k rule: less_induct)
    case (less w)
    show ?case
    proof (cases "at_rest (tick_seq now k car)")
      case False
      let ?P = "\<lambda>n. k \<le> n \<and> tick_due (now n) (tick_seq now k car)"
      obtain n where "?P n"
        using clock [where t = "phaseDeadline (tick_seq now k car)" and k = k] by (auto simp: tick_due_def)
      define m where "m = (LEAST n. ?P n)"
      have m: "?P m" using LeastI [of ?P, OF \<open>?P n\<close>] by (simp add: m_def)
      have still: "k \<le> j \<Longrightarrow> j \<le> m \<Longrightarrow> tick_seq now j car = tick_seq now k car" for j
      proof (induction j rule: dec_induct)
        case (step j)
        then have "\<not> ?P j" using not_less_Least [of j ?P] by (simp add: m_def)
        then show ?case using step by (simp add: not_due_waits)
      qed simp
      have "lift_work (tick_seq now (Suc m) car) < w"
        using due_tick_works [OF car_inv_tick_seq [OF assms(1)], of "now m" now k] m False less.prems still [of m]
        by simp
      then show ?thesis using less.IH by blast
    qed blast
  qed
  then show ?thesis by blast
qed

lemma call_answered:
  assumes inv: "car_inv car" and clock: "\<And>t k. \<exists>n \<ge> k. t \<le> now n" and c: "c \<in> set (active_calls car)"
  shows "\<exists>n. position (tick_seq now n car) = floorNumber c \<and> doorStatus (tick_seq now n car) = DOOR_STATUS_OPENED \<and>
    movingDirection (tick_seq now n car) = LIFT_CAR_DIRECTION_STOPPED \<and> c \<notin> set (active_calls (tick_seq now n car))"
proof -
  let ?gone = "\<lambda>n. c \<notin> set (active_calls (tick_seq now n car))"
  obtain n where "at_rest (tick_seq now n car)" using eventually_at_rest [OF inv clock] by blast
  then have "?gone n" by (simp add: at_rest_def)
  define m where "m = (LEAST n. ?gone n)"
  have gone: "?gone m" unfolding m_def by (rule LeastI [of ?gone]) fact
  then obtain k where k: "m = Suc k" using c by (cases m) auto
  then have there: "c \<in> set (active_calls (tick_seq now k car))"
    using not_less_Least [of k ?gone] by (auto simp: m_def)
  obtain ps where "LiftCarTick (now k) (tick_seq now k car) = (tick_seq now m car, ps)"
    by (metis k prod.collapse tick_seq.simps(2))
  from tick_calls [OF car_inv_tick_seq [OF inv] this] there gone show ?thesis by fastforce
qed

text \<open>
  A call at the floor the car stands on goes before older calls: the door opens and closes again there and
  every other call waits. A car that is called to its own floor again in time does not leave it.
\<close>

lemma own_floor_first:
  assumes "car_inv car" "phase car = Idle" "LiftCarHasCallAt car (position car)"
    and "LiftCarTick now car = (car1, ps1)" "phaseDeadline car1 \<le> later" "LiftCarTick later car1 = (car2, ps2)"
  shows "phase car2 = Idle \<and> position car2 = position car \<and>
    active_calls car2 = filter (\<lambda>c. floorNumber c \<noteq> position car) (active_calls car)"
proof -
  have bound: "callCount car \<le> length (calls car)" using assms(1) by (simp add: car_inv_def)
  have "LiftCarOpenDoor now car = (car1, ps1)"
    using assms(2-4) by (auto simp: LiftCarTick_def LiftCarHasCallAt_def split: if_splits)
  with LiftCarOpenDoor_spec [OF bound this] assms(5,6) show ?thesis by (auto simp: LiftCarTick_def)
qed

section \<open>Properties\<close>

text \<open>
  C7. Opening the door answers exactly the calls of the car's floor: the in-place compaction
  keeps the other calls, in their order, in the used part of the array, never writes outside the
  array, and the car stands with its door open until the dwell time is over.
\<close>

theorem open_door_answers_this_floor:
  assumes "callCount car \<le> length (calls car)" "LiftCarOpenDoor now car = (car', ps)"
  shows "active_calls car' = filter (\<lambda>c. floorNumber c \<noteq> position car) (active_calls car) \<and>
    length (calls car') = length (calls car) \<and> callCount car' \<le> callCount car \<and>
    position car' = position car \<and> phase car' = DoorOpen \<and>
    movingDirection car' = LIFT_CAR_DIRECTION_STOPPED \<and> doorStatus car' = DOOR_STATUS_OPENED \<and>
    phaseDeadline car' = now + milliseconds LIFT_DOOR_DWELL_MILLISECONDS"
  using LiftCarOpenDoor_spec [OF assms] by simp

definition three_calls :: lift_car where
  "three_calls = LiftCar_init\<lparr>position := 4, callCount := 3, calls :=
     [\<lparr>floorNumber = 4, direction = LIFT_CAR_DIRECTION_UP\<rparr>, \<lparr>floorNumber = 7, direction = LIFT_CAR_DIRECTION_DOWN\<rparr>,
      \<lparr>floorNumber = 4, direction = LIFT_CAR_DIRECTION_DOWN\<rparr>] @ replicate 5 \<lparr>floorNumber = 0, direction = 0\<rparr>\<rparr>"

lemma three_calls_inv: "car_inv three_calls"
  by (simp add: car_inv_def three_calls_def LiftCar_init_def active_calls_def call_ok_def floor_served_def phase_ok_def)

theorem open_door_answers_this_floor_witness:
  "active_calls (fst (LiftCarOpenDoor 0 three_calls)) = [\<lparr>floorNumber = 7, direction = LIFT_CAR_DIRECTION_DOWN\<rparr>]"
  using open_door_answers_this_floor [of three_calls 0 "fst (LiftCarOpenDoor 0 three_calls)" "snd (LiftCarOpenDoor 0 three_calls)"]
  by (simp add: three_calls_def LiftCar_init_def active_calls_def)

text \<open>
  C19. Every change of the car is announced to the stack in the pass that makes it: if a tick
  changes the position, the moving direction or the door status, the corresponding property is
  among those reported by \<open>LiftCarPropertyChanged\<close>; and a tick moves the car one floor at most.
\<close>

theorem tick_announces_every_change:
  assumes "car_inv car" "LiftCarTick now car = (car', ps)"
  shows "(position car' \<noteq> position car \<longrightarrow> PROPERTY_IDENTIFIER_CAR_POSITION \<in> set ps) \<and>
    (movingDirection car' \<noteq> movingDirection car \<longrightarrow> PROPERTY_IDENTIFIER_CAR_MOVING_DIRECTION \<in> set ps) \<and>
    (doorStatus car' \<noteq> doorStatus car \<longrightarrow> PROPERTY_IDENTIFIER_CAR_DOOR_STATUS \<in> set ps) \<and>
    \<bar>int (unat (position car')) - int (unat (position car))\<bar> \<le> 1"
  using tick_announces [OF assms(2)] tick_one_floor [OF assms] by blast

theorem tick_announces_every_change_witness:
  "PROPERTY_IDENTIFIER_CAR_DOOR_STATUS \<in> set (snd (LiftCarTick 0 three_calls))"
proof -
  have "doorStatus (fst (LiftCarTick 0 three_calls)) \<noteq> doorStatus three_calls"
    by (simp add: three_calls_def LiftCar_init_def LiftCarTick_def LiftCarHasCallAt_def LiftCarOpenDoor_def upt_rec split: prod.split)
  then show ?thesis
    using tick_announces_every_change [OF three_calls_inv, of 0 "fst (LiftCarTick 0 three_calls)" "snd (LiftCarTick 0 three_calls)"]
    by simp
qed

end
