(* ===== verification/Landing_Calls.thy ===== *)
theory Landing_Calls
  imports Lift_Car
begin

text \<open>
  The BACnet face of the elevator (\<open>main.cpp\<close> sections 2b and 2c): the write of the Elevator
  Group's \<open>Landing_Call_Control\<close>, which registers a call with the car, and the callbacks through
  which the stack pages the call lists. \<open>g_deviceInstance\<close> is the argument \<open>dev\<close>. The last
  section makes the elevator a transition system (ticks, writes, cold restarts in any order) and
  shows its invariant for every reachable state.
\<close>

section \<open>State\<close>

record last_control =
  hasValue :: bool
  lcc_floorNumber :: u8
  commandChoice :: u8
  lcc_direction :: u32
  destination :: u8

definition LastLandingCallControl_init :: last_control where
  "LastLandingCallControl_init = \<lparr>hasValue = False, lcc_floorNumber = 0, commandChoice = 0, lcc_direction = 0, destination = 0\<rparr>"

record elevator =
  g_liftCar :: lift_car
  g_lastLandingCallControl :: last_control

definition elevator_init :: elevator where
  "elevator_init = \<lparr>g_liftCar = LiftCar_init, g_lastLandingCallControl = LastLandingCallControl_init\<rparr>"

section \<open>The write of \<open>Landing_Call_Control\<close>\<close>

text \<open>The direction button of the call, or \<open>None\<close> when the write is refused for its direction or destination.\<close>

definition call_direction :: "u8 \<Rightarrow> u8 \<Rightarrow> u32 \<Rightarrow> u8 \<Rightarrow> u32 option" where
  "call_direction fl choice dir dest =
     (if choice = LANDING_CALL_COMMAND_DESTINATION then
        (if dest < LIFT_LOWEST_FLOOR \<or> LIFT_HIGHEST_FLOOR < dest \<or> dest = fl then None
         else Some (if fl < dest then LIFT_CAR_DIRECTION_UP else LIFT_CAR_DIRECTION_DOWN))
      else if dir \<noteq> LIFT_CAR_DIRECTION_UP \<and> dir \<noteq> LIFT_CAR_DIRECTION_DOWN then None
      else Some dir)"

definition already_called :: "lift_car \<Rightarrow> u8 \<Rightarrow> u32 \<Rightarrow> bool" where
  "already_called car fl dir \<longleftrightarrow>
     list_ex (\<lambda>i. floorNumber (calls car ! i) = fl \<and> direction (calls car ! i) = dir) [0..<callCount car]"

definition append_call :: "u8 \<Rightarrow> u32 \<Rightarrow> lift_car \<Rightarrow> lift_car" where
  "append_call fl dir car =
     car\<lparr>calls := (calls car)[callCount car := \<lparr>floorNumber = fl, direction = dir\<rparr>], callCount := callCount car + 1\<rparr>"

definition SetElevatorGroupLandingCallControl ::
  "u32 \<Rightarrow> u32 \<Rightarrow> u32 \<Rightarrow> u8 \<Rightarrow> u8 \<Rightarrow> u32 \<Rightarrow> u8 \<Rightarrow> elevator \<Rightarrow> elevator option" where
  "SetElevatorGroupLandingCallControl dev deviceInstance grp fl choice dir dest el =
     (if deviceInstance \<noteq> dev \<or> grp \<noteq> ELEVATOR_GROUP_INSTANCE then None
      else if fl < LIFT_LOWEST_FLOOR \<or> LIFT_HIGHEST_FLOOR < fl then None
      else (case call_direction fl choice dir dest of
        None \<Rightarrow> None
      | Some callDirection \<Rightarrow>
          (let car = g_liftCar el;
               accepted = el\<lparr>g_lastLandingCallControl :=
                 \<lparr>hasValue = True, lcc_floorNumber = fl, commandChoice = choice, lcc_direction = dir, destination = dest\<rparr>\<rparr>
           in if already_called car fl callDirection then Some accepted
              else if unat MAX_LANDING_CALLS \<le> callCount car then None
              else Some (accepted\<lparr>g_liftCar := append_call fl callDirection car\<rparr>))))"

section \<open>The list callbacks\<close>

record landing_call_status =
  st_floorNumber :: u8
  st_commandChoice :: u8
  st_direction :: u32
  st_destination :: u8

definition GetListElevatorGroupLandingCallStatus ::
  "u32 \<Rightarrow> elevator \<Rightarrow> u32 \<Rightarrow> u32 \<Rightarrow> u32 \<Rightarrow> u32 \<Rightarrow> (landing_call_status \<times> bool) option" where
  "GetListElevatorGroupLandingCallStatus dev el deviceInstance grp prop index =
     (let car = g_liftCar el; last = g_lastLandingCallControl el in
      if deviceInstance \<noteq> dev \<or> grp \<noteq> ELEVATOR_GROUP_INSTANCE then None
      else if prop = PROPERTY_IDENTIFIER_LANDING_CALL_CONTROL then
        Some (if hasValue last
              then \<lparr>st_floorNumber = lcc_floorNumber last, st_commandChoice = commandChoice last,
                    st_direction = lcc_direction last, st_destination = destination last\<rparr>
              else \<lparr>st_floorNumber = 0, st_commandChoice = LANDING_CALL_COMMAND_DIRECTION,
                    st_direction = LIFT_CAR_DIRECTION_NONE, st_destination = 0\<rparr>, False)
      else if prop = PROPERTY_IDENTIFIER_LANDING_CALLS \<and> unat index < callCount car then
        Some (\<lparr>st_floorNumber = floorNumber (calls car ! unat index), st_commandChoice = LANDING_CALL_COMMAND_DIRECTION,
               st_direction = direction (calls car ! unat index), st_destination = 0\<rparr>,
              unat (index + 1) < callCount car)
      else None)"

definition GetSequenceLiftAssignedLandingCall ::
  "u32 \<Rightarrow> lift_car \<Rightarrow> u32 \<Rightarrow> u32 \<Rightarrow> u32 \<Rightarrow> u32 \<Rightarrow> ((u8 \<times> u32) \<times> bool) option" where
  "GetSequenceLiftAssignedLandingCall dev car deviceInstance objectInstance door offset =
     (if deviceInstance \<noteq> dev \<or> objectInstance \<noteq> LIFT_INSTANCE \<or> door \<noteq> 1 then None
      else if unat offset < callCount car then
        Some ((floorNumber (calls car ! unat offset), direction (calls car ! unat offset)), unat (offset + 1) < callCount car)
      else None)"

definition GetSequenceLiftRegisteredCarCall ::
  "u32 \<Rightarrow> lift_car \<Rightarrow> u32 \<Rightarrow> u32 \<Rightarrow> u32 \<Rightarrow> u32 \<Rightarrow> (u8 \<times> bool) option" where
  "GetSequenceLiftRegisteredCarCall dev car deviceInstance objectInstance door offset =
     (if deviceInstance \<noteq> dev \<or> objectInstance \<noteq> LIFT_INSTANCE \<or> door \<noteq> 1 then None else None)"

definition GetSequenceLiftLandingDoorStatus ::
  "u32 \<Rightarrow> lift_car \<Rightarrow> u32 \<Rightarrow> u32 \<Rightarrow> u32 \<Rightarrow> u32 \<Rightarrow> ((u8 \<times> u32) \<times> bool) option" where
  "GetSequenceLiftLandingDoorStatus dev car deviceInstance objectInstance door offset =
     (if deviceInstance \<noteq> dev \<or> objectInstance \<noteq> LIFT_INSTANCE \<or> door \<noteq> 1 then None
      else if offset = 0 then Some ((position car, doorStatus car), False)
      else None)"

text \<open>
  \<open>GetListOfEnumerations\<close> never writes its \<open>*enumeration\<close> out-parameter: the third argument is
  what that variable held before the call, and it is what the caller finds there afterwards.
\<close>

definition GetListOfEnumerations ::
  "u32 \<Rightarrow> u32 \<Rightarrow> u16 \<Rightarrow> u32 \<Rightarrow> u32 \<Rightarrow> u32 \<Rightarrow> (u32 \<times> bool) option" where
  "GetListOfEnumerations dev deviceInstance objectType objectInstance prop enumeration =
     (if deviceInstance \<noteq> dev then None
      else if objectType = OBJECT_TYPE_LIFT \<and> objectInstance = LIFT_INSTANCE \<and> prop = PROPERTY_IDENTIFIER_FAULT_SIGNALS
      then Some (enumeration, False)
      else None)"

section \<open>Registering a call\<close>

lemma already_called_iff:
  assumes "callCount car \<le> length (calls car)"
  shows "already_called car f d \<longleftrightarrow> \<lparr>floorNumber = f, direction = d\<rparr> \<in> set (active_calls car)"
proof -
  have "already_called car f d \<longleftrightarrow> (\<exists>c \<in> set (active_calls car). floorNumber c = f \<and> direction c = d)"
    unfolding already_called_def active_calls_def nth_image [OF assms, symmetric] by (simp add: list_ex_iff)
  also have "\<dots> \<longleftrightarrow> \<lparr>floorNumber = f, direction = d\<rparr> \<in> set (active_calls car)"
    by (metis landing_call.surjective old.unit.exhaust landing_call.select_convs(1,2))
  finally show ?thesis .
qed

lemma active_calls_append:
  "callCount car < length (calls car) \<Longrightarrow>
   active_calls (append_call f d car) = active_calls car @ [\<lparr>floorNumber = f, direction = d\<rparr>]"
  by (simp add: active_calls_def append_call_def list_update_take_last)

lemma call_direction_ok:
  "call_direction f choice d dest = Some cd \<Longrightarrow> cd \<in> {LIFT_CAR_DIRECTION_UP, LIFT_CAR_DIRECTION_DOWN}"
  by (auto simp: call_direction_def split: if_splits)

text \<open>The whole write in one equation over the abstract list of calls.\<close>

lemma SetLandingCall_spec:
  assumes inv: "car_inv (g_liftCar el)"
  shows "SetElevatorGroupLandingCallControl dev di grp f choice d dest el = Some el' \<longleftrightarrow>
    di = dev \<and> grp = ELEVATOR_GROUP_INSTANCE \<and> floor_served f \<and>
    (\<exists>cd. call_direction f choice d dest = Some cd \<and>
      (let c = \<lparr>floorNumber = f, direction = cd\<rparr>; xs = active_calls (g_liftCar el);
           accepted = el\<lparr>g_lastLandingCallControl :=
             \<lparr>hasValue = True, lcc_floorNumber = f, commandChoice = choice, lcc_direction = d, destination = dest\<rparr>\<rparr>
       in if c \<in> set xs then el' = accepted
          else length xs < unat MAX_LANDING_CALLS \<and> el' = accepted\<lparr>g_liftCar := append_call f cd (g_liftCar el)\<rparr>))"
  using car_invD [OF inv] callCount_active [of "g_liftCar el"]
  by (auto simp: SetElevatorGroupLandingCallControl_def floor_served_def Let_def already_called_iff not_le not_less one_le_word_iff
      split: option.splits if_splits)

lemma car_inv_append:
  assumes inv: "car_inv car" and "floor_served f" "d \<in> {LIFT_CAR_DIRECTION_UP, LIFT_CAR_DIRECTION_DOWN}"
    and new: "\<lparr>floorNumber = f, direction = d\<rparr> \<notin> set (active_calls car)" and room: "callCount car < 8"
  shows "car_inv (append_call f d car)"
proof -
  note D = car_invD [OF inv]
  have a: "active_calls (append_call f d car) = active_calls car @ [\<lparr>floorNumber = f, direction = d\<rparr>]"
    using room D(1) by (simp add: active_calls_append)
  have frame: "position (append_call f d car) = position car" "phase (append_call f d car) = phase car"
    "movingDirection (append_call f d car) = movingDirection car" "doorStatus (append_call f d car) = doorStatus car"
    "length (calls (append_call f d car)) = length (calls car)" "callCount (append_call f d car) = callCount car + 1"
    by (simp_all add: append_call_def)
  have "phase_ok (append_call f d car)"
    using D(6) by (auto simp: phase_ok_def a frame split: LiftCarPhase.splits)
  moreover have "list_all call_ok (active_calls (append_call f d car))"
    using D(3) assms(2,3) by (simp add: a list_all_iff call_ok_def)
  moreover have "distinct (active_calls (append_call f d car))" using D(4) new by (simp add: a)
  ultimately show ?thesis using D(1,5) room by (simp add: car_inv_def frame)
qed

lemma car_inv_SetLandingCall [aec_inv]:
  assumes "car_inv (g_liftCar el)" "SetElevatorGroupLandingCallControl dev di grp f choice d dest el = Some el'"
  shows "car_inv (g_liftCar el')"
  using assms(2) car_inv_append [OF assms(1)] callCount_active [of "g_liftCar el"] car_invD [OF assms(1)] assms(1)
  unfolding SetLandingCall_spec [OF assms(1)]
  by (auto simp: Let_def split: if_splits dest: call_direction_ok)

section \<open>The lists the stack pages\<close>

text \<open>What the client sees of a call: in \<open>Landing_Calls\<close> and in \<open>Assigned_Landing_Calls\<close>.\<close>

definition status_of_call :: "landing_call \<Rightarrow> landing_call_status" where
  "status_of_call c = \<lparr>st_floorNumber = floorNumber c, st_commandChoice = LANDING_CALL_COMMAND_DIRECTION,
     st_direction = direction c, st_destination = 0\<rparr>"

definition landing_calls_page :: "u32 \<Rightarrow> elevator \<Rightarrow> nat \<Rightarrow> (landing_call_status \<times> bool) option" where
  "landing_calls_page dev el i = GetListElevatorGroupLandingCallStatus dev el dev ELEVATOR_GROUP_INSTANCE
     PROPERTY_IDENTIFIER_LANDING_CALLS (word_of_nat i)"

definition assigned_calls_page :: "u32 \<Rightarrow> elevator \<Rightarrow> nat \<Rightarrow> ((u8 \<times> u32) \<times> bool) option" where
  "assigned_calls_page dev el i =
     GetSequenceLiftAssignedLandingCall dev (g_liftCar el) dev LIFT_INSTANCE 1 (word_of_nat i)"

definition door_status_page :: "u32 \<Rightarrow> elevator \<Rightarrow> nat \<Rightarrow> ((u8 \<times> u32) \<times> bool) option" where
  "door_status_page dev el i =
     GetSequenceLiftLandingDoorStatus dev (g_liftCar el) dev LIFT_INSTANCE 1 (word_of_nat i)"

lemma small_index:
  assumes "i \<le> 8"
  shows "unat (word_of_nat i :: u32) = i" "unat (word_of_nat i + 1 :: u32) = Suc i"
proof -
  show "unat (word_of_nat i :: u32) = i" using assms by (simp add: unsigned_of_nat take_bit_nat_eq_self)
  have "word_of_nat i + 1 = (word_of_nat (Suc i) :: u32)" by simp
  then show "unat (word_of_nat i + 1 :: u32) = Suc i"
    using assms by (simp only: unsigned_of_nat) (simp add: take_bit_nat_eq_self)
qed

interpretation landing_calls: paged_list "landing_calls_page dev"
  "\<lambda>el. map status_of_call (active_calls (g_liftCar el))" "\<lambda>el. car_inv (g_liftCar el)" for dev
proof
  fix el :: elevator and i assume inv: "car_inv (g_liftCar el)" and i: "i \<le> length (map status_of_call (active_calls (g_liftCar el)))"
  note D = car_invD [OF inv]
  have "i \<le> 8" using i D(2) callCount_active [OF D(7)] by simp
  with i D show "landing_calls_page dev el i =
    (if i < length (map status_of_call (active_calls (g_liftCar el)))
     then Some (map status_of_call (active_calls (g_liftCar el)) ! i, Suc i < length (map status_of_call (active_calls (g_liftCar el))))
     else None)"
    by (auto simp: landing_calls_page_def GetListElevatorGroupLandingCallStatus_def small_index Let_def
        status_of_call_def active_calls_def)
qed

interpretation assigned_calls: paged_list "assigned_calls_page dev"
  "\<lambda>el. map (\<lambda>c. (floorNumber c, direction c)) (active_calls (g_liftCar el))" "\<lambda>el. car_inv (g_liftCar el)" for dev
proof
  fix el :: elevator and i assume inv: "car_inv (g_liftCar el)"
    and i: "i \<le> length (map (\<lambda>c. (floorNumber c, direction c)) (active_calls (g_liftCar el)))"
  note D = car_invD [OF inv]
  have "i \<le> 8" using i D(2) callCount_active [OF D(7)] by simp
  with i D show "assigned_calls_page dev el i =
    (if i < length (map (\<lambda>c. (floorNumber c, direction c)) (active_calls (g_liftCar el)))
     then Some (map (\<lambda>c. (floorNumber c, direction c)) (active_calls (g_liftCar el)) ! i,
       Suc i < length (map (\<lambda>c. (floorNumber c, direction c)) (active_calls (g_liftCar el))))
     else None)"
    by (auto simp: assigned_calls_page_def GetSequenceLiftAssignedLandingCall_def small_index active_calls_def)
qed

interpretation door_status: paged_list "door_status_page dev"
  "\<lambda>el. [(position (g_liftCar el), doorStatus (g_liftCar el))]" "\<lambda>el. car_inv (g_liftCar el)" for dev
  by unfold_locales (auto simp: door_status_page_def GetSequenceLiftLandingDoorStatus_def le_Suc_eq)

section \<open>The elevator as a transition system\<close>

datatype elevator_event =
    TickAt int
  | CallWrite u32 u32 u8 u8 u32 u8
  | ColdRestart

inductive elevator_step :: "u32 \<Rightarrow> elevator \<Rightarrow> elevator_event \<Rightarrow> elevator \<Rightarrow> bool" for dev :: u32 where
  tick: "elevator_step dev el (TickAt now) (el\<lparr>g_liftCar := fst (LiftCarTick now (g_liftCar el))\<rparr>)"
| accepted: "SetElevatorGroupLandingCallControl dev di grp f choice d dest el = Some el' \<Longrightarrow>
    elevator_step dev el (CallWrite di grp f choice d dest) el'"
| refused: "SetElevatorGroupLandingCallControl dev di grp f choice d dest el = None \<Longrightarrow>
    elevator_step dev el (CallWrite di grp f choice d dest) el"
| cold: "elevator_step dev el ColdRestart elevator_init"

inductive_cases tick_stepE: "elevator_step dev el (TickAt now) el'"
inductive_cases write_stepE: "elevator_step dev el (CallWrite di grp f choice d dest) el'"

lemma car_inv_step: "car_inv (g_liftCar el) \<Longrightarrow> elevator_step dev el ev el' \<Longrightarrow> car_inv (g_liftCar el')"
  by (erule elevator_step.cases)
     (auto intro: car_inv_tick car_inv_SetLandingCall simp: elevator_init_def car_inv_init)

lemma step_keeps_calls:
  assumes inv: "car_inv (g_liftCar el)" and step: "elevator_step dev el ev el'" and "ev \<noteq> ColdRestart"
    and c: "c \<in> set (active_calls (g_liftCar el))" "c \<notin> set (active_calls (g_liftCar el'))"
  shows "position (g_liftCar el') = floorNumber c \<and> doorStatus (g_liftCar el') = DOOR_STATUS_OPENED \<and>
    movingDirection (g_liftCar el') = LIFT_CAR_DIRECTION_STOPPED"
  using step
proof cases
  case (tick now)
  obtain car' ps where "LiftCarTick now (g_liftCar el) = (car', ps)" by fastforce
  with tick_calls [OF inv this] tick c show ?thesis by auto
next
  case (accepted di grp f choice d dest)
  then have "set (active_calls (g_liftCar el)) \<subseteq> set (active_calls (g_liftCar el'))"
    using active_calls_append [of "g_liftCar el"] car_invD [OF inv] callCount_active [of "g_liftCar el"]
    by (auto simp: SetLandingCall_spec [OF inv] Let_def split: if_splits)
  with c show ?thesis by blast
qed (use assms in auto)

interpretation elevator: invariant_system "\<lambda>el. el = elevator_init" "elevator_step dev" "\<lambda>el. car_inv (g_liftCar el)" for dev
  by unfold_locales (auto simp: elevator_init_def car_inv_init intro: car_inv_step)

section \<open>Properties\<close>

text \<open>
  C1. However ticks, writes of \<open>Landing_Call_Control\<close> and cold restarts are interleaved, the car is
  on a floor the installation has, the call array is never overrun and holds each call at most
  once, the door is open only while the car is stopped, and a moving car has its door closed and
  an outstanding call ahead of it (so the position never wraps).
\<close>

theorem elevator_safe:
  assumes "reach (\<lambda>el. el = elevator_init) (elevator_step dev) el"
  shows "let car = g_liftCar el in
    LIFT_LOWEST_FLOOR \<le> position car \<and> position car \<le> LIFT_HIGHEST_FLOOR \<and>
    callCount car \<le> length (calls car) \<and> length (calls car) = unat MAX_LANDING_CALLS \<and> distinct (active_calls car) \<and>
    (\<forall>c \<in> set (active_calls car). LIFT_LOWEST_FLOOR \<le> floorNumber c \<and> floorNumber c \<le> LIFT_HIGHEST_FLOOR) \<and>
    (doorStatus car = DOOR_STATUS_OPENED \<longrightarrow> movingDirection car = LIFT_CAR_DIRECTION_STOPPED) \<and>
    (phase car = Moving \<longrightarrow> doorStatus car = DOOR_STATUS_CLOSED \<and>
       (movingDirection car = LIFT_CAR_DIRECTION_UP \<and> (\<exists>c \<in> set (active_calls car). position car < floorNumber c) \<or>
        movingDirection car = LIFT_CAR_DIRECTION_DOWN \<and> (\<exists>c \<in> set (active_calls car). floorNumber c < position car)))"
proof -
  note D = car_invD [OF elevator.reach_inv [OF assms]]
  have "phase_ok (g_liftCar el) \<Longrightarrow> doorStatus (g_liftCar el) = DOOR_STATUS_OPENED \<Longrightarrow>
      movingDirection (g_liftCar el) = LIFT_CAR_DIRECTION_STOPPED"
    by (auto simp: phase_ok_def split: LiftCarPhase.splits)
  note door = this [OF D(6)]
  have floors: "LIFT_LOWEST_FLOOR \<le> position (g_liftCar el)" "position (g_liftCar el) \<le> LIFT_HIGHEST_FLOOR"
    "\<forall>c \<in> set (active_calls (g_liftCar el)). LIFT_LOWEST_FLOOR \<le> floorNumber c \<and> floorNumber c \<le> LIFT_HIGHEST_FLOOR"
    using D(3,5) unfolding call_ok_def floor_served_def by blast+
  have "phase (g_liftCar el) = Moving \<Longrightarrow> doorStatus (g_liftCar el) = DOOR_STATUS_CLOSED \<and>
      (movingDirection (g_liftCar el) = LIFT_CAR_DIRECTION_UP \<and> (\<exists>c \<in> set (active_calls (g_liftCar el)). position (g_liftCar el) < floorNumber c) \<or>
       movingDirection (g_liftCar el) = LIFT_CAR_DIRECTION_DOWN \<and> (\<exists>c \<in> set (active_calls (g_liftCar el)). floorNumber c < position (g_liftCar el)))"
    using D(6) unfolding phase_ok_def by (simp only: LiftCarPhase.case)
  with floors door D(1,4,7) show ?thesis unfolding Let_def by (intro conjI impI) (assumption | simp)+
qed

lemma reach_write:
  "SetElevatorGroupLandingCallControl dev di grp f choice d dest elevator_init = Some el \<Longrightarrow>
   reach (\<lambda>el. el = elevator_init) (elevator_step dev) el"
  by (rule reach_step [of _ _ elevator_init]) (auto intro: reach_start accepted)

lemma call_5_up_accepted:
  "SetElevatorGroupLandingCallControl 1 1 ELEVATOR_GROUP_INSTANCE 5 LANDING_CALL_COMMAND_DIRECTION LIFT_CAR_DIRECTION_UP 0 elevator_init
   = Some \<lparr>g_liftCar = append_call 5 LIFT_CAR_DIRECTION_UP LiftCar_init,
        g_lastLandingCallControl = \<lparr>hasValue = True, lcc_floorNumber = 5, commandChoice = LANDING_CALL_COMMAND_DIRECTION,
          lcc_direction = LIFT_CAR_DIRECTION_UP, destination = 0\<rparr>\<rparr>"
  by (simp add: SetElevatorGroupLandingCallControl_def call_direction_def already_called_def elevator_init_def LiftCar_init_def)

theorem elevator_safe_witness:
  "\<exists>el. reach (\<lambda>el. el = elevator_init) (elevator_step 1) el \<and> callCount (g_liftCar el) = 1 \<and>
     position (g_liftCar el) \<le> LIFT_HIGHEST_FLOOR"
proof -
  let ?el = "the (SetElevatorGroupLandingCallControl 1 1 ELEVATOR_GROUP_INSTANCE 5 LANDING_CALL_COMMAND_DIRECTION
    LIFT_CAR_DIRECTION_UP 0 elevator_init)"
  have r: "reach (\<lambda>el. el = elevator_init) (elevator_step 1) ?el"
    using reach_write [OF call_5_up_accepted] call_5_up_accepted by simp
  have "callCount (g_liftCar ?el) = 1"
    unfolding call_5_up_accepted by (simp add: append_call_def LiftCar_init_def)
  with elevator_safe [OF r] r show ?thesis by (auto simp: Let_def)
qed

text \<open>
  C6. A call leaves the list only by being answered: a step of the elevator that is not a cold
  restart keeps every outstanding call, unless the car stands at the call's floor, stopped and
  with its door open, after the step.
\<close>

theorem calls_leave_only_when_answered:
  assumes "reach (\<lambda>el. el = elevator_init) (elevator_step dev) el" "elevator_step dev el ev el'" "ev \<noteq> ColdRestart"
    and "c \<in> set (active_calls (g_liftCar el))" "c \<notin> set (active_calls (g_liftCar el'))"
  shows "position (g_liftCar el') = floorNumber c \<and> doorStatus (g_liftCar el') = DOOR_STATUS_OPENED \<and>
    movingDirection (g_liftCar el') = LIFT_CAR_DIRECTION_STOPPED"
  using assms(2-) step_keeps_calls [OF elevator.reach_inv [OF assms(1)]] by blast

theorem calls_leave_only_when_answered_witness:
  "\<exists>el el'. elevator_step 1 el (TickAt 0) el' \<and> \<lparr>floorNumber = 3, direction = LIFT_CAR_DIRECTION_UP\<rparr> \<in> set (active_calls (g_liftCar el)) \<and>
     position (g_liftCar el') = 3 \<and> doorStatus (g_liftCar el') = DOOR_STATUS_OPENED"
proof -
  let ?c = "\<lparr>floorNumber = 3, direction = LIFT_CAR_DIRECTION_UP\<rparr>"
  obtain el where w: "SetElevatorGroupLandingCallControl 1 1 ELEVATOR_GROUP_INSTANCE 3 LANDING_CALL_COMMAND_DIRECTION
      LIFT_CAR_DIRECTION_UP 0 elevator_init = Some el" and "g_liftCar el = append_call 3 LIFT_CAR_DIRECTION_UP LiftCar_init"
    by (simp add: SetElevatorGroupLandingCallControl_def call_direction_def already_called_def elevator_init_def LiftCar_init_def)
  then have car: "active_calls (g_liftCar el) = [?c]" "position (g_liftCar el) = 3" "phase (g_liftCar el) = Idle"
      "callCount (g_liftCar el) \<le> length (calls (g_liftCar el))" "callCount (g_liftCar el) \<noteq> 0"
    by (simp_all add: LiftCar_init_def append_call_def active_calls_def list_update_take_last)
  obtain car' ps where o: "LiftCarOpenDoor 0 (g_liftCar el) = (car', ps)" by fastforce
  have t: "fst (LiftCarTick 0 (g_liftCar el)) = car'"
    using car o by (simp add: LiftCarTick_def LiftCarHasCallAt_iff)
  have "active_calls car' = []" using LiftCarOpenDoor_spec(1) [OF car(4) o] car by simp
  with car t tick [of 1 el 0] calls_leave_only_when_answered [OF reach_write [OF w] tick, of 0 ?c] show ?thesis by fastforce
qed



text \<open>
  C21. Paging reads the lists exactly: asking for the elements 0, 1, 2, \<dots> until no more follow
  gives, for \<open>Landing_Calls\<close> and for \<open>Assigned_Landing_Calls\<close>, every outstanding call once and in
  order, and for \<open>Landing_Door_Status\<close> the one door at the car's floor.
\<close>

theorem paged_lists_complete:
  assumes "reach (\<lambda>el. el = elevator_init) (elevator_step dev) el" "8 < fuel"
  shows "page_walk fuel (landing_calls_page dev el) 0 = map status_of_call (active_calls (g_liftCar el)) \<and>
    page_walk fuel (assigned_calls_page dev el) 0 = map (\<lambda>c. (floorNumber c, direction c)) (active_calls (g_liftCar el)) \<and>
    page_walk fuel (door_status_page dev el) 0 = [(position (g_liftCar el), doorStatus (g_liftCar el))]"
proof -
  have inv: "car_inv (g_liftCar el)" using elevator.reach_inv [OF assms(1)] .
  then have "length (active_calls (g_liftCar el)) \<le> 8" using car_invD [OF inv] callCount_active by simp
  with assms(2) inv show ?thesis
    by (intro conjI landing_calls.page_walk_all assigned_calls.page_walk_all door_status.page_walk_all) simp_all
qed

theorem paged_lists_complete_witness:
  "\<exists>el. reach (\<lambda>el. el = elevator_init) (elevator_step 1) el \<and>
     page_walk 9 (assigned_calls_page 1 el) 0 = [(5, LIFT_CAR_DIRECTION_UP)]"
proof -
  let ?el = "the (SetElevatorGroupLandingCallControl 1 1 ELEVATOR_GROUP_INSTANCE 5 LANDING_CALL_COMMAND_DIRECTION
    LIFT_CAR_DIRECTION_UP 0 elevator_init)"
  have r: "reach (\<lambda>el. el = elevator_init) (elevator_step 1) ?el"
    using reach_write [OF call_5_up_accepted] call_5_up_accepted by simp
  have "active_calls (g_liftCar ?el) = [\<lparr>floorNumber = 5, direction = LIFT_CAR_DIRECTION_UP\<rparr>]"
    unfolding call_5_up_accepted by (simp add: append_call_def active_calls_def LiftCar_init_def list_update_take_last)
  with paged_lists_complete [OF r, of 9] r show ?thesis by auto
qed

end
