(* ===== verification/Device_Management.thy ===== *)
theory Device_Management
  imports BACnet_Constants
begin

unbundle bit_operations_syntax

text \<open>
  Device management: the deferred restart of \<open>common/CASExampleHelper.cpp\<close> (\<open>RequestRestart\<close>,
  \<open>RestartDue\<close>) and the callbacks of \<open>main.cpp\<close> for DeviceCommunicationControl, AcknowledgeAlarm
  and ReinitializeDevice with the password check they share. The monotonic clock is an argument
  (milliseconds, 64 bits); \<open>g_dccPassword\<close> is the list of its octets before the terminating zero.
\<close>

section \<open>The deferred restart\<close>

datatype RestartKind = Cold | Warm

record restart =
  g_restartPending :: bool
  g_restartDueAtMs :: u64
  g_restartKind :: RestartKind

definition restart_init :: restart where
  "restart_init = \<lparr>g_restartPending = False, g_restartDueAtMs = 0, g_restartKind = Warm\<rparr>"

definition RESTART_DELAY_MS :: u32 where [simp]: "RESTART_DELAY_MS = 1000"

definition RequestRestart :: "u64 \<Rightarrow> RestartKind \<Rightarrow> u32 \<Rightarrow> restart \<Rightarrow> restart" where
  "RequestRestart now kind delayMilliseconds r =
     (let dueAt = now + ucast delayMilliseconds
      in if g_restartPending r
         then r\<lparr>g_restartDueAtMs := (if dueAt < g_restartDueAtMs r then dueAt else g_restartDueAtMs r),
                g_restartKind := (if kind = Cold then Cold else g_restartKind r)\<rparr>
         else \<lparr>g_restartPending = True, g_restartDueAtMs = dueAt, g_restartKind = kind\<rparr>)"

text \<open>\<open>None\<close>: nothing due. \<open>Some k\<close>: \<open>true\<close>, with the kind \<open>k\<close>.\<close>

definition RestartDue :: "u64 \<Rightarrow> restart \<Rightarrow> RestartKind option \<times> restart" where
  "RestartDue now r =
     (if \<not> g_restartPending r \<or> now < g_restartDueAtMs r then (None, r)
      else (Some (g_restartKind r), r\<lparr>g_restartPending := False\<rparr>))"

section \<open>The callbacks\<close>

definition PasswordAccepted :: "u8 list \<Rightarrow> u8 list option \<Rightarrow> u32 \<Rightarrow> bool" where
  "PasswordAccepted g_dccPassword password passwordLength =
     (let requiredLength = (word_of_nat (length g_dccPassword) :: u32)
      in if requiredLength = 0 then True
         else (case password of
           None \<Rightarrow> False
         | Some pw \<Rightarrow>
             if passwordLength \<noteq> requiredLength then False
             else foldl (\<lambda>(diff :: u32) i. diff OR ucast (pw ! i XOR g_dccPassword ! i)) 0 [0..<unat requiredLength] = 0))"

definition DeviceCommunicationControl :: "u32 \<Rightarrow> u8 list \<Rightarrow> u32 \<Rightarrow> u8 list option \<Rightarrow> u8 \<Rightarrow> unit callback" where
  "DeviceCommunicationControl dev g_dccPassword deviceInstance password passwordLength =
     (if deviceInstance \<noteq> dev then Inl ERROR_CODE_OPTIONAL_FUNCTIONALITY_NOT_SUPPORTED
      else if \<not> PasswordAccepted g_dccPassword password (ucast passwordLength) then Inl ERROR_CODE_PASSWORD_FAILURE
      else Inr ())"

definition AcknowledgeAlarm :: "u32 \<Rightarrow> u32 \<Rightarrow> u16 \<Rightarrow> u32 \<Rightarrow> unit callback" where
  "AcknowledgeAlarm dev deviceInstance eventObjectType eventObjectInstance =
     (if deviceInstance \<noteq> dev then Inl ERROR_CODE_SUCCESS
      else if eventObjectType \<noteq> OBJECT_TYPE_LIFT \<or> eventObjectInstance \<noteq> LIFT_INSTANCE then Inl ERROR_CODE_VALUE_OUT_OF_RANGE
      else Inr ())"

definition ReinitializeDevice ::
  "u32 \<Rightarrow> u8 list \<Rightarrow> u64 \<Rightarrow> u32 \<Rightarrow> u32 \<Rightarrow> u8 list option \<Rightarrow> u32 \<Rightarrow> restart \<Rightarrow> restart callback" where
  "ReinitializeDevice dev g_dccPassword now deviceInstance reinitializedState password passwordLength r =
     (if deviceInstance \<noteq> dev then Inl ERROR_CODE_OPTIONAL_FUNCTIONALITY_NOT_SUPPORTED
      else if \<not> PasswordAccepted g_dccPassword password passwordLength then Inl ERROR_CODE_PASSWORD_FAILURE
      else if reinitializedState = REINITIALIZE_STATE_COLDSTART then Inr (RequestRestart now Cold RESTART_DELAY_MS r)
      else if reinitializedState = REINITIALIZE_STATE_WARMSTART then Inr (RequestRestart now Warm RESTART_DELAY_MS r)
      else if REINITIALIZE_STATE_START_BACKUP \<le> reinitializedState \<and> reinitializedState \<le> REINITIALIZE_STATE_ABORT_RESTORE
      then Inr r
      else Inl ERROR_CODE_OPTIONAL_FUNCTIONALITY_NOT_SUPPORTED)"

section \<open>The password comparison\<close>

lemma foldl_OR_zero:
  "foldl (\<lambda>(d :: u32) i. d OR f i) d xs = 0 \<longleftrightarrow> d = 0 \<and> (\<forall>i \<in> set xs. f i = 0)"
  by (induction xs arbitrary: d) (auto simp: or_eq_0_iff)

lemma octet_diff_zero: "(ucast (a XOR b) :: u32) = 0 \<longleftrightarrow> (a :: u8) = b"
proof -
  have "(ucast (a XOR b) :: u32) = 0 \<longleftrightarrow> a XOR b = 0"
    by (simp add: unat_eq_0 [symmetric] unat_ucast_up)
  also have "\<dots> \<longleftrightarrow> a = b" by (auto simp: bit_eq_iff bit_xor_iff)
  finally show ?thesis .
qed

lemma PasswordAccepted_iff:
  assumes "length req < 2 ^ 32" "\<And>p. pw = Some p \<Longrightarrow> length p = unat n"
  shows "PasswordAccepted req pw n \<longleftrightarrow> req = [] \<or> pw = Some req"
proof -
  have len: "unat (word_of_nat (length req) :: u32) = length req"
    using assms(1) by (simp add: unsigned_of_nat take_bit_nat_eq_self)
  have zero: "(word_of_nat (length req) :: u32) = 0 \<longleftrightarrow> req = []" using len by (metis length_0_conv unat_eq_0)
  have eq: "n = word_of_nat (length req) \<longleftrightarrow> unat n = length req" using len by (metis word_unat_eq_iff)
  show ?thesis
  proof (cases pw)
    case None
    then show ?thesis unfolding PasswordAccepted_def Let_def zero by simp
  next
    case (Some p)
    have "p = req \<longleftrightarrow> unat n = length req \<and> (\<forall>i \<in> set [0..<length req]. p ! i = req ! i)"
      using assms(2) [OF Some] nth_equalityI [of p req] by fastforce
    then show ?thesis
      unfolding PasswordAccepted_def Let_def zero foldl_OR_zero octet_diff_zero len Some option.case option.inject eq
      by (auto simp only: refl split: if_split)
  qed
qed

section \<open>Requests and the deadline\<close>

lemma RequestRestart_due:
  assumes "unat now + unat d < 2 ^ 64"
  shows "unat (g_restartDueAtMs (RequestRestart now k d r)) =
    (if g_restartPending r then min (unat now + unat d) (unat (g_restartDueAtMs r)) else unat now + unat d)"
proof -
  have "unat (now + ucast d) = unat now + unat (ucast d :: u64)"
    using assms by (intro unat_add_lem [THEN iffD1]) (simp add: unat_ucast_up)
  also have "unat (ucast d :: u64) = unat d"
    by (simp add: unat_ucast_up)
  finally show ?thesis by (simp add: RequestRestart_def Let_def word_less_nat_alt min_def)
qed

fun requests :: "(u64 \<times> RestartKind \<times> u32) list \<Rightarrow> restart \<Rightarrow> restart" where
  "requests [] r = r"
| "requests ((now, k, d) # rs) r = requests rs (RequestRestart now k d r)"

definition deadline :: "u64 \<times> RestartKind \<times> u32 \<Rightarrow> nat" where
  "deadline q = (case q of (now, k, d) \<Rightarrow> unat now + unat d)"

lemma requests_pending:
  assumes "g_restartPending r" "\<forall>q \<in> set rs. deadline q < 2 ^ 64"
  shows "g_restartPending (requests rs r) \<and>
    unat (g_restartDueAtMs (requests rs r)) = Min (insert (unat (g_restartDueAtMs r)) (deadline ` set rs)) \<and>
    (g_restartKind (requests rs r) = Cold \<longleftrightarrow> g_restartKind r = Cold \<or> (\<exists>(now, k, d) \<in> set rs. k = Cold))"
  using assms
proof (induction rs arbitrary: r)
  case (Cons q rs)
  obtain now k d where q: "q = (now, k, d)" by (cases q)
  let ?r = "RequestRestart now k d r"
  have p: "g_restartPending ?r" using Cons.prems(1) by (simp add: RequestRestart_def Let_def)
  have due: "unat (g_restartDueAtMs ?r) = min (deadline q) (unat (g_restartDueAtMs r))"
    using RequestRestart_due [of now d k r] Cons.prems by (simp add: q deadline_def)
  have kind: "g_restartKind ?r = Cold \<longleftrightarrow> k = Cold \<or> g_restartKind r = Cold"
    using Cons.prems(1) by (simp add: RequestRestart_def Let_def)
  have "Min (insert (min (deadline q) (unat (g_restartDueAtMs r))) (deadline ` set rs)) =
      Min (insert (unat (g_restartDueAtMs r)) (insert (deadline q) (deadline ` set rs)))"
    by (cases "rs = []") (simp_all add: min.assoc min.commute min.left_commute)
  with Cons.IH [OF p] Cons.prems(2) p due kind show ?case by (auto simp: q)
qed simp

lemma requests_due:
  assumes "\<not> g_restartPending r" "rs \<noteq> []" "\<forall>q \<in> set rs. deadline q < 2 ^ 64"
  shows "g_restartPending (requests rs r) \<and> unat (g_restartDueAtMs (requests rs r)) = Min (deadline ` set rs) \<and>
    (g_restartKind (requests rs r) = Cold \<longleftrightarrow> (\<exists>(now, k, d) \<in> set rs. k = Cold))"
proof -
  obtain now k d qs where rs: "rs = (now, k, d) # qs" using assms(2) by (metis list.exhaust prod_cases3)
  let ?r = "RequestRestart now k d r"
  have "g_restartPending ?r" "g_restartKind ?r = k" using assms(1) by (simp_all add: RequestRestart_def Let_def)
  moreover have "unat (g_restartDueAtMs ?r) = deadline (now, k, d)"
    using RequestRestart_due [of now d k r] assms(1,3) by (simp add: rs deadline_def)
  ultimately show ?thesis using requests_pending [of ?r qs] assms(3) by (auto simp: rs)
qed

section \<open>Properties\<close>

text \<open>
  C24. The management services and the password: the comparison without an early exit is equality with the
  configured password, so DeviceCommunicationControl and ReinitializeDevice are accepted for this device
  with exactly that password, or with any if none is configured; they never decline without naming an
  error (the stack has no fallback for them); and a restart is requested exactly by an accepted
  COLDSTART or WARMSTART, while the backup and restore states leave it alone.
\<close>

theorem management_requires_password:
  assumes "length required < 2 ^ 32" "\<forall>p. pw8 = Some p \<longrightarrow> length p = unat n8" "\<forall>p. pw = Some p \<longrightarrow> length p = unat n"
  defines "allowed q \<equiv> required = [] \<or> q = Some required"
  shows "DeviceCommunicationControl dev required di pw8 n8 \<noteq> Inl ERROR_CODE_SUCCESS \<and>
    (DeviceCommunicationControl dev required di pw8 n8 = Inr () \<longleftrightarrow> di = dev \<and> allowed pw8) \<and>
    ReinitializeDevice dev required now di st pw n r \<noteq> Inl ERROR_CODE_SUCCESS \<and>
    (ReinitializeDevice dev required now di st pw n r = Inr r' \<longleftrightarrow>
      di = dev \<and> allowed pw \<and> st \<le> REINITIALIZE_STATE_ABORT_RESTORE \<and>
      r' = (if st = REINITIALIZE_STATE_COLDSTART then RequestRestart now Cold RESTART_DELAY_MS r
            else if st = REINITIALIZE_STATE_WARMSTART then RequestRestart now Warm RESTART_DELAY_MS r else r))"
proof -
  have "unat (ucast n8 :: u32) = unat n8" by (rule unat_ucast_up) simp
  then have "PasswordAccepted required pw8 (ucast n8) \<longleftrightarrow> allowed pw8" "PasswordAccepted required pw n \<longleftrightarrow> allowed pw"
    using PasswordAccepted_iff [OF assms(1), of pw8 "ucast n8"] PasswordAccepted_iff [OF assms(1), of pw n] assms(2,3)
    by (simp_all add: allowed_def)
  moreover have "2 \<le> st" if "st \<noteq> 0" "st \<noteq> 1" using that by unat_arith
  ultimately show ?thesis by (auto simp: DeviceCommunicationControl_def ReinitializeDevice_def)
qed

text \<open>Witness: the right password, and one that differs in its last octet.\<close>

theorem management_requires_password_witness:
  "DeviceCommunicationControl 389014 [66, 65] 389014 (Some [66, 65]) 2 = Inr () \<and>
   ReinitializeDevice 389014 [66, 65] 0 389014 REINITIALIZE_STATE_COLDSTART (Some [66, 64]) 2 restart_init \<noteq> Inr restart_init"
  using management_requires_password [of "[66, 65]" "Some [66, 65]" 2 "Some [66, 64]" 2 389014 389014 0 REINITIALIZE_STATE_COLDSTART restart_init restart_init]
  by simp

text \<open>
  C23. A restart, once promised, happens exactly once and never later than promised: after any
  number of requests the deadline is the earliest of those asked for, the restart is a cold one
  exactly if one of them was, \<open>RestartDue\<close> reports nothing before the deadline, reports it at the
  first poll from then on, and nothing again after that.
\<close>

theorem restart_fires_once_at_earliest_deadline:
  assumes "\<not> g_restartPending r" "rs \<noteq> []" "\<forall>q \<in> set rs. deadline q < 2 ^ 64"
  shows "let r' = requests rs r; due = Min (deadline ` set rs) in
    (unat now < due \<longrightarrow> RestartDue now r' = (None, r')) \<and>
    (due \<le> unat now \<longrightarrow> fst (RestartDue now r') = Some (if \<exists>(now, k, d) \<in> set rs. k = Cold then Cold else Warm) \<and>
       (\<forall>later. fst (RestartDue later (snd (RestartDue now r'))) = None))"
  using requests_due [OF assms]
  by (auto simp: Let_def RestartDue_def word_less_nat_alt intro: RestartKind.exhaust)

theorem restart_fires_once_at_earliest_deadline_witness:
  "fst (RestartDue 1500 (requests [(500, Warm, 1000), (600, Cold, 1000)] restart_init)) = Some Cold"
proof -
  have "\<forall>q \<in> set [(500, Warm, 1000), (600, Cold, 1000)]. deadline q < 2 ^ 64" by (simp add: deadline_def)
  from restart_fires_once_at_earliest_deadline [OF _ _ this, of restart_init 1500] show ?thesis
    by (simp add: Let_def restart_init_def deadline_def)
qed

end
