(* ===== verification/Application.thy ===== *)
theory Application
  imports Outputs Config_Image Landing_Calls Device_Management
begin

text \<open>
  The whole application state of \<open>main.cpp\<close> (its file-scope variables), with the components'
  states as fields, the configuration fixed at start-up, and what the components' invariants say
  together. \<open>device_init\<close> is the state when the process starts.
\<close>

section \<open>State\<close>

text \<open>Set at start-up and not changed afterwards.\<close>

record config =
  g_deviceInstance :: u32
  g_deviceName :: string
  g_firmwareRevision :: string
  g_dccPassword :: "u8 list"
  g_ipAddress :: "u8 list"
  g_ipSubnetMask :: "u8 list"
  g_ipDefaultGateway :: "u8 list"
  g_bacnetIpUdpPort :: u16

record device =
  outs :: outputs
  elev :: elevator
  created :: av_table
  ivory_file :: ivory
  staged :: restore
  restart_timer :: restart
  g_clockOffsetSeconds :: int
  g_analogInput1Value :: fp
  g_liftOutOfService :: bool
  g_liftPassengerAlarm :: bool
  g_escalatorOutOfService :: bool
  g_escalatorPassengerAlarm :: bool
  g_escalatorPowerMode :: bool

definition float_21_5 :: fp where "float_21_5 = FNum False 43 (- 1)"

definition device_init :: device where
  "device_init = \<lparr>outs = outputs_init, elev = elevator_init, created = g_createdAnalogValues_init, ivory_file = ivory_init,
     staged = restore_init, restart_timer = restart_init, g_clockOffsetSeconds = 0, g_analogInput1Value = float_21_5,
     g_liftOutOfService = False, g_liftPassengerAlarm = False, g_escalatorOutOfService = False,
     g_escalatorPassengerAlarm = False, g_escalatorPowerMode = True\<rparr>"

section \<open>The identity strings\<close>

definition APP_NAME :: string where "APP_NAME = ''BACnet B-AEC (Advanced Elevator Controller) Example - C++''"
definition APP_VERSION :: string where "APP_VERSION = ''1.4.0''"
definition DEVICE_NAME :: string where "DEVICE_NAME = ''Chipkin Example B-AEC''"
definition VENDOR_NAME :: string where "VENDOR_NAME = ''Chipkin Automation Systems''"
definition MODEL_NAME :: string where "MODEL_NAME = ''CAS BACnet Stack Example - B-AEC''"
definition FILE_TYPE :: string where "FILE_TYPE = ''application/octet-stream''"

definition DEVICE_DESCRIPTION :: string where
  "DEVICE_DESCRIPTION =
     ''Chipkin CAS BACnet Stack example - B-AEC (Advanced Elevator Controller) profile. '' @
     ''Commands three outputs and the landing calls, creates and deletes Analog Values, '' @
     ''keeps an Event Log, runs a Schedule, and backs up and restores its configuration.''"

section \<open>The invariant\<close>

text \<open>
  The commanded values have the type of their object: an Analog Output holds \<open>float\<close>s, a Binary
  Output 0 or 1, a Multi-State Output one of its states.
\<close>

definition slots_ok :: "(fp \<Rightarrow> bool) \<Rightarrow> commandable \<Rightarrow> bool" where
  "slots_ok P c \<longleftrightarrow> command_inv c \<and> (\<forall>p v. slot_of c p = Some v \<longrightarrow> P v) \<and> P (relinquishDefault c)"

definition binary_value :: "fp \<Rightarrow> bool" where
  "binary_value v \<longleftrightarrow> v = f64_of_u32 0 \<or> v = f64_of_u32 1"

definition state_value :: "fp \<Rightarrow> bool" where
  "state_value v \<longleftrightarrow> v = f64_of_u32 1 \<or> v = f64_of_u32 2 \<or> v = f64_of_u32 3"

definition outputs_inv :: "outputs \<Rightarrow> bool" where
  "outputs_inv o' \<longleftrightarrow> slots_ok is_f32 (g_analogOutput o') \<and> slots_ok binary_value (g_binaryOutput o') \<and>
     slots_ok state_value (g_multiStateOutput o')"

definition values_f32 :: "av_table \<Rightarrow> bool" where
  "values_f32 t \<longleftrightarrow> list_all (\<lambda>av. is_f32 (presentValue av)) t"

definition device_inv :: "device \<Rightarrow> bool" where
  "device_inv st \<longleftrightarrow> outputs_inv (outs st) \<and> car_inv (g_liftCar (elev st)) \<and> av_inv (created st) \<and> values_f32 (created st) \<and>
     ivory_inv (ivory_file st) \<and> restore_inv (staged st) \<and> list_all staged_ok (restored (staged st)) \<and> is_f32 (g_analogInput1Value st)"

lemma f32_small: "is_f32 (f64_of_u32 20)" "is_f32 float_21_5" "is_f32 float_zero"
  using bitlen_in [of 5 3] bitlen_in [of 43 6]
  by (simp_all add: f64_of_u32_def fp_make_def odd_norm.simps binary32_def float_21_5_def float_zero_def)

lemma slots_ok_write:
  assumes "slots_ok P c" "P v"
  shows "slots_ok P (CommandWrite p v c)"
  using assms slot_of_write [of c p v] command_inv_ops(1) [of c p v] priority_array.fallback_write [of p v c]
  by (auto simp: slots_ok_def)

lemma slots_ok_relinquish:
  assumes "slots_ok P c"
  shows "slots_ok P (CommandRelinquish p c)"
  using assms slot_of_relinquish [of c p] command_inv_ops(2) [of c p] priority_array.fallback_relinquish [of p c]
  by (auto simp: slots_ok_def)

lemma slots_ok_init: "P d \<Longrightarrow> slots_ok P (commandable_init d)"
  by (simp add: slots_ok_def commandable_init_slots) (simp add: commandable_init_def)

lemma device_inv_init: "device_inv device_init"
proof -
  have "outputs_inv outputs_init"
    using f32_small(1) by (simp add: outputs_inv_def outputs_init_def slots_ok_init binary_value_def state_value_def)
  moreover have "values_f32 g_createdAnalogValues_init"
    using f32_small(3) by (simp add: values_f32_def g_createdAnalogValues_init_def list_all_iff)
  moreover have "list_all staged_ok (restored restore_init)" by (simp add: restored_def restore_init_def)
  moreover have "car_inv (g_liftCar elevator_init)" by (simp add: elevator_init_def car_inv_init)
  ultimately show ?thesis
    using f32_small av_inv_init(1) ivory_inv_init restore_inv_init by (simp add: device_inv_def device_init_def)
qed

lemma device_invD:
  assumes "device_inv st"
  shows "slots_ok is_f32 (g_analogOutput (outs st))" "slots_ok binary_value (g_binaryOutput (outs st))"
    "slots_ok state_value (g_multiStateOutput (outs st))" "car_inv (g_liftCar (elev st))" "av_inv (created st)"
    "values_f32 (created st)" "ivory_inv (ivory_file st)" "restore_inv (staged st)" "is_f32 (g_analogInput1Value st)"
  using assms by (auto simp: device_inv_def outputs_inv_def)

end
