(* ===== verification/Property_Read.thy ===== *)
theory Property_Read
  imports Application
begin

text \<open>
  The property "get" callbacks of \<open>main.cpp\<close> section 2, one definition per callback, with the
  branches in the code's order. \<open>Inr v\<close> answers \<open>v\<close>; \<open>Inl e\<close> declines with \<open>*errorCode = e\<close>, where
  \<open>decline\<close> is a return of false that leaves the preset success code, so that the stack falls back
  to its own handling. The conversion of a commanded value to \<open>uint32_t\<close> is undefined outside its
  range; the callbacks that convert return an option, \<open>None\<close> being that undefined behaviour.
\<close>

abbreviation decline :: "'a callback" where "decline \<equiv> Inl ERROR_CODE_SUCCESS"

section \<open>The callbacks\<close>

definition float_1 :: fp where "float_1 = FNum False 1 0"
definition ANALOG_INPUT_COV_INCREMENT :: fp where "ANALOG_INPUT_COV_INCREMENT = float_1"

definition GetPropertyReal :: "config \<Rightarrow> device \<Rightarrow> u32 \<Rightarrow> u16 \<Rightarrow> u32 \<Rightarrow> u32 \<Rightarrow> bool \<Rightarrow> u32 \<Rightarrow> fp callback" where
  "GetPropertyReal cfg st deviceInstance objectType objectInstance prop useArrayIndex index =
     (let analogValue =
            (if objectType = OBJECT_TYPE_ANALOG_VALUE \<and> prop = PROPERTY_IDENTIFIER_PRESENT_VALUE
             then (case ReadAnalogValue objectInstance (created st) of Some v \<Rightarrow> Inr v | None \<Rightarrow> decline)
             else decline)
      in if deviceInstance \<noteq> g_deviceInstance cfg then decline
         else if objectType = OBJECT_TYPE_ANALOG_INPUT \<and> objectInstance = ANALOG_INPUT_INSTANCE \<and>
                 prop = PROPERTY_IDENTIFIER_PRESENT_VALUE then Inr (g_analogInput1Value st)
         else if objectType = OBJECT_TYPE_ANALOG_INPUT \<and> objectInstance = ANALOG_INPUT_INSTANCE \<and>
                 prop = PROPERTY_IDENTIFIER_COV_INCREMENT then Inr ANALOG_INPUT_COV_INCREMENT
         else (case GetCommandable objectType objectInstance of
             None \<Rightarrow> analogValue
           | Some ref \<Rightarrow>
               (let c = deref ref (outs st)
                in if objectType \<noteq> OBJECT_TYPE_ANALOG_OUTPUT then analogValue
                   else (case ReadPrioritySlot c prop useArrayIndex index of
                       Some (slotIsSet, slotValue) \<Rightarrow> if \<not> slotIsSet then decline else Inr (f32_of_f64 slotValue)
                     | None \<Rightarrow>
                         if prop = PROPERTY_IDENTIFIER_RELINQUISH_DEFAULT then Inr (f32_of_f64 (relinquishDefault c))
                         else analogValue))))"

text \<open>\<open>*value = (uint32_t)d; return true\<close>.\<close>

definition answer_u32 :: "fp \<Rightarrow> u32 callback option" where
  "answer_u32 d = map_option Inr (u32_of_f64 d)"

text \<open>The branches of \<open>GetPropertyEnumerated\<close> after the one for the Binary Output.\<close>

definition enumerated_rest :: "device \<Rightarrow> u16 \<Rightarrow> u32 \<Rightarrow> u32 \<Rightarrow> bool \<Rightarrow> u32 \<Rightarrow> u32 callback" where
  "enumerated_rest st objectType objectInstance prop useArrayIndex index =
     (if prop = PROPERTY_IDENTIFIER_UNITS \<and>
         (objectType = OBJECT_TYPE_ANALOG_INPUT \<and> objectInstance = ANALOG_INPUT_INSTANCE \<or>
          objectType = OBJECT_TYPE_ANALOG_OUTPUT \<and> objectInstance = ANALOG_OUTPUT_INSTANCE)
      then Inr ENGINEERING_UNITS_DEGREES_CELSIUS
      else if objectType = OBJECT_TYPE_NETWORK_PORT \<and> objectInstance = NETWORK_PORT_INSTANCE \<and>
              prop = PROPERTY_IDENTIFIER_BACNET_IP_MODE then Inr BACNET_IP_MODE_NORMAL
      else if objectType = OBJECT_TYPE_ELEVATOR_GROUP \<and> objectInstance = ELEVATOR_GROUP_INSTANCE \<and>
              prop = PROPERTY_IDENTIFIER_GROUP_MODE then Inr LIFT_GROUP_MODE_NORMAL
      else if objectType = OBJECT_TYPE_LIFT \<and> objectInstance = LIFT_INSTANCE \<and>
              prop = PROPERTY_IDENTIFIER_CAR_MOVING_DIRECTION then Inr (movingDirection (g_liftCar (elev st)))
      else if objectType = OBJECT_TYPE_LIFT \<and> objectInstance = LIFT_INSTANCE \<and>
              prop = PROPERTY_IDENTIFIER_CAR_DOOR_STATUS \<and> useArrayIndex \<and> 1 \<le> index \<and> index \<le> LIFT_NUMBER_OF_DOORS
      then Inr (doorStatus (g_liftCar (elev st)))
      else if objectType = OBJECT_TYPE_ESCALATOR \<and> objectInstance = ESCALATOR_INSTANCE \<and>
              prop = PROPERTY_IDENTIFIER_OPERATION_DIRECTION then Inr ESCALATOR_OPERATION_DIRECTION_UP_RATED_SPEED
      else if objectType = OBJECT_TYPE_ESCALATOR \<and> objectInstance = ESCALATOR_INSTANCE \<and>
              prop = PROPERTY_IDENTIFIER_ESCALATOR_MODE then Inr ESCALATOR_MODE_UP
      else decline)"

definition GetPropertyEnumerated ::
  "config \<Rightarrow> device \<Rightarrow> u32 \<Rightarrow> u16 \<Rightarrow> u32 \<Rightarrow> u32 \<Rightarrow> bool \<Rightarrow> u32 \<Rightarrow> u32 callback option" where
  "GetPropertyEnumerated cfg st deviceInstance objectType objectInstance prop useArrayIndex index =
     (let rest = Some (enumerated_rest st objectType objectInstance prop useArrayIndex index)
      in if deviceInstance \<noteq> g_deviceInstance cfg then Some decline
         else if objectType = OBJECT_TYPE_BINARY_INPUT \<and> objectInstance = BINARY_INPUT_INSTANCE \<and>
                 prop = PROPERTY_IDENTIFIER_PRESENT_VALUE then Some (Inr 1)
         else if objectType = OBJECT_TYPE_BINARY_INPUT \<and> objectInstance = BINARY_INPUT_INSTANCE \<and>
                 prop = PROPERTY_IDENTIFIER_POLARITY then Some (Inr POLARITY_NORMAL)
         else (case GetCommandable objectType objectInstance of
             None \<Rightarrow> rest
           | Some ref \<Rightarrow>
               (let c = deref ref (outs st)
                in if objectType \<noteq> OBJECT_TYPE_BINARY_OUTPUT then rest
                   else (case ReadPrioritySlot c prop useArrayIndex index of
                       Some (slotIsSet, slotValue) \<Rightarrow> if \<not> slotIsSet then Some decline else answer_u32 slotValue
                     | None \<Rightarrow>
                         if prop = PROPERTY_IDENTIFIER_RELINQUISH_DEFAULT then answer_u32 (relinquishDefault c)
                         else if prop = PROPERTY_IDENTIFIER_POLARITY then Some (Inr POLARITY_NORMAL)
                         else rest))))"

text \<open>The branches of \<open>GetPropertyUnsignedInteger\<close> before and after the one for the Multi-State Output.\<close>

definition unsigned_first :: "config \<Rightarrow> device \<Rightarrow> u16 \<Rightarrow> u32 \<Rightarrow> u32 \<Rightarrow> bool \<Rightarrow> u32 \<Rightarrow> u32 option" where
  "unsigned_first cfg st objectType objectInstance prop useArrayIndex index =
     (if objectType = OBJECT_TYPE_MULTI_STATE_INPUT \<and> objectInstance = MULTI_STATE_INPUT_INSTANCE \<and>
         prop = PROPERTY_IDENTIFIER_PRESENT_VALUE then Some 1
      else if objectType = OBJECT_TYPE_MULTI_STATE_INPUT \<and> objectInstance = MULTI_STATE_INPUT_INSTANCE \<and>
              prop = PROPERTY_IDENTIFIER_NUMBER_OF_STATES then Some MULTI_STATE_INPUT_NUMBER_OF_STATES
      else if objectType = OBJECT_TYPE_MULTI_STATE_INPUT \<and> objectInstance = MULTI_STATE_INPUT_INSTANCE \<and>
              prop = PROPERTY_IDENTIFIER_STATE_TEXT \<and> useArrayIndex \<and> index = 0 then Some MULTI_STATE_INPUT_NUMBER_OF_STATES
      else if objectType = OBJECT_TYPE_DEVICE \<and> objectInstance = g_deviceInstance cfg \<and>
              prop = PROPERTY_IDENTIFIER_VENDOR_IDENTIFIER then Some VENDOR_IDENTIFIER
      else if objectType = OBJECT_TYPE_NETWORK_PORT \<and> objectInstance = NETWORK_PORT_INSTANCE \<and>
              prop = PROPERTY_IDENTIFIER_APDU_LENGTH then Some MAX_APDU_LENGTH
      else if objectType = OBJECT_TYPE_NETWORK_PORT \<and> objectInstance = NETWORK_PORT_INSTANCE \<and>
              prop = PROPERTY_IDENTIFIER_REFERENCE_PORT then Some NETWORK_PORT_REFERENCE_PORT_NONE
      else if objectType = OBJECT_TYPE_NETWORK_PORT \<and> objectInstance = NETWORK_PORT_INSTANCE \<and>
              prop = PROPERTY_IDENTIFIER_BACNET_IP_UDP_PORT then Some (ucast (g_bacnetIpUdpPort cfg))
      else if objectType = OBJECT_TYPE_LIFT \<and> objectInstance = LIFT_INSTANCE \<and>
              prop = PROPERTY_IDENTIFIER_CAR_POSITION then Some (ucast (position (g_liftCar (elev st))))
      else if objectType = OBJECT_TYPE_LIFT \<and> objectInstance = LIFT_INSTANCE \<and> useArrayIndex \<and> index = 0 \<and>
              (prop = PROPERTY_IDENTIFIER_CAR_DOOR_STATUS \<or> prop = PROPERTY_IDENTIFIER_ASSIGNED_LANDING_CALLS \<or>
               prop = PROPERTY_IDENTIFIER_REGISTERED_CAR_CALL \<or> prop = PROPERTY_IDENTIFIER_LANDING_DOOR_STATUS)
      then Some LIFT_NUMBER_OF_DOORS
      else if objectType = OBJECT_TYPE_POSITIVE_INTEGER_VALUE \<and> objectInstance = MACHINE_ROOM_ID_INSTANCE \<and>
              prop = PROPERTY_IDENTIFIER_PRESENT_VALUE then Some MACHINE_ROOM_ID_VALUE
      else None)"

definition unsigned_file :: "device \<Rightarrow> u16 \<Rightarrow> u32 \<Rightarrow> u32 \<Rightarrow> u32 callback" where
  "unsigned_file st objectType objectInstance prop =
     (if objectType = OBJECT_TYPE_FILE \<and> objectInstance = FILE_INSTANCE \<and> prop = PROPERTY_IDENTIFIER_FILE_SIZE
      then Inr (g_fileDataLength (ivory_file st)) else decline)"

definition GetPropertyUnsignedInteger ::
  "config \<Rightarrow> device \<Rightarrow> u32 \<Rightarrow> u16 \<Rightarrow> u32 \<Rightarrow> u32 \<Rightarrow> bool \<Rightarrow> u32 \<Rightarrow> u32 callback option" where
  "GetPropertyUnsignedInteger cfg st deviceInstance objectType objectInstance prop useArrayIndex index =
     (let rest = Some (unsigned_file st objectType objectInstance prop)
      in if deviceInstance \<noteq> g_deviceInstance cfg then Some decline
         else (case unsigned_first cfg st objectType objectInstance prop useArrayIndex index of
             Some v \<Rightarrow> Some (Inr v)
           | None \<Rightarrow>
               (case GetCommandable objectType objectInstance of
                  None \<Rightarrow> rest
                | Some ref \<Rightarrow>
                    (let c = deref ref (outs st)
                     in if objectType \<noteq> OBJECT_TYPE_MULTI_STATE_OUTPUT then rest
                        else (case ReadPrioritySlot c prop useArrayIndex index of
                            Some (slotIsSet, slotValue) \<Rightarrow> if \<not> slotIsSet then Some decline else answer_u32 slotValue
                          | None \<Rightarrow>
                              if prop = PROPERTY_IDENTIFIER_RELINQUISH_DEFAULT then answer_u32 (relinquishDefault c)
                              else if prop = PROPERTY_IDENTIFIER_NUMBER_OF_STATES then Some (Inr MULTI_STATE_OUTPUT_NUMBER_OF_STATES)
                              else rest)))))"

definition GetPropertyBool :: "config \<Rightarrow> device \<Rightarrow> u32 \<Rightarrow> u16 \<Rightarrow> u32 \<Rightarrow> u32 \<Rightarrow> bool \<Rightarrow> u32 \<Rightarrow> bool callback" where
  "GetPropertyBool cfg st deviceInstance objectType objectInstance prop useArrayIndex index =
     (if deviceInstance \<noteq> g_deviceInstance cfg then decline
      else if GetCommandable objectType objectInstance \<noteq> None \<and> prop = PROPERTY_IDENTIFIER_PRIORITY_ARRAY \<and>
              useArrayIndex \<and> 1 \<le> index \<and> index \<le> BACNET_PRIORITY_ARRAY_SIZE
      then Inr (\<not> isSet (deref (the (GetCommandable objectType objectInstance)) (outs st)) ! unat (index - 1))
      else if objectType = OBJECT_TYPE_LIFT \<and> objectInstance = LIFT_INSTANCE \<and> prop = PROPERTY_IDENTIFIER_PASSENGER_ALARM
      then Inr (g_liftPassengerAlarm st)
      else if objectType = OBJECT_TYPE_LIFT \<and> objectInstance = LIFT_INSTANCE \<and> prop = PROPERTY_IDENTIFIER_OUT_OF_SERVICE
      then Inr (g_liftOutOfService st)
      else if objectType = OBJECT_TYPE_ESCALATOR \<and> objectInstance = ESCALATOR_INSTANCE \<and> prop = PROPERTY_IDENTIFIER_PASSENGER_ALARM
      then Inr (g_escalatorPassengerAlarm st)
      else if objectType = OBJECT_TYPE_ESCALATOR \<and> objectInstance = ESCALATOR_INSTANCE \<and> prop = PROPERTY_IDENTIFIER_OUT_OF_SERVICE
      then Inr (g_escalatorOutOfService st)
      else if objectType = OBJECT_TYPE_ESCALATOR \<and> objectInstance = ESCALATOR_INSTANCE \<and> prop = PROPERTY_IDENTIFIER_POWER_MODE
      then Inr (g_escalatorPowerMode st)
      else if prop = PROPERTY_IDENTIFIER_OUT_OF_SERVICE \<and>
              (objectType = OBJECT_TYPE_ANALOG_INPUT \<or> objectType = OBJECT_TYPE_BINARY_INPUT \<or>
               objectType = OBJECT_TYPE_MULTI_STATE_INPUT \<or> objectType = OBJECT_TYPE_ANALOG_OUTPUT \<or>
               objectType = OBJECT_TYPE_BINARY_OUTPUT \<or> objectType = OBJECT_TYPE_MULTI_STATE_OUTPUT \<or>
               objectType = OBJECT_TYPE_NETWORK_PORT \<or> objectType = OBJECT_TYPE_SCHEDULE)
      then Inr False
      else if objectType = OBJECT_TYPE_CALENDAR \<and> objectInstance = CALENDAR_INSTANCE \<and> prop = PROPERTY_IDENTIFIER_PRESENT_VALUE
      then Inr False
      else if objectType = OBJECT_TYPE_FILE \<and> objectInstance = FILE_INSTANCE \<and> prop = PROPERTY_IDENTIFIER_ARCHIVE
      then Inr (g_fileArchive (ivory_file st))
      else if objectType = OBJECT_TYPE_FILE \<and> objectInstance = FILE_INSTANCE \<and> prop = PROPERTY_IDENTIFIER_READ_ONLY
      then Inr False
      else decline)"

definition GetPropertyOctetString :: "config \<Rightarrow> u32 \<Rightarrow> u16 \<Rightarrow> u32 \<Rightarrow> u32 \<Rightarrow> u32 \<Rightarrow> u8 list callback" where
  "GetPropertyOctetString cfg deviceInstance objectType objectInstance prop maxElementCount =
     (if deviceInstance \<noteq> g_deviceInstance cfg \<or> objectType \<noteq> OBJECT_TYPE_NETWORK_PORT \<or>
         objectInstance \<noteq> NETWORK_PORT_INSTANCE \<or> maxElementCount < 4 then decline
      else if prop = PROPERTY_IDENTIFIER_IP_ADDRESS then Inr (take 4 (g_ipAddress cfg))
      else if prop = PROPERTY_IDENTIFIER_IP_SUBNET_MASK then Inr (take 4 (g_ipSubnetMask cfg))
      else if prop = PROPERTY_IDENTIFIER_IP_DEFAULT_GATEWAY then Inr (take 4 (g_ipDefaultGateway cfg))
      else decline)"

section \<open>Character strings\<close>

text \<open>The octets copied to the stack's buffer and their encoding. \<open>tx\<close> is a C string: its characters before the zero.\<close>

definition ReturnCharacterString :: "string \<Rightarrow> u32 \<Rightarrow> (string \<times> u8) callback" where
  "ReturnCharacterString tx maxElementCount =
     (let len = (word_of_nat (length tx) :: u32);
          len' = (if 0 < maxElementCount \<and> maxElementCount \<le> len then maxElementCount - 1 else len)
      in Inr (take (unat len') tx, CHARACTER_STRING_ENCODING_UTF8))"

text \<open>\<open>Object_Name\<close>: the name of each object, in the order of the code's tests.\<close>

definition object_name :: "config \<Rightarrow> u16 \<Rightarrow> u32 \<Rightarrow> string option" where
  "object_name cfg objectType objectInstance =
     (if objectType = OBJECT_TYPE_DEVICE \<and> objectInstance = g_deviceInstance cfg then Some (g_deviceName cfg)
      else if objectType = OBJECT_TYPE_ANALOG_INPUT \<and> objectInstance = ANALOG_INPUT_INSTANCE then Some ''Bronze''
      else if objectType = OBJECT_TYPE_BINARY_INPUT \<and> objectInstance = BINARY_INPUT_INSTANCE then Some ''Emerald''
      else if objectType = OBJECT_TYPE_MULTI_STATE_INPUT \<and> objectInstance = MULTI_STATE_INPUT_INSTANCE then Some ''Hot Pink''
      else if objectType = OBJECT_TYPE_ANALOG_OUTPUT \<and> objectInstance = ANALOG_OUTPUT_INSTANCE then Some ''Chartreuse''
      else if objectType = OBJECT_TYPE_BINARY_OUTPUT \<and> objectInstance = BINARY_OUTPUT_INSTANCE then Some ''Fuchsia''
      else if objectType = OBJECT_TYPE_MULTI_STATE_OUTPUT \<and> objectInstance = MULTI_STATE_OUTPUT_INSTANCE then Some ''Indigo''
      else if objectType = OBJECT_TYPE_NETWORK_PORT \<and> objectInstance = NETWORK_PORT_INSTANCE then Some ''Vermilion''
      else if objectType = OBJECT_TYPE_ELEVATOR_GROUP \<and> objectInstance = ELEVATOR_GROUP_INSTANCE then Some ''Maroon''
      else if objectType = OBJECT_TYPE_LIFT \<and> objectInstance = LIFT_INSTANCE then Some ''Mauve''
      else if objectType = OBJECT_TYPE_ESCALATOR \<and> objectInstance = ESCALATOR_INSTANCE then Some ''Mint''
      else if objectType = OBJECT_TYPE_POSITIVE_INTEGER_VALUE \<and> objectInstance = MACHINE_ROOM_ID_INSTANCE then Some ''Turquoise''
      else if objectType = OBJECT_TYPE_NOTIFICATION_CLASS \<and> objectInstance = NOTIFICATION_CLASS_INSTANCE then Some ''Crimson''
      else if objectType = OBJECT_TYPE_EVENT_LOG \<and> objectInstance = EVENT_LOG_INSTANCE then Some ''Beige''
      else if objectType = OBJECT_TYPE_SCHEDULE \<and> objectInstance = SCHEDULE_INSTANCE then Some ''Saffron''
      else if objectType = OBJECT_TYPE_CALENDAR \<and> objectInstance = CALENDAR_INSTANCE then Some ''Cream''
      else if objectType = OBJECT_TYPE_FILE \<and> objectInstance = FILE_INSTANCE then Some ''Ivory''
      else None)"

definition stateText :: "string list" where
  "stateText = [''On'', ''Off'', ''Auto'']"

text \<open>The strings of the Device object.\<close>

definition device_text :: "config \<Rightarrow> u32 \<Rightarrow> string option" where
  "device_text cfg prop =
     (if prop = PROPERTY_IDENTIFIER_DESCRIPTION then Some DEVICE_DESCRIPTION
      else if prop = PROPERTY_IDENTIFIER_VENDOR_NAME then Some VENDOR_NAME
      else if prop = PROPERTY_IDENTIFIER_MODEL_NAME then Some MODEL_NAME
      else if prop = PROPERTY_IDENTIFIER_FIRMWARE_REVISION then Some (g_firmwareRevision cfg)
      else if prop = PROPERTY_IDENTIFIER_APPLICATION_SOFTWARE_VERSION then Some APP_VERSION
      else None)"

definition GetPropertyCharString :: "config \<Rightarrow> u32 \<Rightarrow> u16 \<Rightarrow> u32 \<Rightarrow> u32 \<Rightarrow> u32 \<Rightarrow> bool \<Rightarrow> u32 \<Rightarrow> (string \<times> u8) callback" where
  "GetPropertyCharString cfg deviceInstance objectType objectInstance prop maxElementCount useArrayIndex index =
     (let deviceStrings =
            (if objectType = OBJECT_TYPE_DEVICE \<and> objectInstance = g_deviceInstance cfg
             then (case device_text cfg prop of Some tx \<Rightarrow> ReturnCharacterString tx maxElementCount | None \<Rightarrow> decline)
             else decline)
      in if deviceInstance \<noteq> g_deviceInstance cfg then decline
         else if objectType = OBJECT_TYPE_FILE \<and> objectInstance = FILE_INSTANCE \<and> prop = PROPERTY_IDENTIFIER_FILE_TYPE
         then ReturnCharacterString FILE_TYPE maxElementCount
         else if objectType = OBJECT_TYPE_MULTI_STATE_INPUT \<and> objectInstance = MULTI_STATE_INPUT_INSTANCE \<and>
                 prop = PROPERTY_IDENTIFIER_STATE_TEXT \<and> useArrayIndex
         then (if 1 \<le> index \<and> index \<le> MULTI_STATE_INPUT_NUMBER_OF_STATES
               then ReturnCharacterString (stateText ! unat (index - 1)) maxElementCount
               else Inl ERROR_CODE_INVALID_ARRAY_INDEX)
         else if prop = PROPERTY_IDENTIFIER_OBJECT_NAME
         then (case object_name cfg objectType objectInstance of
             Some tx \<Rightarrow> ReturnCharacterString tx maxElementCount
           | None \<Rightarrow> deviceStrings)
         else deviceStrings)"

section \<open>Reading commanded values\<close>

lemma answer_u32_of: "answer_u32 (f64_of_u32 w) = Some (Inr w)"
  by (simp add: answer_u32_def u32_of_f64_of_u32)

lemma binary_answer: "binary_value v \<Longrightarrow> \<exists>w \<le> 1. answer_u32 v = Some (Inr w)"
  by (auto simp: binary_value_def answer_u32_of)

lemma state_answer: "state_value v \<Longrightarrow> \<exists>w. 1 \<le> w \<and> w \<le> 3 \<and> answer_u32 v = Some (Inr w)"
  by (auto simp: state_value_def answer_u32_of)

lemma slot_ok:
  assumes "slots_ok P c" "ReadPrioritySlot c prop b i = Some (True, v)"
  shows "P v"
proof -
  have i: "prop = PROPERTY_IDENTIFIER_PRIORITY_ARRAY" "b" "1 \<le> i" "i \<le> 16" "isSet c ! unat (i - 1)" "v = slotValues c ! unat (i - 1)"
    using assms(2) by (auto simp: ReadPrioritySlot_def one_le_word_iff not_less split: if_splits)
  then have "unat (i - 1) = unat i - 1" "1 \<le> unat i" "unat i \<le> 16" by unat_arith+
  then have "slot_of c (unat i) = Some v" using i by (simp add: slot_of_def)
  then show ?thesis using assms(1) by (simp add: slots_ok_def)
qed

lemma GetCommandable_ref:
  "GetCommandable ot oi = Some ref \<Longrightarrow> ot = OBJECT_TYPE_BINARY_OUTPUT \<Longrightarrow> ref = BinaryOutput"
  "GetCommandable ot oi = Some ref \<Longrightarrow> ot = OBJECT_TYPE_MULTI_STATE_OUTPUT \<Longrightarrow> ref = MultiStateOutput"
  "GetCommandable ot oi = Some ref \<Longrightarrow> ot = OBJECT_TYPE_ANALOG_OUTPUT \<Longrightarrow> ref = AnalogOutput"
  by (auto simp: GetCommandable_def split: if_splits)

lemma binary_slot_answer:
  "slots_ok binary_value c \<Longrightarrow> ReadPrioritySlot c p b i = Some (True, v) \<Longrightarrow> \<exists>w \<le> 1. answer_u32 v = Some (Inr w)"
  using slot_ok binary_answer by blast

lemma state_slot_answer:
  "slots_ok state_value c \<Longrightarrow> ReadPrioritySlot c p b i = Some (True, v) \<Longrightarrow> \<exists>w. 1 \<le> w \<and> w \<le> 3 \<and> answer_u32 v = Some (Inr w)"
  using slot_ok state_answer by blast

text \<open>No conversion is undefined.\<close>

lemma conversions_defined:
  assumes "device_inv st"
  shows "GetPropertyEnumerated cfg st di ot oi prop b i \<noteq> None" "GetPropertyUnsignedInteger cfg st di ot oi prop b i \<noteq> None"
proof -
  note D = device_invD [OF assms]
  have d: "answer_u32 (relinquishDefault (g_binaryOutput (outs st))) \<noteq> None" "answer_u32 (relinquishDefault (g_multiStateOutput (outs st))) \<noteq> None"
    using D(2,3) binary_answer state_answer unfolding slots_ok_def by force+
  show "GetPropertyEnumerated cfg st di ot oi prop b i \<noteq> None"
  proof (cases "ot = OBJECT_TYPE_BINARY_OUTPUT \<and> GetCommandable ot oi \<noteq> None")
    case True
    then have "GetCommandable ot oi = Some BinaryOutput" using GetCommandable_ref(1) by blast
    with True binary_slot_answer [OF D(2)] d(1) show ?thesis by (fastforce simp: GetPropertyEnumerated_def Let_def split: option.splits)
  qed (auto simp: GetPropertyEnumerated_def Let_def split: option.split)
  show "GetPropertyUnsignedInteger cfg st di ot oi prop b i \<noteq> None"
  proof (cases "ot = OBJECT_TYPE_MULTI_STATE_OUTPUT \<and> GetCommandable ot oi \<noteq> None")
    case True
    then have "GetCommandable ot oi = Some MultiStateOutput" using GetCommandable_ref(2) by blast
    with True state_slot_answer [OF D(3)] d(2) show ?thesis by (fastforce simp: GetPropertyUnsignedInteger_def Let_def split: option.splits)
  qed (auto simp: GetPropertyUnsignedInteger_def Let_def split: option.split)
qed

section \<open>Properties\<close>


definition cfg0 :: config where
  "cfg0 = \<lparr>g_deviceInstance = 389014, g_deviceName = DEVICE_NAME, g_firmwareRevision = ''6.0.23.0'', g_dccPassword = [],
     g_ipAddress = [192, 168, 1, 5], g_ipSubnetMask = [255, 255, 255, 0], g_ipDefaultGateway = [0, 0, 0, 0], g_bacnetIpUdpPort = 47808\<rparr>"


text \<open>
  What the stack cannot default is always served: in every state, this device answers the
  Lift's position, direction, door, alarm and service state, the Escalator's, the machine room
  identifier, the file's properties and the Network Port's addressing.
\<close>

lemma required_properties_served:
  "let dev = g_deviceInstance cfg; uns = \<lambda>ot p b i. GetPropertyUnsignedInteger cfg st dev ot 1 p b i;
       enu = \<lambda>ot p b i. GetPropertyEnumerated cfg st dev ot 1 p b i; boo = \<lambda>ot p. GetPropertyBool cfg st dev ot 1 p False 0 in
   uns OBJECT_TYPE_LIFT PROPERTY_IDENTIFIER_CAR_POSITION False 0 = Some (Inr (ucast (position (g_liftCar (elev st))))) \<and>
   enu OBJECT_TYPE_LIFT PROPERTY_IDENTIFIER_CAR_MOVING_DIRECTION False 0 = Some (Inr (movingDirection (g_liftCar (elev st)))) \<and>
   uns OBJECT_TYPE_LIFT PROPERTY_IDENTIFIER_CAR_DOOR_STATUS True 0 = Some (Inr 1) \<and>
   enu OBJECT_TYPE_LIFT PROPERTY_IDENTIFIER_CAR_DOOR_STATUS True 1 = Some (Inr (doorStatus (g_liftCar (elev st)))) \<and>
   boo OBJECT_TYPE_LIFT PROPERTY_IDENTIFIER_PASSENGER_ALARM = Inr (g_liftPassengerAlarm st) \<and>
   boo OBJECT_TYPE_LIFT PROPERTY_IDENTIFIER_OUT_OF_SERVICE = Inr (g_liftOutOfService st) \<and>
   enu OBJECT_TYPE_ESCALATOR PROPERTY_IDENTIFIER_OPERATION_DIRECTION False 0 = Some (Inr ESCALATOR_OPERATION_DIRECTION_UP_RATED_SPEED) \<and>
   boo OBJECT_TYPE_ESCALATOR PROPERTY_IDENTIFIER_PASSENGER_ALARM = Inr (g_escalatorPassengerAlarm st) \<and>
   uns OBJECT_TYPE_POSITIVE_INTEGER_VALUE PROPERTY_IDENTIFIER_PRESENT_VALUE False 0 = Some (Inr MACHINE_ROOM_ID_VALUE) \<and>
   uns OBJECT_TYPE_FILE PROPERTY_IDENTIFIER_FILE_SIZE False 0 = Some (Inr (g_fileDataLength (ivory_file st))) \<and>
   boo OBJECT_TYPE_FILE PROPERTY_IDENTIFIER_ARCHIVE = Inr (g_fileArchive (ivory_file st)) \<and>
   boo OBJECT_TYPE_FILE PROPERTY_IDENTIFIER_READ_ONLY = Inr False \<and>
   uns OBJECT_TYPE_NETWORK_PORT PROPERTY_IDENTIFIER_APDU_LENGTH False 0 = Some (Inr MAX_APDU_LENGTH) \<and>
   GetPropertyOctetString cfg dev OBJECT_TYPE_NETWORK_PORT 1 PROPERTY_IDENTIFIER_IP_ADDRESS 4 = Inr (take 4 (g_ipAddress cfg))"
  unfolding Let_def
  by (intro conjI; simp add: GetPropertyUnsignedInteger_def unsigned_first_def unsigned_file_def GetPropertyEnumerated_def
      enumerated_rest_def GetPropertyBool_def GetPropertyOctetString_def GetCommandable_def Let_def)

text \<open>
  A character string is never longer than the stack holds: with a buffer of \<open>n > 0\<close> octets the
  answer is the longest prefix of the value that has fewer than \<open>n\<close> octets, so the whole value when
  it fits.
\<close>

lemma character_string_fits:
  assumes "0 < n" "length tx < 2 ^ 32"
  shows "ReturnCharacterString tx n = Inr (take (unat n - 1) tx, CHARACTER_STRING_ENCODING_UTF8)"
proof -
  have len: "unat (word_of_nat (length tx) :: u32) = length tx" using assms(2) by (simp add: unsigned_of_nat take_bit_nat_eq_self)
  have "unat (n - 1) = unat n - 1" using assms(1) by unat_arith
  moreover have "take (length tx) tx = take (unat n - 1) tx" if "\<not> n \<le> word_of_nat (length tx)"
    using that len by (simp add: word_le_nat_alt)
  ultimately show ?thesis using assms(1) len by (simp add: ReturnCharacterString_def Let_def)
qed

lemma character_string_fits_example: "ReturnCharacterString ''Chartreuse'' 6 = Inr (''Chart'', CHARACTER_STRING_ENCODING_UTF8)"
  using character_string_fits [of 6 "''Chartreuse''"] by simp

definition named_objects :: "u32 \<Rightarrow> (u16 \<times> u32) list" where
  "named_objects dev = (OBJECT_TYPE_DEVICE, dev) # map (\<lambda>ot. (ot, 1))
     [OBJECT_TYPE_ANALOG_INPUT, OBJECT_TYPE_BINARY_INPUT, OBJECT_TYPE_MULTI_STATE_INPUT, OBJECT_TYPE_ANALOG_OUTPUT,
      OBJECT_TYPE_BINARY_OUTPUT, OBJECT_TYPE_MULTI_STATE_OUTPUT, OBJECT_TYPE_NETWORK_PORT, OBJECT_TYPE_ELEVATOR_GROUP,
      OBJECT_TYPE_LIFT, OBJECT_TYPE_ESCALATOR, OBJECT_TYPE_POSITIVE_INTEGER_VALUE, OBJECT_TYPE_NOTIFICATION_CLASS,
      OBJECT_TYPE_EVENT_LOG, OBJECT_TYPE_SCHEDULE, OBJECT_TYPE_CALENDAR, OBJECT_TYPE_FILE]"

definition colour_names :: "string list" where
  "colour_names = [''Bronze'', ''Emerald'', ''Hot Pink'', ''Chartreuse'', ''Fuchsia'', ''Indigo'', ''Vermilion'', ''Maroon'', ''Mauve'',
     ''Mint'', ''Turquoise'', ''Crimson'', ''Beige'', ''Saffron'', ''Cream'', ''Ivory'']"

lemma object_names: "map (\<lambda>(ot, oi). object_name cfg ot oi) (named_objects (g_deviceInstance cfg)) = map Some (g_deviceName cfg # colour_names)"
  by (simp add: named_objects_def object_name_def colour_names_def)

text \<open>
  No two objects answer the same \<open>Object_Name\<close> (provided the configured device name is not one
  of the colours): the seventeen objects of the device have seventeen different names, and every
  other object is declined.
\<close>

lemma object_names_unique:
  assumes "g_deviceName cfg \<notin> set colour_names"
  shows "distinct (map (\<lambda>(ot, oi). object_name cfg ot oi) (named_objects (g_deviceInstance cfg))) \<and>
    (\<forall>ot oi. object_name cfg ot oi = None \<longleftrightarrow> (ot, oi) \<notin> set (named_objects (g_deviceInstance cfg)))"
proof
  have "distinct colour_names" by (simp add: colour_names_def)
  with assms have "distinct (map Some (g_deviceName cfg # colour_names))" by (auto simp: distinct_map)
  then show "distinct (map (\<lambda>(ot, oi). object_name cfg ot oi) (named_objects (g_deviceInstance cfg)))"
    unfolding object_names .
  show "\<forall>ot oi. object_name cfg ot oi = None \<longleftrightarrow> (ot, oi) \<notin> set (named_objects (g_deviceInstance cfg))"
    by (auto simp: object_name_def named_objects_def)
qed

lemma object_names_unique_example:
  "distinct (map (\<lambda>(ot, oi). object_name cfg0 ot oi) (named_objects 389014))"
  using object_names_unique [of cfg0] by (simp add: cfg0_def DEVICE_NAME_def colour_names_def)

end
