(* ===== verification/Property_Write.thy ===== *)
theory Property_Write
  imports Property_Read
begin

text \<open>
  The property "set" callbacks of \<open>main.cpp\<close> section 2e. \<open>Inr st\<close> is an accepted write with the
  new state, \<open>Inl e\<close> a refusal with \<open>*errorCode = e\<close> that changes nothing. The properties relate a
  write to the reads that follow it.
\<close>

section \<open>The callbacks\<close>

definition SetPropertyReal :: "config \<Rightarrow> device \<Rightarrow> u32 \<Rightarrow> u16 \<Rightarrow> u32 \<Rightarrow> u32 \<Rightarrow> fp \<Rightarrow> u8 \<Rightarrow> device callback" where
  "SetPropertyReal cfg st deviceInstance objectType objectInstance prop value priority =
     (if deviceInstance \<noteq> g_deviceInstance cfg then decline
      else if GetCommandable objectType objectInstance \<noteq> None \<and> objectType = OBJECT_TYPE_ANALOG_OUTPUT \<and>
              prop = PROPERTY_IDENTIFIER_PRESENT_VALUE
      then Inr (st\<lparr>outs := update_ref (the (GetCommandable objectType objectInstance)) (CommandWrite priority (f64_of_f32 value)) (outs st)\<rparr>)
      else if objectType = OBJECT_TYPE_ANALOG_VALUE \<and> prop = PROPERTY_IDENTIFIER_PRESENT_VALUE
      then (case WriteAnalogValue objectInstance value (created st) of
          Some t \<Rightarrow> Inr (st\<lparr>created := t\<rparr>)
        | None \<Rightarrow> decline)
      else decline)"

definition SetPropertyEnumerated :: "config \<Rightarrow> device \<Rightarrow> u32 \<Rightarrow> u16 \<Rightarrow> u32 \<Rightarrow> u32 \<Rightarrow> u32 \<Rightarrow> u8 \<Rightarrow> device callback" where
  "SetPropertyEnumerated cfg st deviceInstance objectType objectInstance prop value priority =
     (if deviceInstance \<noteq> g_deviceInstance cfg then decline
      else if GetCommandable objectType objectInstance \<noteq> None \<and> objectType = OBJECT_TYPE_BINARY_OUTPUT \<and>
              prop = PROPERTY_IDENTIFIER_PRESENT_VALUE
      then (if 1 < value then Inl ERROR_CODE_VALUE_OUT_OF_RANGE
            else Inr (st\<lparr>outs := update_ref (the (GetCommandable objectType objectInstance)) (CommandWrite priority (f64_of_u32 value)) (outs st)\<rparr>))
      else decline)"

definition SetPropertyUnsignedInteger ::
  "(int \<Rightarrow> tm option) \<Rightarrow> int \<Rightarrow> config \<Rightarrow> device \<Rightarrow> u32 \<Rightarrow> u16 \<Rightarrow> u32 \<Rightarrow> u32 \<Rightarrow> u32 \<Rightarrow> u8 \<Rightarrow> device callback" where
  "SetPropertyUnsignedInteger localtime now cfg st deviceInstance objectType objectInstance prop value priority =
     (if deviceInstance \<noteq> g_deviceInstance cfg then decline
      else if GetCommandable objectType objectInstance \<noteq> None \<and> objectType = OBJECT_TYPE_MULTI_STATE_OUTPUT \<and>
              prop = PROPERTY_IDENTIFIER_PRESENT_VALUE
      then (if value < 1 \<or> MULTI_STATE_OUTPUT_NUMBER_OF_STATES < value then Inl ERROR_CODE_VALUE_OUT_OF_RANGE
            else Inr (st\<lparr>outs := update_ref (the (GetCommandable objectType objectInstance)) (CommandWrite priority (f64_of_u32 value)) (outs st)\<rparr>))
      else if objectType = OBJECT_TYPE_FILE \<and> objectInstance = FILE_INSTANCE \<and> prop = PROPERTY_IDENTIFIER_FILE_SIZE
      then (case SetIvoryFileSize localtime now (g_clockOffsetSeconds st) value (ivory_file st) of
          Inl e \<Rightarrow> Inl e
        | Inr f \<Rightarrow> Inr (st\<lparr>ivory_file := f\<rparr>))
      else decline)"

definition SetPropertyBool :: "config \<Rightarrow> device \<Rightarrow> u32 \<Rightarrow> u16 \<Rightarrow> u32 \<Rightarrow> u32 \<Rightarrow> bool \<Rightarrow> device callback" where
  "SetPropertyBool cfg st deviceInstance objectType objectInstance prop value =
     (if deviceInstance \<noteq> g_deviceInstance cfg \<or> objectType \<noteq> OBJECT_TYPE_FILE \<or> objectInstance \<noteq> FILE_INSTANCE \<or>
         prop \<noteq> PROPERTY_IDENTIFIER_ARCHIVE then decline
      else Inr (st\<lparr>ivory_file := (ivory_file st)\<lparr>g_fileArchive := value\<rparr>\<rparr>))"

definition SetPropertyNull :: "config \<Rightarrow> device \<Rightarrow> u32 \<Rightarrow> u16 \<Rightarrow> u32 \<Rightarrow> u32 \<Rightarrow> u8 \<Rightarrow> device callback" where
  "SetPropertyNull cfg st deviceInstance objectType objectInstance prop priority =
     (if deviceInstance \<noteq> g_deviceInstance cfg then decline
      else if GetCommandable objectType objectInstance \<noteq> None \<and> prop = PROPERTY_IDENTIFIER_PRESENT_VALUE
      then Inr (st\<lparr>outs := update_ref (the (GetCommandable objectType objectInstance)) (CommandRelinquish priority) (outs st)\<rparr>)
      else decline)"

section \<open>The invariant is kept\<close>

lemma GetCommandable_cases:
  "GetCommandable OBJECT_TYPE_ANALOG_OUTPUT i = (if i = ANALOG_OUTPUT_INSTANCE then Some AnalogOutput else None)"
  "GetCommandable OBJECT_TYPE_BINARY_OUTPUT i = (if i = BINARY_OUTPUT_INSTANCE then Some BinaryOutput else None)"
  "GetCommandable OBJECT_TYPE_MULTI_STATE_OUTPUT i = (if i = MULTI_STATE_OUTPUT_INSTANCE then Some MultiStateOutput else None)"
  by (simp_all add: GetCommandable_def)

lemma device_inv_outs: "device_inv st \<Longrightarrow> outputs_inv o' \<Longrightarrow> device_inv (st\<lparr>outs := o'\<rparr>)"
  by (simp add: device_inv_def)

lemma outputs_inv_update:
  "outputs_inv o' \<Longrightarrow> is_f32 v \<Longrightarrow> outputs_inv (update_ref AnalogOutput (CommandWrite p v) o')"
  "outputs_inv o' \<Longrightarrow> binary_value v \<Longrightarrow> outputs_inv (update_ref BinaryOutput (CommandWrite p v) o')"
  "outputs_inv o' \<Longrightarrow> state_value v \<Longrightarrow> outputs_inv (update_ref MultiStateOutput (CommandWrite p v) o')"
  "outputs_inv o' \<Longrightarrow> outputs_inv (update_ref ref (CommandRelinquish p) o')"
  by (simp_all add: outputs_inv_def slots_ok_write) (cases ref; simp add: slots_ok_relinquish)

lemma binary_value_ok: "\<not> 1 < w \<Longrightarrow> binary_value (f64_of_u32 w)"
proof -
  assume "\<not> 1 < w"
  then have "w = 0 \<or> w = 1" by unat_arith
  then show ?thesis by (auto simp: binary_value_def)
qed

lemma state_value_ok: "\<not> w < 1 \<Longrightarrow> \<not> 3 < w \<Longrightarrow> state_value (f64_of_u32 w)"
proof -
  assume "\<not> w < 1" "\<not> 3 < w"
  then have "w = 1 \<or> w = 2 \<or> w = 3" by unat_arith
  then show ?thesis by (auto simp: state_value_def)
qed

lemma values_f32_write:
  assumes "values_f32 t" "is_f32 v" "WriteAnalogValue i v t = Some t'"
  shows "values_f32 t'"
proof -
  obtain k where t': "t' = t[k := (t ! k)\<lparr>presentValue := v\<rparr>]" using assms(3) by (auto simp: WriteAnalogValue_def)
  have "presentValue ((t ! k)\<lparr>presentValue := v\<rparr>) = v" by simp
  then show ?thesis using assms(1,2) set_update_subset_insert [of t k "(t ! k)\<lparr>presentValue := v\<rparr>"]
    by (auto simp: values_f32_def list_all_iff t')
qed

lemma set_callbacks_inv [aec_inv]:
  assumes inv: "device_inv st"
  shows "is_f32 v \<Longrightarrow> SetPropertyReal cfg st di ot oi prop v pr = Inr st' \<Longrightarrow> device_inv st'"
    "SetPropertyEnumerated cfg st di ot oi prop w pr = Inr st' \<Longrightarrow> device_inv st'"
    "SetPropertyUnsignedInteger lt now cfg st di ot oi prop w pr = Inr st' \<Longrightarrow> device_inv st'"
    "SetPropertyBool cfg st di ot oi prop b = Inr st' \<Longrightarrow> device_inv st'"
    "SetPropertyNull cfg st di ot oi prop pr = Inr st' \<Longrightarrow> device_inv st'"
proof -
  have o': "outputs_inv (outs st)" using inv by (simp add: device_inv_def)
  note u = device_inv_outs [OF inv outputs_inv_update(1) [OF o']] device_inv_outs [OF inv outputs_inv_update(2) [OF o']]
    device_inv_outs [OF inv outputs_inv_update(3) [OF o']] device_inv_outs [OF inv outputs_inv_update(4) [OF o']]
  show "device_inv st'" if real: "is_f32 v" "SetPropertyReal cfg st di ot oi prop v pr = Inr st'"
  proof (cases "GetCommandable ot oi \<noteq> None \<and> ot = OBJECT_TYPE_ANALOG_OUTPUT \<and> prop = PROPERTY_IDENTIFIER_PRESENT_VALUE")
    case True
    then show ?thesis using real u(1) [of v pr]
      by (auto simp: SetPropertyReal_def GetCommandable_def f64_of_f32_def split: if_splits)
  next
    case False
    then obtain t where t: "WriteAnalogValue oi v (created st) = Some t" "st' = st\<lparr>created := t\<rparr>"
      using real(2) by (auto simp: SetPropertyReal_def simp del: not_None_eq split: if_splits option.splits)
    then show ?thesis using inv values_f32_write [OF _ real(1) t(1)] av_store.store_inv [OF _ t(1)] by (simp add: device_inv_def)
  qed
  show "device_inv st'" if "SetPropertyEnumerated cfg st di ot oi prop w pr = Inr st'"
    using that u(2) binary_value_ok
    by (auto simp: SetPropertyEnumerated_def GetCommandable_def simp del: update_ref.simps split: if_splits)
  show "device_inv st'" if "SetPropertyUnsignedInteger lt now cfg st di ot oi prop w pr = Inr st'"
    using that u(3) state_value_ok inv SetIvoryFileSize_content [of "ivory_file st" lt now "g_clockOffsetSeconds st" w]
    by (auto simp: SetPropertyUnsignedInteger_def GetCommandable_def device_inv_def simp del: update_ref.simps split: if_splits sum.splits)
  show "device_inv st'" if "SetPropertyBool cfg st di ot oi prop b = Inr st'"
    using that inv by (auto simp: SetPropertyBool_def device_inv_def ivory_inv_def split: if_splits)
  show "device_inv st'" if "SetPropertyNull cfg st di ot oi prop pr = Inr st'"
    using that u(4) by (auto simp: SetPropertyNull_def simp del: update_ref.simps split: if_splits)
qed

section \<open>Reading what was written\<close>

lemma priority_index:
  "1 \<le> (ucast (EffectivePriority p) :: u32)" "(ucast (EffectivePriority p) :: u32) \<le> 16"
  "unat (ucast (EffectivePriority p) :: u32) = unat (EffectivePriority p)"
  using EffectivePriority_range [of p] by (simp_all add: word_le_nat_alt unat_ucast_up)

lemma slot_after_write:
  assumes "command_inv c" "1 \<le> i" "i \<le> 16"
  shows "ReadPrioritySlot (CommandWrite p v c) PROPERTY_IDENTIFIER_PRIORITY_ARRAY True i =
    (if i = ucast (EffectivePriority p) then Some (True, v) else ReadPrioritySlot c PROPERTY_IDENTIFIER_PRIORITY_ARRAY True i)"
proof -
  have u: "unat (i - 1) = unat i - 1" "1 \<le> unat i" "unat i \<le> 16" using assms(2,3) by unat_arith+
  have eq: "i = ucast (EffectivePriority p) \<longleftrightarrow> unat i = unat (EffectivePriority p)"
    using priority_index(3) [of p] by (metis word_unat_eq_iff)
  have g: "ReadPrioritySlot k PROPERTY_IDENTIFIER_PRIORITY_ARRAY True i = Some (isSet k ! (unat i - 1), slotValues k ! (unat i - 1))" for k
    using assms(2,3) u by (simp add: ReadPrioritySlot_def one_le_word_iff not_less)
  have ne: "unat (EffectivePriority p) - 1 = unat i - 1 \<longleftrightarrow> unat i = unat (EffectivePriority p)"
    using u EffectivePriority_range [of p] by arith
  have "unat i - 1 < length (isSet c)" "unat i - 1 < length (slotValues c)" using assms(1) u by (auto simp: command_inv_def)
  then show ?thesis
    unfolding g CommandWrite_def Let_def eq
    by (cases "unat i = unat (EffectivePriority p)") (simp_all add: nth_list_update ne [simplified])
qed

lemma null_after_relinquish:
  assumes "command_inv c"
  shows "\<not> isSet (CommandRelinquish p c) ! (unat (EffectivePriority p) - 1)"
  using assms EffectivePriority_range [of p] by (simp add: CommandRelinquish_def command_inv_def Let_def)

lemma index_minus_one: "unat ((ucast (EffectivePriority p) :: u32) - 1) = unat (EffectivePriority p) - 1"
proof -
  have "unat ((ucast (EffectivePriority p) :: u32) - 1) = unat (ucast (EffectivePriority p) :: u32) - 1"
    using priority_index(1) [of p] by unat_arith
  then show ?thesis by (simp add: priority_index(3))
qed

section \<open>Properties\<close>



text \<open>
  Out-of-range commands are refused: a Binary Output accepts 0 and 1 and a Multi-State Output
  1 to 3; anything else is refused with value-out-of-range. A NULL write relinquishes its slot, after
  which the slot reads as null and declines to give a value, so the stack resolves the next one.
\<close>

lemma output_writes_validated:
  fixes cfg :: config and p :: u8
  assumes "device_inv st"
  defines "dev \<equiv> g_deviceInstance cfg" and "i \<equiv> ucast (EffectivePriority p)"
  shows "(SetPropertyEnumerated cfg st dev OBJECT_TYPE_BINARY_OUTPUT 1 PROPERTY_IDENTIFIER_PRESENT_VALUE w p =
       Inl ERROR_CODE_VALUE_OUT_OF_RANGE \<longleftrightarrow> 1 < w) \<and>
    (SetPropertyUnsignedInteger lt now cfg st dev OBJECT_TYPE_MULTI_STATE_OUTPUT 1 PROPERTY_IDENTIFIER_PRESENT_VALUE w p =
       Inl ERROR_CODE_VALUE_OUT_OF_RANGE \<longleftrightarrow> w = 0 \<or> MULTI_STATE_OUTPUT_NUMBER_OF_STATES < w) \<and>
    (\<exists>st'. SetPropertyNull cfg st dev OBJECT_TYPE_ANALOG_OUTPUT 1 PROPERTY_IDENTIFIER_PRESENT_VALUE p = Inr st' \<and>
       GetPropertyBool cfg st' dev OBJECT_TYPE_ANALOG_OUTPUT 1 PROPERTY_IDENTIFIER_PRIORITY_ARRAY True i = Inr True \<and>
       GetPropertyReal cfg st' dev OBJECT_TYPE_ANALOG_OUTPUT 1 PROPERTY_IDENTIFIER_PRIORITY_ARRAY True i = Inl ERROR_CODE_SUCCESS)"
proof -
  have c: "command_inv (g_analogOutput (outs st))" using device_invD(1) [OF assms(1)] by (simp add: slots_ok_def)
  let ?st' = "st\<lparr>outs := update_ref AnalogOutput (CommandRelinquish p) (outs st)\<rparr>"
  have null: "\<not> isSet (CommandRelinquish p (g_analogOutput (outs st))) ! unat (i - 1)"
    using null_after_relinquish [OF c, of p] by (simp add: i_def index_minus_one)
  have i: "1 \<le> i" "i \<noteq> 0" "i \<le> 16" "\<not> 16 < i" using priority_index [of p] by (auto simp: i_def)
  have "SetPropertyNull cfg st dev OBJECT_TYPE_ANALOG_OUTPUT 1 PROPERTY_IDENTIFIER_PRESENT_VALUE p = Inr ?st'"
    by (simp add: SetPropertyNull_def dev_def GetCommandable_def)
  moreover have "GetPropertyBool cfg ?st' dev OBJECT_TYPE_ANALOG_OUTPUT 1 PROPERTY_IDENTIFIER_PRIORITY_ARRAY True i = Inr True"
    using null i by (simp add: GetPropertyBool_def dev_def GetCommandable_def)
  moreover have "GetPropertyReal cfg ?st' dev OBJECT_TYPE_ANALOG_OUTPUT 1 PROPERTY_IDENTIFIER_PRIORITY_ARRAY True i = Inl ERROR_CODE_SUCCESS"
    using null i by (simp add: GetPropertyReal_def dev_def GetCommandable_def ReadPrioritySlot_def Let_def)
  moreover have "SetPropertyEnumerated cfg st dev OBJECT_TYPE_BINARY_OUTPUT 1 PROPERTY_IDENTIFIER_PRESENT_VALUE w p =
       Inl ERROR_CODE_VALUE_OUT_OF_RANGE \<longleftrightarrow> 1 < w"
    by (simp add: SetPropertyEnumerated_def dev_def GetCommandable_def)
  moreover have "SetPropertyUnsignedInteger lt now cfg st dev OBJECT_TYPE_MULTI_STATE_OUTPUT 1 PROPERTY_IDENTIFIER_PRESENT_VALUE w p =
       Inl ERROR_CODE_VALUE_OUT_OF_RANGE \<longleftrightarrow> w = 0 \<or> MULTI_STATE_OUTPUT_NUMBER_OF_STATES < w"
    by (simp add: SetPropertyUnsignedInteger_def dev_def GetCommandable_def)
  ultimately show ?thesis by blast
qed

lemma output_writes_validated_example:
  "SetPropertyEnumerated cfg0 device_init 389014 OBJECT_TYPE_BINARY_OUTPUT 1 PROPERTY_IDENTIFIER_PRESENT_VALUE 2 16 = Inl ERROR_CODE_VALUE_OUT_OF_RANGE"
proof -
  have "g_deviceInstance cfg0 = 389014" by (simp add: cfg0_def)
  with output_writes_validated [OF device_inv_init, of cfg0 2 16] show ?thesis by simp
qed

end
