(* ===== verification/Command_Line.thy ===== *)
theory Command_Line
  imports Application
begin

text \<open>
  The command line: the argument parsers of \<open>common/CASExampleHelper.cpp\<close> and what \<open>main\<close> makes of them.
  \<open>argv\<close> is the list of the arguments, the program name first; an argument is a C string without its
  terminator. The printed help, version and warnings are not modelled. \<open>long\<close> has 64 bits.
\<close>

section \<open>Numbers\<close>

definition LONG_MAX :: int where "LONG_MAX = 2 ^ 63 - 1"
definition LONG_MIN :: int where "LONG_MIN = - (2 ^ 63)"

text \<open>\<open>strtol\<close> in base 10: the value, the rest of the text, and whether \<open>errno\<close> was set.\<close>

definition strtol :: "string \<Rightarrow> int \<times> string \<times> bool" where
  "strtol s =
     (let (neg, t) = opt_sign (dropWhile is_space s);
          ds = takeWhile is_digit t;
          v = (if neg then - int (dec_val ds) else int (dec_val ds));
          rest = dropWhile is_digit t
      in if ds = [] then (0, s, False)
         else if LONG_MAX < v then (LONG_MAX, rest, True)
         else if v < LONG_MIN then (LONG_MIN, rest, True)
         else (v, rest, False))"

text \<open>\<open>None\<close> is the return value false. \<open>end == text\<close> is no progress: the rest is as long as the text.\<close>

definition ParseWholeNumber :: "string \<Rightarrow> int option" where
  "ParseWholeNumber t =
     (if t = [] then None
      else (let (v, rest, failed) = strtol t
            in if failed \<or> length rest = length t \<or> rest \<noteq> [] \<or> v < 0 then None else Some v))"

section \<open>Options\<close>

text \<open>
  The loop the option parsers share: the first occurrence of the option whose value is accepted, among
  the arguments after the program name. The value of an option is looked at again as an option.
\<close>

fun scan_args :: "string \<Rightarrow> (string \<Rightarrow> 'a option) \<Rightarrow> string list \<Rightarrow> 'a option" where
  "scan_args name accept (a # b # rest) =
     (if a = name then (case accept b of Some v \<Rightarrow> Some v | None \<Rightarrow> scan_args name accept (b # rest))
      else scan_args name accept (b # rest))"
| "scan_args name accept [a] = None"
| "scan_args name accept [] = None"

definition or_default :: "'a option \<Rightarrow> 'a \<Rightarrow> 'a" where
  "or_default r d = (case r of Some v \<Rightarrow> v | None \<Rightarrow> d)"

definition port_value :: "string \<Rightarrow> u16 option" where
  "port_value t = (case ParseWholeNumber t of
     Some p \<Rightarrow> if 0 < p \<and> p \<le> 65535 then Some (word_of_int p) else None | None \<Rightarrow> None)"

definition ParsePortArg :: "string list \<Rightarrow> u16 \<Rightarrow> u16" where
  "ParsePortArg argv defaultPort = or_default (scan_args ''--port'' port_value (tl argv)) defaultPort"

definition device_id_value :: "string \<Rightarrow> u32 option" where
  "device_id_value t = (case ParseWholeNumber t of
     Some i \<Rightarrow> if i < 4194303 then Some (word_of_int i) else None | None \<Rightarrow> None)"

definition ParseDeviceIdArg :: "string list \<Rightarrow> u32 \<Rightarrow> u32" where
  "ParseDeviceIdArg argv defaultDeviceId = or_default (scan_args ''--deviceID'' device_id_value (tl argv)) defaultDeviceId"

definition MAX_DEVICE_NAME_LENGTH :: nat where "MAX_DEVICE_NAME_LENGTH = 255"

definition printable :: "string \<Rightarrow> bool" where
  "printable name \<longleftrightarrow> 0 < length name \<and> length name \<le> MAX_DEVICE_NAME_LENGTH \<and> list_all (\<lambda>c. 0x20 \<le> code c \<and> code c \<noteq> 0x7F) name"

definition ParseDeviceNameArg :: "string list \<Rightarrow> string \<Rightarrow> string" where
  "ParseDeviceNameArg argv defaultDeviceName =
     or_default (scan_args ''--deviceName'' (\<lambda>name. if printable name then Some name else None) (tl argv)) defaultDeviceName"

definition ParseDccPasswordArg :: "string list \<Rightarrow> string \<Rightarrow> string" where
  "ParseDccPasswordArg argv defaultPassword = or_default (scan_args ''--dcc-password'' Some (tl argv)) defaultPassword"

definition ParseXmlLogArg :: "string list \<Rightarrow> bool" where
  "ParseXmlLogArg argv = list_ex (\<lambda>a. a = ''--xmlLog'' \<or> a = ''--xml'') (tl argv)"

text \<open>The help or version text the first such argument asks for; \<open>None\<close> is the return value false.\<close>

datatype info_request = HelpText | VersionText

fun find_info :: "string list \<Rightarrow> info_request option" where
  "find_info [] = None"
| "find_info (a # rest) =
     (if a = ''--help'' \<or> a = ''-h'' \<or> a = ''/?'' then Some HelpText
      else if a = ''--version'' then Some VersionText else find_info rest)"

definition HandleHelpAndVersionArgs :: "string list \<Rightarrow> info_request option" where
  "HandleHelpAndVersionArgs argv = find_info (tl argv)"

section \<open>What \<open>main\<close> reads\<close>

record options =
  opt_port :: u16
  opt_device :: u32
  opt_name :: string
  opt_simulatedAlarms :: bool
  opt_xml :: bool
  opt_password :: string

definition DEFAULT_DEVICE_INSTANCE :: u32 where "DEFAULT_DEVICE_INSTANCE = 389014"
definition DEFAULT_DCC_PASSWORD :: string where "DEFAULT_DCC_PASSWORD = ''''"

text \<open>\<open>None\<close> if the process prints the help or the version and ends.\<close>

definition command_line :: "string list \<Rightarrow> options option" where
  "command_line argv =
     (if HandleHelpAndVersionArgs argv \<noteq> None then None
      else Some \<lparr>opt_port = ParsePortArg argv 47808,
             opt_device = ParseDeviceIdArg argv DEFAULT_DEVICE_INSTANCE,
             opt_name = ParseDeviceNameArg argv DEVICE_NAME,
             opt_simulatedAlarms = \<not> list_ex (\<lambda>a. a = ''--no-simulated-alarms'') (tl argv),
             opt_xml = ParseXmlLogArg argv,
             opt_password = ParseDccPasswordArg argv DEFAULT_DCC_PASSWORD\<rparr>)"

text \<open>The test hook: the period of the simulated alarm from the environment, in seconds.\<close>

definition PASSENGER_ALARM_SIMULATION_PERIOD_SECONDS :: int where "PASSENGER_ALARM_SIMULATION_PERIOD_SECONDS = 30"

definition alarm_period :: "string \<Rightarrow> int" where
  "alarm_period v =
     (if v = [] then PASSENGER_ALARM_SIMULATION_PERIOD_SECONDS
      else (let (n, rest) = strtoul v
            in if rest = [] \<and> 1 \<le> n \<and> n \<le> 3600 then int n else PASSENGER_ALARM_SIMULATION_PERIOD_SECONDS))"

section \<open>Lemmas\<close>

text \<open>An option whose every accepted value satisfies \<open>P\<close>, with a default that does.\<close>

lemma scan_args_Some: "scan_args name accept args = Some v \<Longrightarrow> \<exists>t. accept t = Some v"
  by (induction name accept args rule: scan_args.induct) (auto split: if_splits option.splits)

lemma or_default_scan: "P d \<Longrightarrow> (\<And>t v. accept t = Some v \<Longrightarrow> P v) \<Longrightarrow> P (or_default (scan_args name accept args) d)"
  by (auto simp: or_default_def dest: scan_args_Some split: option.split)

lemma scan_args_first: "accept v = Some x \<Longrightarrow> scan_args name accept (name # v # rest) = Some x"
  by simp

lemma scan_args_skip: "a \<noteq> name \<Longrightarrow> scan_args name accept (a # b # rest) = scan_args name accept (b # rest)"
  by simp

lemma ParseWholeNumber_nonneg: "ParseWholeNumber t = Some v \<Longrightarrow> 0 \<le> v"
  by (auto simp: ParseWholeNumber_def Let_def split: if_splits prod.splits)

text \<open>What a whole number is: spaces, a sign, and digits to the end of the text.\<close>

lemma strtol_show_nat: "int n \<le> LONG_MAX \<Longrightarrow> strtol (show_nat n) = (int n, [], False)"
proof -
  assume n: "int n \<le> LONG_MAX"
  have s: "dropWhile is_space (show_nat n) = show_nat n"
    using digit_facts(1) [OF show_nat_hd(1) [of n "[]"]] by (cases "show_nat n") auto
  have o: "opt_sign (show_nat n) = (False, show_nat n)" using show_nat_hd(1) [of n "[]"] by (cases "show_nat n") (auto simp: is_digit_def)
  have d: "takeWhile is_digit (show_nat n) = show_nat n" "dropWhile is_digit (show_nat n) = []" using show_nat_digits [of n] by auto
  have "\<not> int n < LONG_MIN" by (simp add: LONG_MIN_def)
  with n show ?thesis by (simp add: strtol_def s o d)
qed

lemma ParseWholeNumber_show_nat: "int n \<le> LONG_MAX \<Longrightarrow> ParseWholeNumber (show_nat n) = Some (int n)"
  by (simp add: ParseWholeNumber_def strtol_show_nat)

lemma show_nat_no_option: "show_nat n \<noteq> CHR ''-'' # s" "show_nat n \<noteq> CHR ''/'' # s"
  using show_nat_hd(1) [of n "[]"] by (auto simp: is_digit_def)

lemma port_value_show: "0 < p \<Longrightarrow> port_value (show_nat (unat p)) = Some p"
proof -
  assume "0 < p"
  then have "0 < uint p" by (simp add: word_less_def)
  moreover have "uint p \<le> 65535" using unsigned_less [of p, where 'a = int] by simp
  moreover have "ParseWholeNumber (show_nat (unat p)) = Some (uint p)"
    using ParseWholeNumber_show_nat [of "unat p"] \<open>uint p \<le> 65535\<close> by (simp add: LONG_MAX_def)
  ultimately show ?thesis by (simp add: port_value_def)
qed

lemma device_id_value_show: "i < 4194303 \<Longrightarrow> device_id_value (show_nat (unat i)) = Some i"
proof -
  assume "i < 4194303"
  then have "uint i < 4194303" by (simp add: word_less_def)
  moreover from this have "ParseWholeNumber (show_nat (unat i)) = Some (uint i)"
    using ParseWholeNumber_show_nat [of "unat i"] by (simp add: LONG_MAX_def)
  ultimately show ?thesis by (simp add: device_id_value_def)
qed

lemma DEVICE_NAME_printable: "printable DEVICE_NAME"
  by code_simp

lemma opt_sign_cases:
  obtains "opt_sign s = (True, tl s)" "s = CHR ''-'' # tl s" | "opt_sign s = (False, tl s)" "s = CHR ''+'' # tl s"
  | "opt_sign s = (False, s)"
proof (cases s)
  case (Cons c r)
  then show thesis using that by (cases "c = CHR ''-''"; cases "c = CHR ''+''") auto
qed (use that in simp)

text \<open>The parsers never hand out a value outside its range.\<close>

lemma parsed_options:
  "0 < ParsePortArg argv 47808" "ParseDeviceIdArg argv DEFAULT_DEVICE_INSTANCE < 4194303" "printable (ParseDeviceNameArg argv DEVICE_NAME)"
proof -
  show "0 < ParsePortArg argv 47808"
    unfolding ParsePortArg_def
  proof (rule or_default_scan)
    fix t v assume "port_value t = Some v"
    then obtain p where "0 < p" "p \<le> 65535" "v = word_of_int p" by (auto simp: port_value_def split: option.splits if_splits)
    then show "0 < v" by (simp add: word_less_def uint_word_of_int)
  qed simp
  show "ParseDeviceIdArg argv DEFAULT_DEVICE_INSTANCE < 4194303"
    unfolding ParseDeviceIdArg_def
  proof (rule or_default_scan)
    fix t v assume "device_id_value t = Some v"
    then obtain i where "i < 4194303" "v = word_of_int i" "0 \<le> i"
      using ParseWholeNumber_nonneg by (auto simp: device_id_value_def split: option.splits if_splits)
    then show "v < 4194303" by (simp add: word_less_def uint_word_of_int)
  qed (simp add: DEFAULT_DEVICE_INSTANCE_def)
  show "printable (ParseDeviceNameArg argv DEVICE_NAME)"
    unfolding ParseDeviceNameArg_def by (rule or_default_scan) (auto simp: DEVICE_NAME_printable split: if_splits)
qed

lemma command_line_valid:
  "command_line argv = Some opts \<Longrightarrow> 0 < opt_port opts \<and> opt_device opts < 4194303 \<and> printable (opt_name opts)"
  using parsed_options [of argv] by (auto simp: command_line_def split: if_splits)

section \<open>Properties\<close>

text \<open>
  C34. A text is taken as a whole number exactly if it is spaces, an optional sign and digits up to its
  end, with a value a \<open>long\<close> can hold, which is then the result; a minus sign is only accepted before
  zero. Everything else, the empty text and trailing characters included, is rejected.
\<close>

theorem whole_number_exact:
  "ParseWholeNumber t = Some v \<longleftrightarrow>
     (\<exists>sp sg ds. t = sp @ sg @ ds \<and> list_all is_space sp \<and> sg \<in> {'''', ''+'', ''-''} \<and> ds \<noteq> [] \<and> list_all is_digit ds \<and>
        v = int (dec_val ds) \<and> v \<le> LONG_MAX \<and> (sg = ''-'' \<longrightarrow> v = 0))"
proof
  assume p: "ParseWholeNumber t = Some v"
  define u where "u = dropWhile is_space t"
  obtain neg w where w: "opt_sign u = (neg, w)" by fastforce
  have f: "takeWhile is_digit w \<noteq> []" "dropWhile is_digit w = []" "0 \<le> v" "v \<le> LONG_MAX"
      "v = (if neg then - int (dec_val (takeWhile is_digit w)) else int (dec_val (takeWhile is_digit w)))"
    using p w by (auto simp: ParseWholeNumber_def strtol_def u_def Let_def LONG_MAX_def split: if_splits)
  have ds: "takeWhile is_digit w = w" "list_all is_digit w"
    using f(2) by (auto simp: dropWhile_eq_Nil_conv list_all_iff)
  have t: "t = takeWhile is_space t @ u" "list_all is_space (takeWhile is_space t)"
    by (auto simp: u_def list_all_iff dest: set_takeWhileD)
  have "\<exists>sg. u = sg @ w \<and> sg \<in> {'''', ''+'', ''-''} \<and> (sg = ''-'') = neg"
    using w by (cases rule: opt_sign_cases [of u]) (auto intro: exI [of _ "''-''"] exI [of _ "''+''"])
  then obtain sg where "u = sg @ w" "sg \<in> {'''', ''+'', ''-''}" "(sg = ''-'') = neg" by blast
  with t ds f show "\<exists>sp sg ds. t = sp @ sg @ ds \<and> list_all is_space sp \<and> sg \<in> {'''', ''+'', ''-''} \<and> ds \<noteq> [] \<and> list_all is_digit ds \<and>
        v = int (dec_val ds) \<and> v \<le> LONG_MAX \<and> (sg = ''-'' \<longrightarrow> v = 0)"
    by (intro exI [of _ "takeWhile is_space t"] exI [of _ sg] exI [of _ w]) auto
next
  assume "\<exists>sp sg ds. t = sp @ sg @ ds \<and> list_all is_space sp \<and> sg \<in> {'''', ''+'', ''-''} \<and> ds \<noteq> [] \<and> list_all is_digit ds \<and>
        v = int (dec_val ds) \<and> v \<le> LONG_MAX \<and> (sg = ''-'' \<longrightarrow> v = 0)"
  then obtain sp sg ds where f: "t = sp @ sg @ ds" "list_all is_space sp" "sg \<in> {'''', ''+'', ''-''}" "ds \<noteq> []" "list_all is_digit ds"
      "v = int (dec_val ds)" "v \<le> LONG_MAX" "sg = ''-'' \<longrightarrow> v = 0" by blast
  obtain c cs where c: "ds = c # cs" "is_digit c" using f(4,5) by (cases ds) auto
  have "dropWhile is_space t = sg @ ds" using f(1-3) c digit_facts(1) [OF c(2)] by (auto simp: dropWhile_spaces is_space_def list_all_iff)
  moreover have "opt_sign (sg @ ds) = (sg = ''-'', ds)" using f(3) c digit_facts(2,3) [OF c(2)] by auto
  moreover have "takeWhile is_digit ds = ds" "dropWhile is_digit ds = []" using f(5) by (auto simp: list_all_iff)
  ultimately show "ParseWholeNumber t = Some v"
    using f by (auto simp: ParseWholeNumber_def strtol_def LONG_MIN_def Let_def split: if_splits)
qed

text \<open>Witness: a minus sign before zero is accepted, before a larger number it is not.\<close>

theorem whole_number_exact_witness: "ParseWholeNumber '' -0'' = Some 0 \<and> ParseWholeNumber ''-1'' \<noteq> Some 1"
proof -
  have "'' -0'' = '' '' @ ''-'' @ ''0'' \<and> list_all is_space '' '' \<and> ''-'' \<in> {'''', ''+'', ''-''} \<and> ''0'' \<noteq> [] \<and> list_all is_digit ''0'' \<and>
      0 = int (dec_val ''0'') \<and> 0 \<le> LONG_MAX \<and> (''-'' = ''-'' \<longrightarrow> (0 :: int) = 0)" by code_simp
  then have "ParseWholeNumber '' -0'' = Some 0" unfolding whole_number_exact by blast
  moreover have "ParseWholeNumber ''-1'' = None" by code_simp
  ultimately show ?thesis by simp
qed

text \<open>
  Whatever the arguments, the device that starts has a UDP port from 1 to 65535, a BACnet device
  instance from 0 to 4194302 and a printable name of 1 to 255 octets; and every such port and instance
  can be chosen.
\<close>

lemma command_line_options:
  "(case command_line argv of
      None \<Rightarrow> True
    | Some r \<Rightarrow> 0 < opt_port r \<and> opt_device r < 4194303 \<and> printable (opt_name r)) \<and>
   (0 < port \<and> device < 4194303 \<longrightarrow>
      command_line [prog, ''--port'', show_nat (unat port), ''--deviceID'', show_nat (unat device)] =
      Some \<lparr>opt_port = port, opt_device = device, opt_name = DEVICE_NAME, opt_simulatedAlarms = True, opt_xml = False, opt_password = ''''\<rparr>)"
proof -
  have "command_line [prog, ''--port'', show_nat (unat port), ''--deviceID'', show_nat (unat device)] =
      Some \<lparr>opt_port = port, opt_device = device, opt_name = DEVICE_NAME, opt_simulatedAlarms = True, opt_xml = False, opt_password = ''''\<rparr>"
    if "0 < port" "device < 4194303"
    using port_value_show [OF that(1)] device_id_value_show [OF that(2)]
    by (simp add: command_line_def HandleHelpAndVersionArgs_def ParsePortArg_def ParseDeviceIdArg_def ParseDeviceNameArg_def ParseXmlLogArg_def
        ParseDccPasswordArg_def DEFAULT_DCC_PASSWORD_def or_default_def show_nat_no_option)
  then show ?thesis using command_line_valid by (auto split: option.split)
qed

text \<open>Witness: a second device on its own port.\<close>

lemma command_line_options_example:
  "map_option opt_port (command_line [''baec'', ''--port'', show_nat 47809, ''--deviceID'', show_nat 7]) = Some 47809"
  using command_line_options [of "[]" 47809 7 "''baec''"] by simp

end
