(* ===== verification/Frame_Decode.thy ===== *)
theory Frame_Decode
  imports BACnet_Constants "HOL-Library.Monad_Syntax"
begin

unbundle bit_operations_syntax

text \<open>
  The frame decoder of \<open>common/CASExampleHelper.cpp\<close>: \<open>DecodeTagHeader\<close>, \<open>DecodeObjectAndProperty\<close>
  and \<open>DecodeBacnetFrame\<close>, which walk the octets received from the network. Every octet is read
  with \<open>rd\<close>, which is \<open>None\<close> outside the frame, so that \<open>None\<close> as the result of a decoder is a read
  past the end: that it does not happen is a theorem. Offsets are \<open>nat\<close>: in the code they are 32-bit,
  every sum adds at most 255 to an offset inside the frame, and a frame has at most 65535 octets.
  A pointer into the frame (\<open>dadr\<close>, \<open>sadr\<close>) is its offset.
\<close>

section \<open>State\<close>

record tag_header =
  tagNumber :: u8
  contextSpecific :: bool
  isOpeningTag :: bool
  isClosingTag :: bool
  tagLength :: u32
  headerLength :: nat

record decoded_frame =
  bacnetIp :: bool
  bvlcFunction :: u8
  hasNpdu :: bool
  npduVersion :: u8
  npduControl :: u8
  hasDest :: bool
  dnet :: u16
  dadr :: "nat option"
  dadrLength :: u8
  hasSrc :: bool
  snet :: u16
  sadr :: "nat option"
  sadrLength :: u8
  isNetworkMessage :: bool
  networkMessageType :: u8
  hasApdu :: bool
  pduType :: u8
  segmented :: bool
  hasInvokeId :: bool
  invokeId :: u8
  hasServiceChoice :: bool
  serviceChoice :: u8
  hasReason :: bool
  reason :: u8
  hasObjectProperty :: bool
  objectType :: u16
  objectInstance :: u32
  propertyId :: u32
  hasArrayIndex :: bool
  arrayIndex :: u32

definition DecodedFrame_init :: decoded_frame where
  "DecodedFrame_init = \<lparr>bacnetIp = False, bvlcFunction = 0, hasNpdu = False, npduVersion = 0, npduControl = 0, hasDest = False,
     dnet = 0, dadr = None, dadrLength = 0, hasSrc = False, snet = 0, sadr = None, sadrLength = 0, isNetworkMessage = False,
     networkMessageType = 0, hasApdu = False, pduType = 0xFF, segmented = False, hasInvokeId = False, invokeId = 0,
     hasServiceChoice = False, serviceChoice = 0, hasReason = False, reason = 0, hasObjectProperty = False, objectType = 0,
     objectInstance = 0, propertyId = 0, hasArrayIndex = False, arrayIndex = 0\<rparr>"

section \<open>Octets\<close>

definition rd :: "u8 list \<Rightarrow> nat \<Rightarrow> u8 option" where
  "rd frame i = (if i < length frame then Some (frame ! i) else None)"

definition be16 :: "u8 \<Rightarrow> u8 \<Rightarrow> u16" where
  "be16 a b = push_bit 8 (ucast a) OR ucast b"

definition be32 :: "u8 \<Rightarrow> u8 \<Rightarrow> u8 \<Rightarrow> u8 \<Rightarrow> u32" where
  "be32 a b c d = push_bit 24 (ucast a) OR push_bit 16 (ucast b) OR push_bit 8 (ucast c) OR ucast d"

text \<open>The loop \<open>v = (v << 8) | frame[pos + i]\<close>.\<close>

fun read_be :: "u8 list \<Rightarrow> nat \<Rightarrow> nat \<Rightarrow> u32 \<Rightarrow> u32 option" where
  "read_be frame pos 0 v = Some v"
| "read_be frame pos (Suc n) v = do { b \<leftarrow> rd frame pos; read_be frame (pos + 1) n (push_bit 8 v OR ucast b) }"

section \<open>Tags\<close>

text \<open>
  The result of a tag decode: \<open>None\<close> a read outside the frame, \<open>Some None\<close> the return value false,
  \<open>Some (Some h)\<close> true with \<open>*out = h\<close>. \<open>tag_length\<close> is the part after the tag number.
\<close>

definition tag_length :: "u8 list \<Rightarrow> nat \<Rightarrow> u8 \<Rightarrow> bool \<Rightarrow> u8 \<Rightarrow> nat \<Rightarrow> tag_header option option" where
  "tag_length frame offset tag ctx lvt pos =
     (let done = \<lambda>opening closing len pos. Some (Some \<lparr>tagNumber = tag, contextSpecific = ctx, isOpeningTag = opening,
            isClosingTag = closing, tagLength = len, headerLength = pos - offset\<rparr>)
      in if ctx \<and> lvt = 6 then done True False 0 pos
         else if ctx \<and> lvt = 7 then done False True 0 pos
         else if lvt \<le> 4 then done False False (ucast lvt) pos
         else if lvt = 5 then
           (if length frame \<le> pos then Some None
            else do {
              lenByte \<leftarrow> rd frame pos;
              (if lenByte < 254 then done False False (ucast lenByte) (pos + 1)
               else if lenByte = 254 then
                 (if length frame < pos + 1 + 2 then Some None
                  else do { a \<leftarrow> rd frame (pos + 1); b \<leftarrow> rd frame (pos + 2); done False False (ucast (be16 a b)) (pos + 3) })
               else
                 (if length frame < pos + 1 + 4 then Some None
                  else do { a \<leftarrow> rd frame (pos + 1); b \<leftarrow> rd frame (pos + 2); c \<leftarrow> rd frame (pos + 3); d \<leftarrow> rd frame (pos + 4);
                            done False False (be32 a b c d) (pos + 5) })) })
         else Some None)"

definition DecodeTagHeader :: "u8 list \<Rightarrow> nat \<Rightarrow> tag_header option option" where
  "DecodeTagHeader frame offset =
     (if length frame \<le> offset then Some None
      else do {
        b0 \<leftarrow> rd frame offset;
        let tag = drop_bit 4 b0 AND 0x0F;
        let ctx = (b0 AND 0x08 \<noteq> 0);
        let lvt = b0 AND 0x07;
        (if tag = 0x0F then
           (if length frame \<le> offset + 1 then Some None
            else do { tag' \<leftarrow> rd frame (offset + 1); tag_length frame offset tag' ctx lvt (offset + 2) })
         else tag_length frame offset tag ctx lvt (offset + 1)) })"

section \<open>Object, property and array index\<close>

text \<open>\<open>decode_array_index\<close> is the optional tag 2 after the property identifier.\<close>

definition decode_array_index :: "u8 list \<Rightarrow> nat \<Rightarrow> decoded_frame \<Rightarrow> decoded_frame option" where
  "decode_array_index frame pos out = do {
     idxTag \<leftarrow> DecodeTagHeader frame pos;
     (case idxTag of
        None \<Rightarrow> Some out
      | Some idxTag \<Rightarrow>
          if contextSpecific idxTag \<and> tagNumber idxTag = 2 \<and> 0 < tagLength idxTag \<and> tagLength idxTag \<le> 4 \<and>
             pos + headerLength idxTag + unat (tagLength idxTag) \<le> length frame
          then do {
            v \<leftarrow> read_be frame (pos + headerLength idxTag) (unat (tagLength idxTag)) 0;
            Some (out\<lparr>hasArrayIndex := True, arrayIndex := v\<rparr>) }
          else Some out) }"

definition DecodeObjectAndProperty :: "u8 list \<Rightarrow> nat \<Rightarrow> decoded_frame \<Rightarrow> decoded_frame option" where
  "DecodeObjectAndProperty frame offset out = do {
     objTag \<leftarrow> DecodeTagHeader frame offset;
     (case objTag of
        None \<Rightarrow> Some out
      | Some objTag \<Rightarrow>
          if \<not> contextSpecific objTag \<or> tagNumber objTag \<noteq> 0 \<or> tagLength objTag \<noteq> 4 \<or>
             length frame < offset + headerLength objTag + 4 then Some out
          else do {
            let o' = offset + headerLength objTag;
            a \<leftarrow> rd frame o'; b \<leftarrow> rd frame (o' + 1); c \<leftarrow> rd frame (o' + 2); d \<leftarrow> rd frame (o' + 3);
            let objValue = be32 a b c d;
            let pos = o' + 4;
            propTag \<leftarrow> DecodeTagHeader frame pos;
            (case propTag of
               None \<Rightarrow> Some out
             | Some propTag \<Rightarrow>
                 if \<not> contextSpecific propTag \<or> tagNumber propTag \<noteq> 1 \<or> tagLength propTag = 0 \<or> 4 < tagLength propTag \<or>
                    length frame < pos + headerLength propTag + unat (tagLength propTag) then Some out
                 else do {
                   propValue \<leftarrow> read_be frame (pos + headerLength propTag) (unat (tagLength propTag)) 0;
                   decode_array_index frame (pos + headerLength propTag + unat (tagLength propTag))
                     (out\<lparr>hasObjectProperty := True, objectType := ucast (drop_bit 22 objValue AND 0x3FF),
                               objectInstance := objValue AND 0x3FFFFF, propertyId := propValue\<rparr>) }) }) }"

section \<open>The whole frame\<close>

text \<open>The APDU, at \<open>offset\<close>: one case per PDU type.\<close>

definition decode_apdu :: "u8 list \<Rightarrow> nat \<Rightarrow> decoded_frame \<Rightarrow> decoded_frame option" where
  "decode_apdu frame offset out = do {
     b \<leftarrow> rd frame offset;
     let pdu = drop_bit 4 b AND 0x0F;
     let out = out\<lparr>hasApdu := True, pduType := pdu\<rparr>;
     (if pdu = 0 then do {
        let seg = (b AND 0x08 \<noteq> 0);
        let out = out\<lparr>segmented := seg\<rparr>;
        (if length frame \<le> offset + 2 then Some out
         else do {
           invoke \<leftarrow> rd frame (offset + 2);
           let out = out\<lparr>hasInvokeId := True, invokeId := invoke\<rparr>;
           let serviceOffset = offset + (if seg then 5 else 3);
           (if length frame \<le> serviceOffset then Some out
            else do {
              s \<leftarrow> rd frame serviceOffset;
              let out = out\<lparr>hasServiceChoice := True, serviceChoice := s\<rparr>;
              (if s = 12 \<or> s = 15 then DecodeObjectAndProperty frame (serviceOffset + 1) out else Some out) }) }) }
      else if pdu = 1 then
        (if length frame \<le> offset + 1 then Some out
         else do { s \<leftarrow> rd frame (offset + 1); Some (out\<lparr>hasServiceChoice := True, serviceChoice := s\<rparr>) })
      else if pdu = 2 \<or> pdu = 5 then
        (if length frame \<le> offset + 2 then Some out
         else do { i \<leftarrow> rd frame (offset + 1); s \<leftarrow> rd frame (offset + 2);
                   Some (out\<lparr>hasInvokeId := True, invokeId := i, hasServiceChoice := True, serviceChoice := s\<rparr>) })
      else if pdu = 3 then do {
        let seg = (b AND 0x08 \<noteq> 0);
        let out = out\<lparr>segmented := seg\<rparr>;
        (if length frame \<le> offset + 1 then Some out
         else do {
           invoke \<leftarrow> rd frame (offset + 1);
           let out = out\<lparr>hasInvokeId := True, invokeId := invoke\<rparr>;
           let serviceOffset = offset + (if seg then 4 else 2);
           (if length frame \<le> serviceOffset then Some out
            else do {
              s \<leftarrow> rd frame serviceOffset;
              let out = out\<lparr>hasServiceChoice := True, serviceChoice := s\<rparr>;
              (if s = 12 then DecodeObjectAndProperty frame (serviceOffset + 1) out else Some out) }) }) }
      else if pdu = 6 \<or> pdu = 7 then
        (if length frame \<le> offset + 2 then Some out
         else do { i \<leftarrow> rd frame (offset + 1); r \<leftarrow> rd frame (offset + 2);
                   Some (out\<lparr>hasInvokeId := True, invokeId := i, hasReason := True, reason := r\<rparr>) })
      else Some out) }"

text \<open>
  A network specifier (DNET/DADR or SNET/SADR) at \<open>offset\<close>: the network, the address length and the
  offset of the address. \<open>Inl\<close> carries the network number if the frame ends before the address.
\<close>

definition decode_specifier :: "u8 list \<Rightarrow> nat \<Rightarrow> (u16 option + u16 \<times> u8 \<times> nat) option" where
  "decode_specifier frame offset =
     (if length frame < offset + 3 then Some (Inl None)
      else do {
        a \<leftarrow> rd frame offset; b \<leftarrow> rd frame (offset + 1); len \<leftarrow> rd frame (offset + 2);
        (if length frame < offset + 3 + unat len then Some (Inl (Some (be16 a b)))
         else Some (Inr (be16 a b, len, offset + 3))) })"

text \<open>After the source specifier: the hop count, then a network message or an APDU.\<close>

definition decode_payload :: "u8 list \<Rightarrow> nat \<Rightarrow> decoded_frame \<Rightarrow> decoded_frame option" where
  "decode_payload frame offset out =
     (if hasDest out \<and> length frame \<le> offset then Some out
      else (let offset = (if hasDest out then offset + 1 else offset)
            in if length frame \<le> offset then Some out
               else if isNetworkMessage out then do { t \<leftarrow> rd frame offset; Some (out\<lparr>networkMessageType := t\<rparr>) }
               else decode_apdu frame offset out))"

definition decode_source :: "u8 list \<Rightarrow> nat \<Rightarrow> decoded_frame \<Rightarrow> decoded_frame option" where
  "decode_source frame offset out =
     (if \<not> hasSrc out then decode_payload frame offset out
      else do {
        spec \<leftarrow> decode_specifier frame offset;
        (case spec of
           Inl None \<Rightarrow> Some out
         | Inl (Some net) \<Rightarrow> Some (out\<lparr>snet := net\<rparr>)
         | Inr (net, len, p) \<Rightarrow>
             decode_payload frame (p + unat len)
               (out\<lparr>snet := net, sadrLength := len, sadr := (if 0 < len then Some p else None)\<rparr>)) })"

definition decode_destination :: "u8 list \<Rightarrow> nat \<Rightarrow> decoded_frame \<Rightarrow> decoded_frame option" where
  "decode_destination frame offset out =
     (if \<not> hasDest out then decode_source frame offset out
      else do {
        spec \<leftarrow> decode_specifier frame offset;
        (case spec of
           Inl None \<Rightarrow> Some out
         | Inl (Some net) \<Rightarrow> Some (out\<lparr>dnet := net\<rparr>)
         | Inr (net, len, p) \<Rightarrow>
             decode_source frame (p + unat len)
               (out\<lparr>dnet := net, dadrLength := len, dadr := (if 0 < len then Some p else None)\<rparr>)) })"

definition DecodeBacnetFrame :: "u8 list \<Rightarrow> decoded_frame option" where
  "DecodeBacnetFrame frame =
     (let out = DecodedFrame_init
      in if length frame < 4 then Some out
         else do {
           b0 \<leftarrow> rd frame 0;
           (if b0 \<noteq> 0x81 then Some out
            else do {
              f \<leftarrow> rd frame 1;
              let out = out\<lparr>bacnetIp := True, bvlcFunction := f\<rparr>;
              (if f \<noteq> 0x0A \<and> f \<noteq> 0x0B \<and> f \<noteq> 0x04 then Some out
               else (let offset = (if f = 0x04 then 10 else 4)
                     in if length frame < offset + 2 then Some out
                        else do {
                          v \<leftarrow> rd frame offset;
                          c \<leftarrow> rd frame (offset + 1);
                          decode_destination frame (offset + 2)
                            (out\<lparr>hasNpdu := True, npduVersion := v, npduControl := c, hasDest := (c AND 0x20 \<noteq> 0),
                                hasSrc := (c AND 0x08 \<noteq> 0), isNetworkMessage := (c AND 0x80 \<noteq> 0)\<rparr>) })) }) })"

section \<open>No read outside the frame\<close>

lemma rd_in [simp]: "i < length frame \<Longrightarrow> rd frame i = Some (frame ! i)"
  by (simp add: rd_def)

lemma read_be_total: "pos + n \<le> length frame \<Longrightarrow> \<exists>w. read_be frame pos n v = Some w"
  by (induction n arbitrary: pos v) auto

lemma tag_length_total: "\<exists>r. tag_length frame offset tag ctx lvt pos = Some r"
  by (auto simp: tag_length_def Let_def)

lemma DecodeTagHeader_total: "\<exists>r. DecodeTagHeader frame offset = Some r"
proof (cases "length frame \<le> offset")
  case False
  then show ?thesis
    using tag_length_total by (auto simp: DecodeTagHeader_def Let_def)
qed (simp add: DecodeTagHeader_def)

lemma decode_array_index_total: "\<exists>d. decode_array_index frame pos out = Some d"
proof -
  obtain r where r: "DecodeTagHeader frame pos = Some r" using DecodeTagHeader_total by blast
  show ?thesis
  proof (cases r)
    case (Some h)
    with r read_be_total [of "pos + headerLength h" "unat (tagLength h)" frame 0] show ?thesis
      by (auto simp: decode_array_index_def)
  qed (simp add: decode_array_index_def r)
qed

lemma DecodeObjectAndProperty_total: "\<exists>d. DecodeObjectAndProperty frame offset out = Some d"
proof -
  obtain r where r: "DecodeTagHeader frame offset = Some r" using DecodeTagHeader_total by blast
  show ?thesis
  proof (cases r)
    case (Some h)
    obtain r2 where r2: "DecodeTagHeader frame (offset + headerLength h + 4) = Some r2" using DecodeTagHeader_total by blast
    show ?thesis
    proof (cases r2)
      case None
      then show ?thesis using r r2 Some by (auto simp: DecodeObjectAndProperty_def Let_def)
    next
      case (Some h2)
      with r r2 \<open>r = Some h\<close> decode_array_index_total
        read_be_total [of "offset + headerLength h + 4 + headerLength h2" "unat (tagLength h2)" frame 0]
      show ?thesis by (auto simp: DecodeObjectAndProperty_def Let_def)
    qed
  qed (simp add: DecodeObjectAndProperty_def r)
qed

lemma decode_apdu_total: "offset < length frame \<Longrightarrow> \<exists>d. decode_apdu frame offset out = Some d"
  using DecodeObjectAndProperty_total by (auto simp: decode_apdu_def Let_def)

lemma decode_payload_total: "\<exists>d. decode_payload frame offset out = Some d"
  using decode_apdu_total by (auto simp: decode_payload_def Let_def not_le)

lemma decode_specifier_total:
  obtains net where "decode_specifier frame offset = Some (Inl net)"
  | net len where "decode_specifier frame offset = Some (Inr (net, len, offset + 3))" "offset + 3 + unat len \<le> length frame"
proof (cases "length frame < offset + 3")
  case True
  then show thesis using that(1) by (simp add: decode_specifier_def)
next
  case False
  then show thesis
    using that by (cases "length frame < offset + 3 + unat (frame ! (offset + 2))") (simp_all add: decode_specifier_def)
qed

lemma decode_source_total: "\<exists>d. decode_source frame offset out = Some d"
  by (rule decode_specifier_total [of frame offset])
     (auto simp: decode_source_def decode_payload_total split: option.split)

lemma decode_destination_total: "\<exists>d. decode_destination frame offset out = Some d"
  by (rule decode_specifier_total [of frame offset])
     (auto simp: decode_destination_def decode_source_total split: option.split)

text \<open>The addresses the decoded frame points at lie inside the frame.\<close>

definition address_ok :: "u8 list \<Rightarrow> decoded_frame \<Rightarrow> bool" where
  "address_ok frame d \<longleftrightarrow>
     (case dadr d of None \<Rightarrow> True | Some p \<Rightarrow> p + unat (dadrLength d) \<le> length frame) \<and>
     (case sadr d of None \<Rightarrow> True | Some p \<Rightarrow> p + unat (sadrLength d) \<le> length frame)"

text \<open>The route fields, which everything after the specifiers leaves alone.\<close>

definition route :: "decoded_frame \<Rightarrow> nat option \<times> u8 \<times> nat option \<times> u8 \<times> bool \<times> u16" where
  "route d = (dadr d, dadrLength d, sadr d, sadrLength d, hasDest d, dnet d)"

lemma route_upd [simp]:
  "route (d\<lparr>hasObjectProperty := b\<rparr>) = route d" "route (d\<lparr>objectType := t\<rparr>) = route d"
  "route (d\<lparr>objectInstance := i\<rparr>) = route d" "route (d\<lparr>propertyId := i\<rparr>) = route d"
  "route (d\<lparr>hasArrayIndex := b\<rparr>) = route d" "route (d\<lparr>arrayIndex := i\<rparr>) = route d"
  "route (d\<lparr>hasApdu := b\<rparr>) = route d" "route (d\<lparr>pduType := c\<rparr>) = route d" "route (d\<lparr>segmented := b\<rparr>) = route d"
  "route (d\<lparr>hasInvokeId := b\<rparr>) = route d" "route (d\<lparr>invokeId := c\<rparr>) = route d"
  "route (d\<lparr>hasServiceChoice := b\<rparr>) = route d" "route (d\<lparr>serviceChoice := c\<rparr>) = route d"
  "route (d\<lparr>hasReason := b\<rparr>) = route d" "route (d\<lparr>reason := c\<rparr>) = route d"
  "route (d\<lparr>networkMessageType := c\<rparr>) = route d"
  by (simp_all add: route_def)

text \<open>
  What every result of a decoder run satisfies, with one rule per construct of the decoders; \<open>keeps\<close> is
  the case of a run that leaves the part \<open>f\<close> of the frame as in \<open>out\<close>.
\<close>

definition yields :: "(decoded_frame \<Rightarrow> bool) \<Rightarrow> decoded_frame option \<Rightarrow> bool" where
  "yields P r \<longleftrightarrow> (\<forall>d. r = Some d \<longrightarrow> P d)"

abbreviation keeps :: "(decoded_frame \<Rightarrow> 'a) \<Rightarrow> decoded_frame option \<Rightarrow> decoded_frame \<Rightarrow> bool" where
  "keeps f r out \<equiv> yields (\<lambda>d. f d = f out) r"

lemma yields_Some: "P d \<Longrightarrow> yields P (Some d)"
  by (simp add: yields_def)

lemma yields_bind: "(\<And>x. m = Some x \<Longrightarrow> yields P (g x)) \<Longrightarrow> yields P (Option.bind m g)"
  by (cases m) (auto simp: yields_def)

lemma yields_if: "(c \<Longrightarrow> yields P a) \<Longrightarrow> (\<not> c \<Longrightarrow> yields P b) \<Longrightarrow> yields P (if c then a else b)"
  by simp

lemma yields_case: "yields P a \<Longrightarrow> (\<And>x. yields P (g x)) \<Longrightarrow> yields P (case m of None \<Rightarrow> a | Some x \<Rightarrow> g x)"
  by (cases m) auto

lemma yields_specifier:
  "yields P a \<Longrightarrow> (\<And>n. yields P (b n)) \<Longrightarrow> (\<And>n l p. yields P (c n l p)) \<Longrightarrow>
   yields P (case s of Inl None \<Rightarrow> a | Inl (Some n) \<Rightarrow> b n | Inr (n, l, p) \<Rightarrow> c n l p)"
  by (auto split: sum.splits option.splits)

lemma yieldsD: "yields P r \<Longrightarrow> r = Some d \<Longrightarrow> P d"
  by (simp add: yields_def)

lemma yields_mono: "yields P r \<Longrightarrow> (\<And>d. P d \<Longrightarrow> Q d) \<Longrightarrow> yields Q r"
  by (simp add: yields_def)

lemma keeps_trans: "keeps f r d \<Longrightarrow> f d = f out \<Longrightarrow> keeps f r out"
  by (simp add: yields_def)

lemmas yields_intros = yields_Some yields_bind yields_if yields_case

lemma decode_array_index_route: "keeps route (decode_array_index frame pos out) out"
  unfolding decode_array_index_def by (intro yields_intros) simp_all

lemma DecodeObjectAndProperty_route: "keeps route (DecodeObjectAndProperty frame offset out) out"
  unfolding DecodeObjectAndProperty_def Let_def
  by (intro yields_intros keeps_trans [OF decode_array_index_route]) simp_all

lemma decode_apdu_route: "keeps route (decode_apdu frame offset out) out"
  unfolding decode_apdu_def Let_def
  by (intro yields_intros keeps_trans [OF DecodeObjectAndProperty_route]) simp_all

lemma decode_payload_keeps_route: "keeps route (decode_payload frame offset out) out"
  unfolding decode_payload_def Let_def by (intro yields_intros decode_apdu_route) simp_all

lemmas decode_payload_route = yieldsD [OF decode_payload_keeps_route]

lemma address_ok_route: "route d = route out \<Longrightarrow> address_ok frame out \<Longrightarrow> address_ok frame d"
  by (simp add: address_ok_def route_def split: option.splits)

lemma decode_source_address:
  assumes "address_ok frame out" "sadr out = None" "decode_source frame offset out = Some d"
  shows "address_ok frame d"
proof (cases "hasSrc out")
  case False
  then have "decode_payload frame offset out = Some d" using assms(3) by (simp add: decode_source_def)
  then show ?thesis using address_ok_route [OF decode_payload_route assms(1)] by blast
next
  case True
  show ?thesis
  proof (rule decode_specifier_total [of frame offset])
    fix net assume "decode_specifier frame offset = Some (Inl net)"
    then show ?thesis using True assms by (cases net) (auto simp: decode_source_def address_ok_def split: option.splits)
  next
    fix net len assume s: "decode_specifier frame offset = Some (Inr (net, len, offset + 3))" "offset + 3 + unat len \<le> length frame"
    let ?o = "out\<lparr>snet := net, sadrLength := len, sadr := (if 0 < len then Some (offset + 3) else None)\<rparr>"
    have "decode_payload frame (offset + 3 + unat len) ?o = Some d" using s(1) True assms(3) by (simp add: decode_source_def)
    then have "route d = route ?o" by (rule decode_payload_route)
    moreover have "address_ok frame ?o" using assms(1) s(2) by (simp add: address_ok_def split: option.splits)
    ultimately show ?thesis by (rule address_ok_route)
  qed
qed

lemma decode_destination_address:
  assumes "dadr out = None" "sadr out = None" "decode_destination frame offset out = Some d"
  shows "address_ok frame d"
proof (cases "hasDest out")
  case False
  then show ?thesis using assms decode_source_address [of frame out] by (simp add: decode_destination_def address_ok_def)
next
  case True
  show ?thesis
  proof (rule decode_specifier_total [of frame offset])
    fix net assume "decode_specifier frame offset = Some (Inl net)"
    then show ?thesis using True assms by (cases net) (auto simp: decode_destination_def address_ok_def split: option.splits)
  next
    fix net len assume s: "decode_specifier frame offset = Some (Inr (net, len, offset + 3))" "offset + 3 + unat len \<le> length frame"
    let ?o = "out\<lparr>dnet := net, dadrLength := len, dadr := (if 0 < len then Some (offset + 3) else None)\<rparr>"
    have "decode_source frame (offset + 3 + unat len) ?o = Some d" using s(1) True assms(3) by (simp add: decode_destination_def)
    moreover have "address_ok frame ?o" "sadr ?o = None" using assms(2) s(2) by (simp_all add: address_ok_def)
    ultimately show ?thesis using decode_source_address by blast
  qed
qed

text \<open>The frames that are walked: a BVLC header of a kind that carries an NPDU, and the two NPDU octets.\<close>

definition npdu_offset :: "u8 \<Rightarrow> nat" where
  "npdu_offset f = (if f = 0x04 then 10 else 4)"

definition carries_npdu :: "u8 list \<Rightarrow> bool" where
  "carries_npdu frame \<longleftrightarrow> 4 \<le> length frame \<and> frame ! 0 = 0x81 \<and> frame ! 1 \<in> {0x0A, 0x0B, 0x04} \<and>
     npdu_offset (frame ! 1) + 2 \<le> length frame"

definition npdu_start :: "u8 list \<Rightarrow> decoded_frame" where
  "npdu_start frame = (let c = frame ! (npdu_offset (frame ! 1) + 1) in
     DecodedFrame_init\<lparr>bacnetIp := True, bvlcFunction := frame ! 1, hasNpdu := True, npduVersion := frame ! npdu_offset (frame ! 1),
       npduControl := c, hasDest := (c AND 0x20 \<noteq> 0), hasSrc := (c AND 0x08 \<noteq> 0), isNetworkMessage := (c AND 0x80 \<noteq> 0)\<rparr>)"

lemma DecodeBacnetFrame_cases:
  "DecodeBacnetFrame frame =
     (if carries_npdu frame then decode_destination frame (npdu_offset (frame ! 1) + 2) (npdu_start frame)
      else if 4 \<le> length frame \<and> frame ! 0 = 0x81 then Some (DecodedFrame_init\<lparr>bacnetIp := True, bvlcFunction := frame ! 1\<rparr>)
      else Some DecodedFrame_init)"
proof (cases "4 \<le> length frame \<and> frame ! 0 = 0x81")
  case True
  then have "rd frame 0 = Some 0x81" "rd frame 1 = Some (frame ! 1)" by (auto simp: rd_def)
  with True show ?thesis
    by (auto simp: DecodeBacnetFrame_def carries_npdu_def npdu_start_def npdu_offset_def Let_def rd_def)
qed (auto simp: DecodeBacnetFrame_def carries_npdu_def rd_def)

lemma DecodeBacnetFrame_total: "\<exists>d. DecodeBacnetFrame frame = Some d"
  unfolding DecodeBacnetFrame_cases using decode_destination_total by (auto split: if_split)

lemma DecodeBacnetFrame_address:
  assumes "DecodeBacnetFrame frame = Some d"
  shows "address_ok frame d"
proof (cases "carries_npdu frame")
  case True
  have "dadr (npdu_start frame) = None" "sadr (npdu_start frame) = None"
    by (simp_all add: npdu_start_def DecodedFrame_init_def Let_def)
  with True assms show ?thesis unfolding DecodeBacnetFrame_cases using decode_destination_address by (simp split: if_splits)
qed (use assms in \<open>auto simp: DecodeBacnetFrame_cases address_ok_def DecodedFrame_init_def split: if_splits\<close>)

section \<open>Decoding what was encoded\<close>

text \<open>
  The encoding the decoder walks: the low \<open>n\<close> octets of a value, most significant first, the number of
  octets a BACnet unsigned takes, the object identifier, a context tag with a value, and the frame of
  a ReadProperty (12) or WriteProperty (15) request. \<open>idx\<close> is the array index if one is given, \<open>content\<close>
  the content between the opening and closing tag 3 of a WriteProperty.
\<close>

fun octets :: "nat \<Rightarrow> u32 \<Rightarrow> u8 list" where
  "octets 0 w = []"
| "octets (Suc n) w = octets n (drop_bit 8 w) @ [ucast w]"

definition octet_count :: "u32 \<Rightarrow> nat" where
  "octet_count w = (if w < 0x100 then 1 else if w < 0x10000 then 2 else if w < 0x1000000 then 3 else 4)"

definition context_tag :: "u8 \<Rightarrow> nat \<Rightarrow> u8" where
  "context_tag t n = push_bit 4 t OR 8 OR of_nat n"

definition context_unsigned :: "u8 \<Rightarrow> u32 \<Rightarrow> u8 list" where
  "context_unsigned t w = context_tag t (octet_count w) # octets (octet_count w) w"

definition object_id :: "u16 \<Rightarrow> u32 \<Rightarrow> u32" where
  "object_id t i = push_bit 22 (ucast t) OR i"

definition object_property :: "u16 \<Rightarrow> u32 \<Rightarrow> u32 \<Rightarrow> u32 option \<Rightarrow> u8 list option \<Rightarrow> u8 list" where
  "object_property t i p idx content =
     context_tag 0 4 # octets 4 (object_id t i) @ context_unsigned 1 p @
     (case idx of None \<Rightarrow> [] | Some x \<Rightarrow> context_unsigned 2 x) @
     (case content of None \<Rightarrow> [] | Some v \<Rightarrow> 0x3E # v @ [0x3F])"

definition property_request :: "u8 \<Rightarrow> u8 \<Rightarrow> u8 \<Rightarrow> u8 list \<Rightarrow> u8 list" where
  "property_request bvlc invoke service body =
     (let n = 10 + length body
      in [0x81, bvlc, of_nat (n div 256), of_nat n, 0x01, 0x04, 0x00, 0x05, invoke, service] @ body)"

lemma octets_length [simp]: "length (octets n w) = n"
  by (induction n arbitrary: w) auto

lemma octets_4: "octets 4 w = [ucast (drop_bit 24 w), ucast (drop_bit 16 w), ucast (drop_bit 8 w), ucast w]"
  by (simp add: eval_nat_numeral)

lemma be32_octets: "be32 (ucast (drop_bit 24 w)) (ucast (drop_bit 16 w)) (ucast (drop_bit 8 w)) (ucast (w :: u32)) = w"
proof (rule bit_word_eqI)
  fix n assume "n < LENGTH(32)"
  then consider "n < 8" | "8 \<le> n" "n < 16" | "16 \<le> n" "n < 24" | "24 \<le> n" "n < 32" by fastforce
  then show "bit (be32 (ucast (drop_bit 24 w)) (ucast (drop_bit 16 w)) (ucast (drop_bit 8 w)) (ucast w)) n = bit w n"
    by cases (auto simp: be32_def bit_or_iff bit_push_bit_iff bit_ucast_iff bit_drop_bit_eq)
qed


lemma read_be_snoc: "read_be frame pos (Suc n) v = do { w \<leftarrow> read_be frame pos n v; b \<leftarrow> rd frame (pos + n); Some (push_bit 8 w OR ucast b) }"
proof (induction n arbitrary: pos v)
  case (Suc n)
  show ?case
  proof (cases "rd frame pos")
    case (Some a)
    then have "read_be frame pos (Suc (Suc n)) v = read_be frame (pos + 1) (Suc n) (push_bit 8 v OR ucast a)"
      by (simp only: read_be.simps bind.simps)
    moreover have "read_be frame pos (Suc n) v = read_be frame (pos + 1) n (push_bit 8 v OR ucast a)"
      using Some by (simp only: read_be.simps bind.simps)
    moreover have "pos + 1 + n = pos + Suc n" by simp
    ultimately show ?thesis using Suc.IH [of "pos + 1" "push_bit 8 v OR ucast a"] by metis
  qed simp
qed simp

lemma take_bit_self: "unat w < 2 ^ n \<Longrightarrow> take_bit n w = w"
  by (metis take_bit_nat_eq_self unsigned_take_bit_eq unsigned_word_eqI)

lemma read_be_append: "read_be (pre @ octets n w @ post) (length pre) n v = Some (push_bit (8 * n) v OR take_bit (8 * n) w)"
proof (induction n arbitrary: w post)
  case (Suc n)
  have b: "rd (pre @ octets n (drop_bit 8 w) @ ucast w # post) (length pre + n) = Some (ucast w)"
    by (simp add: rd_def nth_append)
  have e: "push_bit 8 (push_bit (8 * n) v OR take_bit (8 * n) (drop_bit 8 w)) OR ucast (ucast w :: u8) =
        push_bit (8 * Suc n) v OR take_bit (8 * Suc n) w"
    by (rule bit_word_eqI) (auto simp: bit_or_iff bit_push_bit_iff bit_take_bit_iff bit_drop_bit_eq bit_ucast_iff)
  show ?case unfolding read_be_snoc using Suc.IH [of "drop_bit 8 w" "ucast w # post"] b e by simp
qed simp

lemma octet_count_bound: "octet_count w \<in> {1, 2, 3, 4}" "take_bit (8 * octet_count w) w = w"
proof -
  show "octet_count w \<in> {1, 2, 3, 4}" by (simp add: octet_count_def)
  have "unat w < 2 ^ 32" using unsigned_less [of w] by simp
  then show "take_bit (8 * octet_count w) w = w"
    by (intro take_bit_self) (simp add: octet_count_def word_less_nat_alt)
qed

lemma context_tag_decode:
  assumes "t \<in> {0,1,2}" "n \<in> {1,2,3,4}"
  shows "DecodeTagHeader (pre @ context_tag t n # post) (length pre) =
    Some (Some \<lparr>tagNumber = t, contextSpecific = True, isOpeningTag = False, isClosingTag = False, tagLength = of_nat n, headerLength = 1\<rparr>)"
  using assms by (auto simp: DecodeTagHeader_def context_tag_def tag_length_def rd_def Let_def)

lemma object_id_decode:
  assumes "t < 0x400" "i < 0x400000"
  shows "ucast (drop_bit 22 (object_id t i) AND 0x3FF) = t" "object_id t i AND 0x3FFFFF = i"
proof -
  have t: "take_bit 10 t = t" using assms(1) by (simp add: take_bit_self word_less_nat_alt)
  have i: "take_bit 22 i = i" using assms(2) by (simp add: take_bit_self word_less_nat_alt)
  have m: "(0x3FF :: u32) = mask 10" "(0x3FFFFF :: u32) = mask 22" by (simp_all add: mask_eq_exp_minus_1)
  show "ucast (drop_bit 22 (object_id t i) AND 0x3FF) = t"
    by (rule bit_word_eqI) (subst t [symmetric], subst i [symmetric], auto simp: m object_id_def bit_simps)
  show "object_id t i AND 0x3FFFFF = i"
    by (rule bit_word_eqI) (subst (2) i [symmetric], auto simp: m object_id_def bit_simps)
qed
lemma octet_count_word [simp]:
  "unat (of_nat (octet_count w) :: u32) = octet_count w" "of_nat (octet_count w) \<le> (4 :: u32)" "0 < (of_nat (octet_count w) :: u32)"
  "of_nat (octet_count w) \<noteq> (0 :: u32)" "\<not> (4 :: u32) < of_nat (octet_count w)"
  using octet_count_bound(1) [of w] by auto

lemma context_unsigned_length [simp]: "length (context_unsigned t w) = Suc (octet_count w)"
  by (simp add: context_unsigned_def)

lemma context_unsigned_decode:
  assumes "t \<in> {0, 1, 2}"
  shows "DecodeTagHeader (pre @ context_unsigned t w @ post) (length pre) =
      Some (Some \<lparr>tagNumber = t, contextSpecific = True, isOpeningTag = False, isClosingTag = False,
                  tagLength = of_nat (octet_count w), headerLength = 1\<rparr>)"
    "read_be (pre @ context_unsigned t w @ post) (Suc (length pre)) (octet_count w) 0 = Some w"
proof -
  show "DecodeTagHeader (pre @ context_unsigned t w @ post) (length pre) =
      Some (Some \<lparr>tagNumber = t, contextSpecific = True, isOpeningTag = False, isClosingTag = False,
                  tagLength = of_nat (octet_count w), headerLength = 1\<rparr>)"
    using context_tag_decode [OF assms octet_count_bound(1)] by (simp add: context_unsigned_def)
  show "read_be (pre @ context_unsigned t w @ post) (Suc (length pre)) (octet_count w) 0 = Some w"
    using read_be_append [of "pre @ [context_tag t (octet_count w)]" "octet_count w" w post 0]
    by (simp add: context_unsigned_def octet_count_bound(2))
qed

text \<open>What follows the property identifier is an array index, or is not taken for one.\<close>

lemma decode_array_index_append:
  "decode_array_index (pre @ (case idx of None \<Rightarrow> [] | Some x \<Rightarrow> context_unsigned 2 x) @ (case content of None \<Rightarrow> [] | Some v \<Rightarrow> 0x3E # v @ [0x3F]))
     (length pre) out =
   Some (case idx of None \<Rightarrow> out | Some x \<Rightarrow> out\<lparr>hasArrayIndex := True, arrayIndex := x\<rparr>)"
proof (cases idx)
  case None
  then show ?thesis
    by (cases content) (auto simp: decode_array_index_def DecodeTagHeader_def tag_length_def rd_def Let_def)
next
  case (Some x)
  let ?post = "case content of None \<Rightarrow> [] | Some v \<Rightarrow> 0x3E # v @ [0x3F]"
  have "decode_array_index (pre @ context_unsigned 2 x @ ?post) (length pre) out = Some (out\<lparr>hasArrayIndex := True, arrayIndex := x\<rparr>)"
    using context_unsigned_decode(1,2) [of 2 pre x ?post] by (simp add: decode_array_index_def)
  with Some show ?thesis by simp
qed

lemma object_property_decode:
  assumes "t < 0x400" "i < 0x400000"
  shows "DecodeObjectAndProperty (pre @ object_property t i p idx content) (length pre) out =
    Some (let out = out\<lparr>hasObjectProperty := True, objectType := t, objectInstance := i, propertyId := p\<rparr>
      in case idx of None \<Rightarrow> out | Some x \<Rightarrow> out\<lparr>hasArrayIndex := True, arrayIndex := x\<rparr>)"
proof -
  define frame where "frame = pre @ object_property t i p idx content"
  define tail where "tail = (case idx of None \<Rightarrow> [] | Some x \<Rightarrow> context_unsigned 2 x) @ (case content of None \<Rightarrow> [] | Some v \<Rightarrow> 0x3E # v @ [0x3F])"
  define pre1 where "pre1 = pre @ context_tag 0 4 # octets 4 (object_id t i)"
  define pre2 where "pre2 = pre1 @ context_unsigned 1 p"
  have f0: "frame = pre @ context_tag 0 4 # octets 4 (object_id t i) @ context_unsigned 1 p @ tail"
    by (simp add: frame_def object_property_def tail_def)
  have f1: "frame = pre1 @ context_unsigned 1 p @ tail" by (simp add: f0 pre1_def)
  have f2: "frame = pre2 @ tail" by (simp add: f1 pre2_def)
  have l1: "length pre1 = length pre + 5" by (simp add: pre1_def)
  have l2: "length pre2 = length pre + 6 + octet_count p" by (simp add: pre2_def l1)
  have t0: "DecodeTagHeader frame (length pre) = Some (Some \<lparr>tagNumber = 0, contextSpecific = True, isOpeningTag = False,
      isClosingTag = False, tagLength = 4, headerLength = 1\<rparr>)"
    using context_tag_decode [of 0 4 pre] by (simp add: f0)
  have t1: "DecodeTagHeader frame (length pre + 5) = Some (Some \<lparr>tagNumber = 1, contextSpecific = True, isOpeningTag = False,
      isClosingTag = False, tagLength = of_nat (octet_count p), headerLength = 1\<rparr>)"
    using context_unsigned_decode(1) [of 1 pre1 p tail] by (simp add: f1 l1)
  have r1: "read_be frame (length pre + 6) (octet_count p) 0 = Some p"
    using context_unsigned_decode(2) [of 1 pre1 p tail] by (simp add: f1 l1 add.commute)
  have o: "rd frame (length pre + 1) = Some (ucast (drop_bit 24 (object_id t i)))" "rd frame (length pre + 2) = Some (ucast (drop_bit 16 (object_id t i)))"
    "rd frame (length pre + 3) = Some (ucast (drop_bit 8 (object_id t i)))" "rd frame (length pre + 4) = Some (ucast (object_id t i))"
    by (simp_all add: f0 rd_def nth_append octets_4)
  have o3: "rd frame (Suc (Suc (Suc (length pre)))) = Some (ucast (drop_bit 8 (object_id t i)))" using o(3) by (simp add: numeral_3_eq_3)
  have len: "length frame = length pre + 6 + octet_count p + length tail" by (simp add: f2 l2)
  have "DecodeObjectAndProperty frame (length pre) out =
     decode_array_index frame (length pre2) (out\<lparr>hasObjectProperty := True, objectType := t, objectInstance := i, propertyId := p\<rparr>)"
    unfolding DecodeObjectAndProperty_def using t0 t1 r1 o o3 len l2
    by (simp add: Let_def be32_octets object_id_decode [OF assms] add.assoc add.commute [of _ "length pre"] del: rd_in)
  then show ?thesis
    unfolding f2 tail_def frame_def [symmetric] by (simp add: decode_array_index_append Let_def)
qed


text \<open>C9. Decoding a frame never reads an octet outside it (the decoder has a result for every octet string, of every length), and the destination and source addresses of the result lie inside the frame.\<close>

theorem decode_stays_in_frame: "\<exists>d. DecodeBacnetFrame frame = Some d \<and> address_ok frame d"
  using DecodeBacnetFrame_total DecodeBacnetFrame_address by blast

text \<open>C30. A ReadProperty or WriteProperty request, unicast or broadcast, decodes to what was encoded: the PDU type, the invoke id, the service, the object type and instance, the property and the array index, which is absent if none was encoded.\<close>

theorem property_request_roundtrip:
  assumes "t < 0x400" "i < 0x400000" "f \<in> {0x0A, 0x0B}" "s \<in> {12, 15}"
  shows "\<exists>d. DecodeBacnetFrame (property_request f invoke s (object_property t i p idx content)) = Some d \<and>
    hasApdu d \<and> pduType d = 0 \<and> \<not> segmented d \<and> invokeId d = invoke \<and> serviceChoice d = s \<and>
    hasObjectProperty d \<and> objectType d = t \<and> objectInstance d = i \<and> propertyId d = p \<and>
    (if hasArrayIndex d then Some (arrayIndex d) else None) = idx"
proof -
  define body where "body = object_property t i p idx content"
  define pre :: "u8 list" where "pre = [0x81, f, of_nat ((10 + length body) div 256), of_nat (10 + length body), 0x01, 0x04, 0x00, 0x05, invoke, s]"
  have len: "length pre = 10" by (simp add: pre_def)
  have n: "pre ! 0 = 0x81" "pre ! 1 = f" "pre ! Suc 0 = f" "pre ! 4 = 1" "pre ! 5 = 4" "pre ! 6 = 0" "pre ! 8 = invoke" "pre ! 9 = s" by (simp_all add: pre_def)
  have off: "npdu_offset f = 4" using assms(3) by (auto simp: npdu_offset_def)
  have c: "carries_npdu (pre @ body)" using assms(3) by (auto simp: carries_npdu_def nth_append len n npdu_offset_def)
  let ?st = "npdu_start (pre @ body)"
  have st: "\<not> hasDest ?st" "\<not> hasSrc ?st" "\<not> isNetworkMessage ?st" "\<not> hasArrayIndex ?st"
    by (simp_all add: npdu_start_def nth_append len n off DecodedFrame_init_def Let_def)
  have "DecodeBacnetFrame (pre @ body) = decode_apdu (pre @ body) 6 ?st"
    using c st by (simp add: DecodeBacnetFrame_cases decode_destination_def decode_source_def decode_payload_def nth_append len n off)
  also have "\<dots> = DecodeObjectAndProperty (pre @ body) 10
      (?st\<lparr>hasApdu := True, pduType := 0, segmented := False, hasInvokeId := True, invokeId := invoke, hasServiceChoice := True, serviceChoice := s\<rparr>)"
    using assms(4) by (auto simp: decode_apdu_def nth_append len n Let_def)
  finally have "DecodeBacnetFrame (pre @ body) = \<dots>" .
  then show ?thesis
    using object_property_decode [OF assms(1,2), of pre p idx content, unfolded len] st
    by (cases idx) (simp_all add: property_request_def body_def pre_def Let_def)
qed

text \<open>Witness: the request for the Present_Value of Analog Value 7, and one with an array index.\<close>

theorem property_request_roundtrip_witness:
  "property_request 0x0A 1 12 (object_property 2 7 85 None None) =
     [0x81, 0x0A, 0, 17, 1, 4, 0, 5, 1, 12, 0x0C, 0, 0x80, 0, 7, 0x19, 85] \<and>
   (\<exists>d. DecodeBacnetFrame [0x81, 0x0A, 0, 17, 1, 4, 0, 5, 1, 12, 0x0C, 0, 0x80, 0, 7, 0x19, 85] = Some d \<and>
     hasApdu d \<and> pduType d = 0 \<and> \<not> segmented d \<and> invokeId d = 1 \<and> serviceChoice d = 12 \<and>
     hasObjectProperty d \<and> objectType d = 2 \<and> objectInstance d = 7 \<and> propertyId d = 85 \<and>
     (if hasArrayIndex d then Some (arrayIndex d) else None) = None)"
proof -
  have e: "property_request 0x0A 1 12 (object_property 2 7 85 None None) =
     [0x81, 0x0A, 0, 17, 1, 4, 0, 5, 1, 12, 0x0C, 0, 0x80, 0, 7, 0x19, 85]" by code_simp
  show ?thesis using property_request_roundtrip [of 2 7 "0x0A" 12 1 85 None None, unfolded e] e by simp
qed

end
