(* ===== verification/Transport.thy ===== *)
theory Transport
  imports Frame_Decode
begin

unbundle bit_operations_syntax

text \<open>
  The BACnet/IP transport: the socket wrapper \<open>SimpleUDP\<close> and the bindings table of
  \<open>common/CASExampleHelper.cpp\<close> with its receive and send callbacks. The host's side is explicit:
  a socket has the queue of the datagrams the host holds for it (\<open>inbox\<close>), \<open>getifaddrs\<close> is the list of
  interfaces, \<open>socket\<close>, \<open>bind\<close> and \<open>sendto\<close> are arguments, and what is sent is returned as a list of
  datagrams. The POSIX branches are modelled; console output is not.
\<close>

section \<open>SimpleUDP\<close>

record datagram =
  octets_of :: "u8 list"
  from_ip :: "u8 list"
  from_port :: u16

record simple_udp =
  m_socket :: bool
  m_connected :: bool
  inbox :: "datagram list"

definition SimpleUDP_init :: simple_udp where
  "SimpleUDP_init = \<lparr>m_socket = False, m_connected = False, inbox = []\<rparr>"

definition Disconnect :: "simple_udp \<Rightarrow> simple_udp" where
  "Disconnect s = (if m_socket s then s\<lparr>m_socket := False, inbox := [], m_connected := False\<rparr> else s\<lparr>m_connected := False\<rparr>)"

text \<open>\<open>m_socket\<close> is false for \<open>INVALID_SOCK\<close>. \<open>socket_ok\<close> and \<open>bind_ok\<close> are the outcomes of the host calls.\<close>

definition Connect :: "bool \<Rightarrow> bool \<Rightarrow> simple_udp \<Rightarrow> bool \<times> simple_udp" where
  "Connect socket_ok bind_ok s =
     (if \<not> socket_ok then (False, s\<lparr>m_socket := False, inbox := []\<rparr>)
      else (let s = s\<lparr>m_socket := True, inbox := []\<rparr>
            in if \<not> bind_ok then (False, Disconnect s) else (True, s\<lparr>m_connected := True\<rparr>)))"

record packet =
  to_ip :: "u8 list"
  to_port :: u16
  payload :: "u8 list"

text \<open>\<open>sendto\<close> is the host's answer: the number of octets sent, or a negative number.\<close>

definition Send :: "(packet \<Rightarrow> int) \<Rightarrow> simple_udp \<Rightarrow> u8 list \<Rightarrow> u16 \<Rightarrow> u8 list \<Rightarrow> u16 \<times> packet list" where
  "Send sendto s ip port data =
     (if \<not> m_connected s then (0, [])
      else (let p = \<lparr>to_ip = ip, to_port = port, payload = data\<rparr>; sent = sendto p
            in (if 0 < sent then word_of_int sent else 0, [p])))"

text \<open>\<open>select\<close> reports a waiting datagram, which \<open>recvfrom\<close> then takes off the queue and truncates.\<close>

definition Receive :: "simple_udp \<Rightarrow> u16 \<Rightarrow> datagram option \<times> simple_udp" where
  "Receive s maxLength =
     (if \<not> m_connected s then (None, s)
      else (case inbox s of
              [] \<Rightarrow> (None, s)
            | d # ds \<Rightarrow>
                (let buffer = take (unat maxLength) (octets_of d)
                 in (if buffer = [] then None else Some (d\<lparr>octets_of := buffer\<rparr>), s\<lparr>inbox := ds\<rparr>))))"

section \<open>The bindings table\<close>

record udp_binding =
  udp :: simple_udp
  port_of :: u16
  instance_of :: u32
  bound :: bool
  peerIp :: "u8 list"
  peerPort :: u16
  hasPeer :: bool

definition UdpBinding_init :: udp_binding where
  "UdpBinding_init = \<lparr>udp = SimpleUDP_init, port_of = 0, instance_of = 0, bound = False, peerIp = [0, 0, 0, 0], peerPort = 0, hasPeer = False\<rparr>"

definition MAX_UDP_BINDINGS :: nat where [simp]: "MAX_UDP_BINDINGS = 4"

text \<open>
  \<open>bindings\<close> is the part of \<open>g_udpBindings\<close> below \<open>g_udpBindingCount\<close>: the rest of the array is never
  read and keeps its initial values. \<open>nextBinding\<close> is \<open>s_nextBindingToCheck\<close>.
\<close>

record transport =
  bindings :: "udp_binding list"
  g_port :: u16
  g_networkPortInstance :: u32
  nextBinding :: nat

definition transport_init :: transport where
  "transport_init = \<lparr>bindings = [], g_port = 47808, g_networkPortInstance = 1, nextBinding = 0\<rparr>"

fun find_binding :: "u32 \<Rightarrow> nat \<Rightarrow> udp_binding list \<Rightarrow> nat option" where
  "find_binding inst i [] = None"
| "find_binding inst i (b # bs) = (if instance_of b = inst then Some i else find_binding inst (Suc i) bs)"

definition FindUdpBindingByInstance :: "u32 \<Rightarrow> transport \<Rightarrow> nat option" where
  "FindUdpBindingByInstance inst t = find_binding inst 0 (bindings t)"

definition SetupUDP :: "bool \<Rightarrow> bool \<Rightarrow> u16 \<Rightarrow> u32 \<Rightarrow> transport \<Rightarrow> bool \<times> transport" where
  "SetupUDP socket_ok bind_ok port inst t =
     (case (case FindUdpBindingByInstance inst t of
              Some i \<Rightarrow> Some (i, t)
            | None \<Rightarrow>
                if MAX_UDP_BINDINGS \<le> length (bindings t) then None
                else Some (length (bindings t), t\<lparr>bindings := bindings t @ [UdpBinding_init\<lparr>instance_of := inst\<rparr>]\<rparr>)) of
        None \<Rightarrow> (False, t)
      | Some (i, t) \<Rightarrow>
          (let b = bindings t ! i; (ok, u) = Connect socket_ok bind_ok (udp b)
           in if \<not> ok then (False, t\<lparr>bindings := (bindings t)[i := b\<lparr>udp := u\<rparr>]\<rparr>)
              else (True, (let t = t\<lparr>bindings := (bindings t)[i := b\<lparr>udp := u, port_of := port, bound := True\<rparr>]\<rparr>
                           in if inst = g_networkPortInstance t then t\<lparr>g_port := port\<rparr> else t))))"

text \<open>The overload for the current Network Port.\<close>

definition SetupUDP_current :: "bool \<Rightarrow> bool \<Rightarrow> u16 \<Rightarrow> transport \<Rightarrow> bool \<times> transport" where [simp]:
  "SetupUDP_current socket_ok bind_ok port t = SetupUDP socket_ok bind_ok port (g_networkPortInstance t) t"

definition ShutdownUDP :: "transport \<Rightarrow> transport" where
  "ShutdownUDP t = t\<lparr>bindings := map (\<lambda>b. if bound b then b\<lparr>udp := Disconnect (udp b), bound := False\<rparr> else b) (bindings t)\<rparr>"

definition SetNetworkPortInstance :: "u32 \<Rightarrow> transport \<Rightarrow> transport" where
  "SetNetworkPortInstance inst t = t\<lparr>g_networkPortInstance := inst\<rparr>"

section \<open>Interfaces and addresses\<close>

record interface =
  is_inet :: bool
  is_loopback :: bool
  is_up :: bool
  if_addr :: "u8 list"
  if_netmask :: "u8 list option"

text \<open>\<open>getifaddrs\<close> is an argument: \<open>None\<close> if it fails.\<close>

fun first_interface :: "interface list \<Rightarrow> (u8 list \<times> u8 list) option" where
  "first_interface [] = None"
| "first_interface (a # rest) =
     (if \<not> is_inet a then first_interface rest
      else if is_loopback a \<or> \<not> is_up a then first_interface rest
      else Some (if_addr a, case if_netmask a of None \<Rightarrow> [0, 0, 0, 0] | Some m \<Rightarrow> m))"

definition GetPrimaryIPv4 :: "interface list option \<Rightarrow> (u8 list \<times> u8 list) option" where
  "GetPrimaryIPv4 ifs = (case ifs of None \<Rightarrow> None | Some l \<Rightarrow> first_interface l)"

definition GetLocalBroadcastIPv4 :: "interface list option \<Rightarrow> u8 list" where
  "GetLocalBroadcastIPv4 ifs =
     (case GetPrimaryIPv4 ifs of
        Some (ip, netmask) \<Rightarrow> map (\<lambda>k. ip ! k OR NOT (netmask ! k)) [0, 1, 2, 3]
      | None \<Rightarrow> [255, 255, 255, 255])"

text \<open>The connection string of a BACnet/IP address: four address octets and the port, most significant octet first.\<close>

definition connection_string :: "u8 list \<Rightarrow> u16 \<Rightarrow> u8 list" where
  "connection_string ip port = [ip ! 0, ip ! 1, ip ! 2, ip ! 3, ucast (drop_bit 8 port), ucast port]"

section \<open>Receiving\<close>

text \<open>The polling loop, from its \<open>k\<close>-th round on: the index served and the datagram.\<close>

fun poll_bindings :: "u16 \<Rightarrow> nat \<Rightarrow> nat \<Rightarrow> nat \<Rightarrow> udp_binding list \<Rightarrow> (nat \<times> datagram) option \<times> udp_binding list" where
  "poll_bindings maxLength start k 0 bs = (None, bs)"
| "poll_bindings maxLength start k (Suc rounds) bs =
     (let i = (start + k) mod length bs; b = bs ! i
      in if \<not> bound b then poll_bindings maxLength start (Suc k) rounds bs
         else (let (r, u) = Receive (udp b) maxLength; bs = bs[i := b\<lparr>udp := u\<rparr>]
               in case r of
                    Some d \<Rightarrow> (Some (i, d), bs)
                  | None \<Rightarrow> poll_bindings maxLength start (Suc k) rounds bs))"

definition remember_peer :: "u32 \<Rightarrow> datagram \<Rightarrow> udp_binding \<Rightarrow> udp_binding" where
  "remember_peer served d b =
     (if bound b \<and> instance_of b = served \<and> from_port d \<noteq> port_of b
      then b\<lparr>peerIp := from_ip d, peerPort := from_port d, hasPeer := True\<rparr> else b)"

record received =
  message :: "u8 list"
  sourceConnectionString :: "u8 list"
  arrivedOn :: u32

text \<open>\<open>None\<close> is the return value 0: nothing to process.\<close>

definition HelperReceiveMessage :: "u16 \<Rightarrow> u8 \<Rightarrow> transport \<Rightarrow> received option \<times> transport" where
  "HelperReceiveMessage maxMessageLength maxConnectionStringLength t =
     (if maxConnectionStringLength < 6 \<or> bindings t = [] then (None, t)
      else (let n = length (bindings t)
            in case poll_bindings maxMessageLength (nextBinding t) 0 n (bindings t) of
                 (None, bs) \<Rightarrow> (None, t\<lparr>bindings := bs, nextBinding := (nextBinding t + 1) mod n\<rparr>)
               | (Some (i, d), bs) \<Rightarrow>
                   (let served = instance_of (bs ! i)
                    in (Some \<lparr>message = octets_of d, sourceConnectionString = connection_string (from_ip d) (from_port d), arrivedOn = served\<rparr>,
                        t\<lparr>bindings := map (remember_peer served d) bs, nextBinding := (i + 1) mod n\<rparr>))))"

section \<open>Sending\<close>

text \<open>
  \<open>chosen_offset\<close> is the walk over the two specifiers and the hop count; the inner \<open>None\<close> is the early
  return of false. An outer \<open>None\<close> is a read outside the message.
\<close>

definition skip_specifier :: "u8 list \<Rightarrow> bool \<Rightarrow> nat \<Rightarrow> nat option option" where
  "skip_specifier msg present i =
     (if \<not> present then Some (Some i)
      else if length msg < i + 3 then Some None
      else do { l \<leftarrow> rd msg (i + 2); Some (Some (i + 3 + unat l)) })"

definition chosen_payload :: "u8 list \<Rightarrow> u8 \<Rightarrow> nat \<Rightarrow> bool option" where
  "chosen_payload msg control i =
     (if control AND 0x80 \<noteq> 0 then Some True
      else if \<not> i + 2 \<le> length msg then Some False
      else do { a \<leftarrow> rd msg i; b \<leftarrow> rd msg (i + 1); Some (drop_bit 4 a = 1 \<and> (b = 0 \<or> b = 1)) })"

definition IsStackChosenBroadcast :: "u8 list \<Rightarrow> bool option" where
  "IsStackChosenBroadcast msg =
     (if length msg < 6 then Some False
      else do {
        b0 \<leftarrow> rd msg 0; b1 \<leftarrow> rd msg 1; b4 \<leftarrow> rd msg 4; control \<leftarrow> rd msg 5;
        (if b0 \<noteq> 0x81 then Some False
         else if b1 \<noteq> 0x0A \<and> b1 \<noteq> 0x0B then Some False
         else if b4 \<noteq> 0x01 then Some False
         else do {
           dest \<leftarrow> skip_specifier msg (control AND 0x20 \<noteq> 0) 6;
           (case dest of
              None \<Rightarrow> Some False
            | Some i \<Rightarrow> do {
                src \<leftarrow> skip_specifier msg (control AND 0x08 \<noteq> 0) i;
                (case src of
                   None \<Rightarrow> Some False
                 | Some i \<Rightarrow> chosen_payload msg control (if control AND 0x20 \<noteq> 0 then i + 1 else i)) }) }) })"

text \<open>
  \<open>HelperSendMessage\<close>: the number of octets it reports and the datagrams that leave. \<open>connectionString\<close>
  is the first \<open>connectionStringLength\<close> octets, empty for a NULL pointer. \<open>destination_of\<close> is the choice
  of the address; \<open>None\<close> is the refusal of a string of 1 to 5 octets.
\<close>

definition destination_of :: "interface list option \<Rightarrow> udp_binding \<Rightarrow> u8 list \<Rightarrow> bool \<Rightarrow> (u8 list \<times> u16) option" where
  "destination_of ifs b conn broadcast =
     (if conn = [] then Some (GetLocalBroadcastIPv4 ifs, port_of b)
      else if length conn < 6 then None
      else (let ip = take 4 conn; port = be16 (conn ! 4) (conn ! 5)
            in Some (if broadcast \<and> port = port_of b \<and> map_option fst (GetPrimaryIPv4 ifs) = Some ip
                     then GetLocalBroadcastIPv4 ifs else ip, port)))"

definition HelperSendMessage ::
  "interface list option \<Rightarrow> (packet \<Rightarrow> int) \<Rightarrow> transport \<Rightarrow> u8 list \<Rightarrow> u8 list \<Rightarrow> u32 \<Rightarrow> bool \<Rightarrow> u16 \<times> packet list" where
  "HelperSendMessage ifs sendto t msg conn inst broadcast =
     (case FindUdpBindingByInstance inst t of
        None \<Rightarrow> (0, [])
      | Some i \<Rightarrow>
          (let b = bindings t ! i
           in if \<not> bound b then (0, [])
              else (case destination_of ifs b conn broadcast of
                      None \<Rightarrow> (0, [])
                    | Some (ip, port) \<Rightarrow>
                        (let (sent, out) = Send sendto (udp b) ip port msg
                         in if conn = [] \<and> hasPeer b \<and> IsStackChosenBroadcast msg = Some True
                            then (sent, out @ snd (Send sendto (udp b) (peerIp b) (peerPort b) msg))
                            else (sent, out)))))"

text \<open>\<open>SendIAm\<close> hands the stack the device, the connection string and the Network Port (the other arguments are fixed).\<close>

definition SendIAm :: "interface list option \<Rightarrow> u32 \<Rightarrow> u32 \<Rightarrow> transport \<Rightarrow> u32 \<times> u8 list \<times> u32" where
  "SendIAm ifs device inst t =
     (let port = (case FindUdpBindingByInstance inst t of
                    Some i \<Rightarrow> if bound (bindings t ! i) then port_of (bindings t ! i) else g_port t
                  | None \<Rightarrow> g_port t)
      in (device, connection_string (GetLocalBroadcastIPv4 ifs) port, inst))"

definition SendIAm_current :: "interface list option \<Rightarrow> u32 \<Rightarrow> transport \<Rightarrow> u32 \<times> u8 list \<times> u32" where [simp]:
  "SendIAm_current ifs device t = SendIAm ifs device (g_networkPortInstance t) t"

section \<open>The invariant of the table\<close>

text \<open>Every Network Port has one entry, the table fits the array, and the polling index is in range.\<close>

definition transport_inv :: "transport \<Rightarrow> bool" where
  "transport_inv t \<longleftrightarrow> length (bindings t) \<le> MAX_UDP_BINDINGS \<and> distinct (map instance_of (bindings t)) \<and>
     (bindings t = [] \<longrightarrow> nextBinding t = 0) \<and> (bindings t \<noteq> [] \<longrightarrow> nextBinding t < length (bindings t))"

lemma find_binding_Some:
  "find_binding inst i bs = Some j \<Longrightarrow> i \<le> j \<and> j < i + length bs \<and> instance_of (bs ! (j - i)) = inst"
  by (induction inst i bs rule: find_binding.induct) (auto split: if_splits simp: Suc_diff_le nth_Cons' dest: le_imp_diff_is_add)

lemma find_binding_None: "find_binding inst i bs = None \<longleftrightarrow> inst \<notin> instance_of ` set bs"
  by (induction inst i bs rule: find_binding.induct) auto

lemma find_binding_nth:
  "distinct (map instance_of bs) \<Longrightarrow> j < length bs \<Longrightarrow> find_binding (instance_of (bs ! j)) i bs = Some (i + j)"
proof (induction bs arbitrary: i j)
  case (Cons b bs)
  show ?case
  proof (cases j)
    case (Suc k)
    with Cons have "instance_of b \<noteq> instance_of (bs ! k)" by auto
    with Cons Suc show ?thesis by auto
  qed simp
qed simp

lemma FindUdpBinding_Some:
  assumes "FindUdpBindingByInstance inst t = Some i"
  shows "i < length (bindings t)" "instance_of (bindings t ! i) = inst"
  using find_binding_Some [OF assms [unfolded FindUdpBindingByInstance_def]] by auto

lemma FindUdpBinding_own:
  "transport_inv t \<Longrightarrow> i < length (bindings t) \<Longrightarrow> FindUdpBindingByInstance (instance_of (bindings t ! i)) t = Some i"
  using find_binding_nth [of "bindings t" i 0] by (simp add: FindUdpBindingByInstance_def transport_inv_def)

lemma instances_update:
  "instance_of b = instance_of (bs ! i) \<Longrightarrow> map instance_of (bs[i := b]) = map instance_of bs"
  by (metis list_update_beyond list_update_id map_update not_le_imp_less nth_map)

lemma poll_bindings_instances:
  "map instance_of (snd (poll_bindings m st k n bs)) = map instance_of bs"
  by (induction m st k n bs rule: poll_bindings.induct)
     (auto simp: Let_def instances_update split: prod.splits option.splits)

lemma poll_bindings_index:
  "poll_bindings m st k n bs = (Some (i, d), bs') \<Longrightarrow> bs \<noteq> [] \<Longrightarrow> i < length bs"
  by (induction m st k n bs rule: poll_bindings.induct)
     (auto simp: Let_def split: prod.splits option.splits if_splits)

lemma remember_peer_simps [simp]:
  "instance_of (remember_peer s d b) = instance_of b" "udp (remember_peer s d b) = udp b" "bound (remember_peer s d b) = bound b"
  "port_of (remember_peer s d b) = port_of b"
  by (simp_all add: remember_peer_def)

section \<open>Polling in turn\<close>

definition ready :: "u16 \<Rightarrow> udp_binding \<Rightarrow> bool" where
  "ready m b \<longleftrightarrow> bound b \<and> fst (Receive (udp b) m) \<noteq> None"

lemma round_indices_differ:
  assumes "a < b" "b < a + n"
  shows "(s + a) mod n \<noteq> (s + b) mod (n :: nat)"
proof
  assume "(s + a) mod n = (s + b) mod n"
  then have "n dvd (s + b) - (s + a)" using assms by (metis add_le_cancel_left less_imp_le mod_eq_dvd_iff_nat)
  then have "n dvd b - a" by simp
  moreover have "0 < b - a" "b - a < n" using assms by auto
  ultimately show False by (meson nat_dvd_not_less)
qed

text \<open>The loop serves the first ready socket in turn, and leaves the sockets after it alone.\<close>

lemma poll_bindings_first:
  assumes "bs \<noteq> []" "n \<le> length bs" "poll_bindings m st k n bs = (r, bs')"
  shows "(case r of
      None \<Rightarrow> \<forall>j. k \<le> j \<and> j < k + n \<longrightarrow> \<not> ready m (bs ! ((st + j) mod length bs))
    | Some (i, d) \<Rightarrow> \<exists>k1. k \<le> k1 \<and> k1 < k + n \<and> i = (st + k1) mod length bs \<and> ready m (bs ! i) \<and>
        Receive (udp (bs ! i)) m = (Some d, udp (bs' ! i)) \<and> bs' ! i = (bs ! i)\<lparr>udp := udp (bs' ! i)\<rparr> \<and>
        (\<forall>j. k \<le> j \<and> j < k1 \<longrightarrow> \<not> ready m (bs ! ((st + j) mod length bs))) \<and>
        (\<forall>j. k1 < j \<and> j < k + length bs \<longrightarrow> bs' ! ((st + j) mod length bs) = bs ! ((st + j) mod length bs)))"
  using assms
proof (induction n arbitrary: k bs)
  case (Suc n)
  define i where "i = (st + k) mod length bs"
  have i: "i < length bs" using Suc.prems(1) by (simp add: i_def)
  have diff: "i \<noteq> (st + j) mod length bs" if "k < j" "j < k + length bs" for j
    using round_indices_differ [OF that, of st] by (simp add: i_def)
  obtain r0 u where ru: "Receive (udp (bs ! i)) m = (r0, u)" by fastforce
  show ?case
  proof (cases "bound (bs ! i) \<and> r0 \<noteq> None")
    case True
    then obtain d where d: "r0 = Some d" by blast
    have "r = Some (i, d)" "bs' = bs[i := (bs ! i)\<lparr>udp := u\<rparr>]"
      using Suc.prems(3) True d ru by (simp_all add: i_def Let_def)
    then show ?thesis
      using True d ru i diff by (auto simp: ready_def i_def intro!: exI [of _ k])
  next
    case False
    define bs2 where "bs2 = (if bound (bs ! i) then bs[i := (bs ! i)\<lparr>udp := u\<rparr>] else bs)"
    have same: "bs2 ! ((st + j) mod length bs) = bs ! ((st + j) mod length bs)" if "k < j" "j < k + length bs" for j
      using diff [OF that] by (simp add: bs2_def)
    have len: "length bs2 = length bs" by (simp add: bs2_def)
    have p: "poll_bindings m st (Suc k) n bs2 = (r, bs')"
      using Suc.prems(3) False ru by (auto simp: i_def [symmetric] bs2_def Let_def)
    have not_ready: "\<not> ready m (bs ! i)" using False ru by (auto simp: ready_def)
    have IH: "case r of
      None \<Rightarrow> \<forall>j. Suc k \<le> j \<and> j < Suc k + n \<longrightarrow> \<not> ready m (bs2 ! ((st + j) mod length bs))
    | Some (i, d) \<Rightarrow> \<exists>k1. Suc k \<le> k1 \<and> k1 < Suc k + n \<and> i = (st + k1) mod length bs \<and> ready m (bs2 ! i) \<and>
        Receive (udp (bs2 ! i)) m = (Some d, udp (bs' ! i)) \<and> bs' ! i = (bs2 ! i)\<lparr>udp := udp (bs' ! i)\<rparr> \<and>
        (\<forall>j. Suc k \<le> j \<and> j < k1 \<longrightarrow> \<not> ready m (bs2 ! ((st + j) mod length bs))) \<and>
        (\<forall>j. k1 < j \<and> j < Suc k + length bs \<longrightarrow> bs' ! ((st + j) mod length bs) = bs2 ! ((st + j) mod length bs))"
      using Suc.IH [OF _ _ p] Suc.prems(1,2) len by (simp add: bs2_def cong: option.case_cong)
    show ?thesis
    proof (cases r)
      case None
      show ?thesis
        unfolding None option.case
      proof (intro allI impI)
        fix j assume j: "k \<le> j \<and> j < k + Suc n"
        show "\<not> ready m (bs ! ((st + j) mod length bs))"
        proof (cases "j = k")
          case False
          then have "k < j" "j < k + length bs" "Suc k \<le> j" "j < Suc k + n" using j Suc.prems(2) by auto
          with IH None same show ?thesis by auto
        qed (use not_ready i_def in simp)
      qed
    next
      case (Some a)
      obtain i1 d where a: "a = (i1, d)" by fastforce
      obtain k1 where k1: "Suc k \<le> k1" "k1 < Suc k + n" "i1 = (st + k1) mod length bs" "ready m (bs2 ! i1)"
          "Receive (udp (bs2 ! i1)) m = (Some d, udp (bs' ! i1))" "bs' ! i1 = (bs2 ! i1)\<lparr>udp := udp (bs' ! i1)\<rparr>"
          "\<forall>j. Suc k \<le> j \<and> j < k1 \<longrightarrow> \<not> ready m (bs2 ! ((st + j) mod length bs))"
          "\<forall>j. k1 < j \<and> j < Suc k + length bs \<longrightarrow> bs' ! ((st + j) mod length bs) = bs2 ! ((st + j) mod length bs)"
        using IH unfolding Some a by auto
      have e: "bs2 ! i1 = bs ! i1" using same [of k1] k1(1-3) Suc.prems(2) by simp
      have "\<not> ready m (bs ! ((st + j) mod length bs))" if "k \<le> j" "j < k1" for j
      proof (cases "j = k")
        case False
        then have "k < j" "j < k + length bs" "Suc k \<le> j" using that k1(2) Suc.prems(2) by auto
        then show ?thesis using k1(7) same that(2) by metis
      qed (use not_ready i_def in simp)
      moreover have "bs' ! ((st + j) mod length bs) = bs ! ((st + j) mod length bs)" if "k1 < j" "j < k + length bs" for j
        using k1(1,8) same [of j] that by simp
      ultimately show ?thesis
        unfolding Some a using k1(1-6) e by (auto intro!: exI [of _ k1])
    qed
  qed
qed auto

lemma poll_bindings_length: "length (snd (poll_bindings m st k n bs)) = length bs"
  using arg_cong [OF poll_bindings_instances, of length m st k n bs] by simp

lemma SetupUDP_inv: "transport_inv t \<Longrightarrow> transport_inv (snd (SetupUDP sok bok port inst t))"
proof -
  assume inv: "transport_inv t"
  show "transport_inv (snd (SetupUDP sok bok port inst t))"
  proof (cases "FindUdpBindingByInstance inst t")
    case None
    then have "inst \<notin> instance_of ` set (bindings t)" by (simp add: FindUdpBindingByInstance_def find_binding_None)
    then show ?thesis
      using inv None by (auto simp: SetupUDP_def transport_inv_def Let_def split: prod.splits)
  next
    case (Some i)
    then show ?thesis
      using inv by (auto simp: SetupUDP_def transport_inv_def Let_def instances_update split: prod.splits)
  qed
qed

lemma HelperReceiveMessage_instances: "map instance_of (bindings (snd (HelperReceiveMessage m c t))) = map instance_of (bindings t)"
proof -
  obtain r bs where p: "poll_bindings m (nextBinding t) 0 (length (bindings t)) (bindings t) = (r, bs)" by fastforce
  then have "map instance_of bs = map instance_of (bindings t)" using poll_bindings_instances by (metis snd_conv)
  with p show ?thesis by (auto simp: HelperReceiveMessage_def Let_def comp_def split: option.splits)
qed

lemma HelperReceiveMessage_inv: "transport_inv t \<Longrightarrow> transport_inv (snd (HelperReceiveMessage m c t))"
proof -
  assume inv: "transport_inv t"
  have same: "map instance_of (bindings (snd (HelperReceiveMessage m c t))) = map instance_of (bindings t)"
    by (rule HelperReceiveMessage_instances)
  have "bindings t \<noteq> [] \<longrightarrow> nextBinding (snd (HelperReceiveMessage m c t)) < length (bindings t)"
    using inv by (auto simp: HelperReceiveMessage_def transport_inv_def Let_def split: option.splits prod.splits)
  moreover have "bindings t = [] \<longrightarrow> nextBinding (snd (HelperReceiveMessage m c t)) = 0"
    using inv by (auto simp: HelperReceiveMessage_def transport_inv_def)
  ultimately show ?thesis
    using inv same arg_cong [OF same, of length] unfolding transport_inv_def by (metis length_0_conv length_map)
qed

lemma ShutdownUDP_inv: "transport_inv t \<Longrightarrow> transport_inv (ShutdownUDP t)"
  by (auto simp: ShutdownUDP_def transport_inv_def comp_def if_distrib cong: if_cong)

text \<open>What a successful receive is: the head of the queue of the first ready socket in turn.\<close>

lemma HelperReceiveMessage_Some:
  assumes "HelperReceiveMessage m c t = (Some r, t')"
  obtains i k d bs where "k < length (bindings t)" "i = (nextBinding t + k) mod length (bindings t)" "i < length (bindings t)"
    "ready m (bindings t ! i)" "Receive (udp (bindings t ! i)) m = (Some d, udp (bs ! i))"
    "bs ! i = (bindings t ! i)\<lparr>udp := udp (bs ! i)\<rparr>" "length bs = length (bindings t)"
    "\<forall>j < k. \<not> ready m (bindings t ! ((nextBinding t + j) mod length (bindings t)))"
    "\<forall>j. k < j \<and> j < length (bindings t) \<longrightarrow>
       bs ! ((nextBinding t + j) mod length (bindings t)) = bindings t ! ((nextBinding t + j) mod length (bindings t))"
    "r = \<lparr>message = octets_of d, sourceConnectionString = connection_string (from_ip d) (from_port d),
          arrivedOn = instance_of (bindings t ! i)\<rparr>"
    "bindings t' = map (remember_peer (instance_of (bindings t ! i)) d) bs" "nextBinding t' = (i + 1) mod length (bindings t)"
proof -
  let ?n = "length (bindings t)"
  have ne: "bindings t \<noteq> []" using assms by (auto simp: HelperReceiveMessage_def split: if_splits)
  obtain r0 bs where p: "poll_bindings m (nextBinding t) 0 ?n (bindings t) = (r0, bs)" by fastforce
  with assms obtain i d where r0: "r0 = Some (i, d)"
    by (cases r0) (auto simp: HelperReceiveMessage_def Let_def split: if_splits)
  from poll_bindings_first [OF ne order_refl p, unfolded r0] obtain k where k: "k < ?n" "i = (nextBinding t + k) mod ?n"
      "ready m (bindings t ! i)" "Receive (udp (bindings t ! i)) m = (Some d, udp (bs ! i))"
      "bs ! i = (bindings t ! i)\<lparr>udp := udp (bs ! i)\<rparr>"
      "\<forall>j. j < k \<longrightarrow> \<not> ready m (bindings t ! ((nextBinding t + j) mod ?n))"
      "\<forall>j. k < j \<and> j < ?n \<longrightarrow> bs ! ((nextBinding t + j) mod ?n) = bindings t ! ((nextBinding t + j) mod ?n)"
    by auto
  have len: "length bs = ?n" using poll_bindings_length [of m "nextBinding t" 0 ?n "bindings t"] p by simp
  have i: "i < ?n" using k(2) ne by simp
  have inst: "instance_of (bs ! i) = instance_of (bindings t ! i)" by (subst k(5)) simp
  have "(Some r, t') = HelperReceiveMessage m c t" using assms by simp
  also have "\<dots> = (Some \<lparr>message = octets_of d, sourceConnectionString = connection_string (from_ip d) (from_port d), arrivedOn = instance_of (bindings t ! i)\<rparr>,
      t\<lparr>bindings := map (remember_peer (instance_of (bindings t ! i)) d) bs, nextBinding := (i + 1) mod ?n\<rparr>)"
    using assms p r0 inst by (auto simp: HelperReceiveMessage_def Let_def split: if_splits)
  finally show thesis using that [OF k(1,2) i k(3-5) len] k(6,7) by simp
qed

text \<open>
  One call and the turn: a ready socket \<open>i\<close> is served, or its turn comes nearer and it stays ready.
  \<open>turn\<close> is the number of sockets that are polled before it.
\<close>

definition turn :: "nat \<Rightarrow> transport \<Rightarrow> nat" where
  "turn i t = (i + length (bindings t) - nextBinding t) mod length (bindings t)"

lemma mod_once: "a < 2 * n \<Longrightarrow> a mod n = (if a < n then a else a - (n :: nat))"
  by (simp add: le_mod_geq)

lemma turn_round: "i < n \<Longrightarrow> st < n \<Longrightarrow> (st + (i + n - st) mod n) mod n = (i :: nat)"
  by (simp add: mod_add_right_eq)

lemma turn_after:
  assumes "i < n" "st < n" "k < (i + n - st) mod n"
  shows "(i + n - ((st + k) mod n + 1) mod n) mod n < (i + n - st) mod (n :: nat)"
proof -
  have e: "(i + n - st) mod n = (if st \<le> i then i - st else i + n - st)"
    using assms mod_once [of "i + n - st" n] by (auto split: if_splits)
  then have k: "k < n" using assms by (auto split: if_splits)
  have s: "(st + k) mod n = (if st + k < n then st + k else st + k - n)" using mod_once [of "st + k" n] assms(2) k by simp
  define q where "q = (st + k) mod n"
  have q: "q < n" using assms by (simp add: q_def)
  have q1: "(q + 1) mod n = (if q + 1 < n then q + 1 else 0)" using mod_once [of "q + 1" n] q by auto
  have "(i + n - (q + 1) mod n) mod n = (if (q + 1) mod n \<le> i then i - (q + 1) mod n else i + n - (q + 1) mod n)"
    using mod_once [of "i + n - (q + 1) mod n" n] assms(1) by (cases "(q + 1) mod n = 0") (auto split: if_splits)
  then show ?thesis using e q1 s assms k by (auto simp: q_def [symmetric] split: if_splits)
qed

lemma receive_serves_or_nearer:
  assumes "transport_inv t" "i < length (bindings t)" "ready m (bindings t ! i)" "6 \<le> c"
  obtains r t' where "HelperReceiveMessage m c t = (Some r, t')" "transport_inv t'" "length (bindings t') = length (bindings t)"
    "instance_of (bindings t' ! i) = instance_of (bindings t ! i)"
    "arrivedOn r = instance_of (bindings t ! i) \<or> (ready m (bindings t' ! i) \<and> turn i t' < turn i t)"
proof -
  let ?n = "length (bindings t)"
  have ne: "bindings t \<noteq> []" and st: "nextBinding t < ?n" using assms(1,2) by (auto simp: transport_inv_def)
  have rnd: "(nextBinding t + turn i t) mod ?n = i" using turn_round [OF assms(2) st] by (simp add: turn_def)
  have tl: "turn i t < ?n" using ne by (simp add: turn_def)
  obtain r0 bs where p: "poll_bindings m (nextBinding t) 0 ?n (bindings t) = (r0, bs)" by fastforce
  have "r0 \<noteq> None" using poll_bindings_first [OF ne order_refl p] rnd tl assms(3) by (auto split: option.splits)
  then have "fst (HelperReceiveMessage m c t) \<noteq> None"
    using p ne assms(4) by (auto simp: HelperReceiveMessage_def Let_def not_less [symmetric] split: option.splits)
  then obtain r t' where h: "HelperReceiveMessage m c t = (Some r, t')" by (metis not_None_eq prod.collapse)
  obtain j k d bs where f: "k < ?n" "j = (nextBinding t + k) mod ?n" "j < ?n"
      "ready m (bindings t ! j)" "Receive (udp (bindings t ! j)) m = (Some d, udp (bs ! j))"
      "bs ! j = (bindings t ! j)\<lparr>udp := udp (bs ! j)\<rparr>" "length bs = ?n"
      "\<forall>j < k. \<not> ready m (bindings t ! ((nextBinding t + j) mod ?n))"
      "\<forall>j. k < j \<and> j < ?n \<longrightarrow> bs ! ((nextBinding t + j) mod ?n) = bindings t ! ((nextBinding t + j) mod ?n)"
      "r = \<lparr>message = octets_of d, sourceConnectionString = connection_string (from_ip d) (from_port d),
          arrivedOn = instance_of (bindings t ! j)\<rparr>" "bindings t' = map (remember_peer (instance_of (bindings t ! j)) d) bs"
      "nextBinding t' = (j + 1) mod ?n"
    by (rule HelperReceiveMessage_Some [OF h]) (rule that; assumption)
  have k: "k \<le> turn i t" using f(8) rnd assms(3) by (metis linorder_not_le)
  have serve: "arrivedOn r = instance_of (bindings t ! i) \<or> (ready m (bindings t' ! i) \<and> turn i t' < turn i t)"
  proof (cases "k = turn i t")
    case False
    then have "k < turn i t" using k by simp
    moreover from this have "bs ! i = bindings t ! i" using f(9) rnd tl by metis
    then have "ready m (bindings t' ! i)" using assms(2,3) f(7,11) by (simp add: ready_def)
    ultimately show ?thesis
      using turn_after [OF assms(2) st, of k] f(2,7,11,12) by (simp add: turn_def)
  qed (use f(2,10) rnd in simp)
  have inst: "instance_of (bindings t' ! i) = instance_of (bindings t ! i)"
    using HelperReceiveMessage_instances [of m c t] h assms(2) f(7,11) by (metis length_map nth_map snd_conv)
  have "transport_inv t'" using HelperReceiveMessage_inv [OF assms(1), of m c] h by simp
  moreover have "length (bindings t') = ?n" using f(7,11) by simp
  ultimately show thesis using that h serve inst by blast
qed

section \<open>Waiting datagrams\<close>

text \<open>Datagrams that reach the host between two calls are queued behind the ones that wait.\<close>

definition arrive :: "(nat \<Rightarrow> datagram list) \<Rightarrow> transport \<Rightarrow> transport" where
  "arrive news t = t\<lparr>bindings := map (\<lambda>i. (bindings t ! i)\<lparr>udp := (udp (bindings t ! i))\<lparr>inbox := inbox (udp (bindings t ! i)) @ news i\<rparr>\<rparr>) [0..<length (bindings t)]\<rparr>"

text \<open>The Network Ports served by \<open>n\<close> calls, \<open>news k\<close> arriving before the call with \<open>k\<close> calls left after it.\<close>

fun serve :: "(nat \<Rightarrow> nat \<Rightarrow> datagram list) \<Rightarrow> u16 \<Rightarrow> nat \<Rightarrow> transport \<Rightarrow> u32 list" where
  "serve news m 0 t = []"
| "serve news m (Suc n) t =
     (case HelperReceiveMessage m 6 (arrive (news n) t) of
        (None, t') \<Rightarrow> serve news m n t'
      | (Some r, t') \<Rightarrow> arrivedOn r # serve news m n t')"

lemma arrive_simps [simp]:
  "length (bindings (arrive news t)) = length (bindings t)" "nextBinding (arrive news t) = nextBinding t"
  "i < length (bindings t) \<Longrightarrow> instance_of (bindings (arrive news t) ! i) = instance_of (bindings t ! i)"
  "turn i (arrive news t) = turn i t"
  by (simp_all add: arrive_def turn_def)

lemma arrive_inv: "transport_inv t \<Longrightarrow> transport_inv (arrive news t)"
proof -
  assume inv: "transport_inv t"
  have "map instance_of (bindings (arrive news t)) = map instance_of (bindings t)" by (rule nth_equalityI) simp_all
  moreover have "(bindings (arrive news t) = []) = (bindings t = [])" by (simp add: arrive_def)
  ultimately show ?thesis using inv by (simp add: transport_inv_def)
qed

lemma ready_iff: "ready m b \<longleftrightarrow> bound b \<and> m_connected (udp b) \<and> (\<exists>d ds. inbox (udp b) = d # ds \<and> take (unat m) (octets_of d) \<noteq> [])"
  by (cases "inbox (udp b)") (auto simp: ready_def Receive_def Let_def)

lemma Receive_connected: "m_connected (snd (Receive s m)) = m_connected s"
  by (simp add: Receive_def Let_def split: list.split)

lemma arrive_ready: "i < length (bindings t) \<Longrightarrow> ready m (bindings t ! i) \<Longrightarrow> ready m (bindings (arrive news t) ! i)"
  by (auto simp: ready_iff arrive_def)

lemma serve_turn:
  "transport_inv t \<Longrightarrow> i < length (bindings t) \<Longrightarrow> ready m (bindings t ! i) \<Longrightarrow> turn i t < n \<Longrightarrow>
     instance_of (bindings t ! i) \<in> set (serve news m n t)"
proof (induction n arbitrary: t)
  case (Suc n)
  let ?a = "arrive (news n) t"
  obtain r t' where s: "HelperReceiveMessage m 6 ?a = (Some r, t')" "transport_inv t'" "length (bindings t') = length (bindings ?a)"
      "instance_of (bindings t' ! i) = instance_of (bindings ?a ! i)"
      "arrivedOn r = instance_of (bindings ?a ! i) \<or> (ready m (bindings t' ! i) \<and> turn i t' < turn i ?a)"
    using receive_serves_or_nearer [of ?a i m 6] arrive_inv arrive_ready Suc.prems by auto
  show ?case
  proof (cases "arrivedOn r = instance_of (bindings t ! i)")
    case False
    with s Suc.prems Suc.IH [of t'] show ?thesis by simp
  qed (use s(1) in simp)
qed simp

lemma be16_octets: "be16 (ucast (drop_bit 8 p)) (ucast p) = (p :: u16)"
proof (rule bit_word_eqI)
  fix n assume "n < LENGTH(16)"
  then consider "n < 8" | "8 \<le> n" "n < 16" by fastforce
  then show "bit (be16 (ucast (drop_bit 8 p)) (ucast p)) n = bit p n"
    by cases (auto simp: be16_def bit_or_iff bit_push_bit_iff bit_ucast_iff bit_drop_bit_eq)
qed

lemma take_4: "length xs = 4 \<Longrightarrow> [xs ! 0, xs ! 1, xs ! 2, xs ! 3] = xs"
  by (auto simp: list_eq_iff_nth_eq less_Suc_eq numeral_eq_Suc nth_Cons')

text \<open>The binding a message arrived on, after the receive.\<close>

lemma received_binding:
  assumes "transport_inv t" "HelperReceiveMessage m c t = (Some r, t')"
  obtains i d0 ds d where "i < length (bindings t)" "bound (bindings t ! i)" "inbox (udp (bindings t ! i)) = d0 # ds"
    "d = d0\<lparr>octets_of := take (unat m) (octets_of d0)\<rparr>" "FindUdpBindingByInstance (arrivedOn r) t' = Some i"
    "m_connected (udp (bindings t' ! i))" "bound (bindings t' ! i)" "port_of (bindings t' ! i) = port_of (bindings t ! i)"
    "r = \<lparr>message = octets_of d, sourceConnectionString = connection_string (from_ip d) (from_port d), arrivedOn = instance_of (bindings t ! i)\<rparr>"
    "from_port d \<noteq> port_of (bindings t ! i) \<longrightarrow>
       hasPeer (bindings t' ! i) \<and> peerIp (bindings t' ! i) = from_ip d \<and> peerPort (bindings t' ! i) = from_port d"
proof -
  let ?n = "length (bindings t)"
  obtain i k d bs where f: "k < ?n" "i = (nextBinding t + k) mod ?n" "i < ?n"
      "ready m (bindings t ! i)" "Receive (udp (bindings t ! i)) m = (Some d, udp (bs ! i))"
      "bs ! i = (bindings t ! i)\<lparr>udp := udp (bs ! i)\<rparr>" "length bs = ?n"
      "\<forall>j < k. \<not> ready m (bindings t ! ((nextBinding t + j) mod ?n))"
      "\<forall>j. k < j \<and> j < ?n \<longrightarrow> bs ! ((nextBinding t + j) mod ?n) = bindings t ! ((nextBinding t + j) mod ?n)"
      "r = \<lparr>message = octets_of d, sourceConnectionString = connection_string (from_ip d) (from_port d),
          arrivedOn = instance_of (bindings t ! i)\<rparr>" "bindings t' = map (remember_peer (instance_of (bindings t ! i)) d) bs"
      "nextBinding t' = (i + 1) mod ?n"
    by (rule HelperReceiveMessage_Some [OF assms(2)]) (rule that; assumption)
  obtain d0 ds where q: "bound (bindings t ! i)" "m_connected (udp (bindings t ! i))" "inbox (udp (bindings t ! i)) = d0 # ds"
    using f(4) by (auto simp: ready_iff)
  have b: "instance_of (bs ! i) = instance_of (bindings t ! i)" "bound (bs ! i)" "port_of (bs ! i) = port_of (bindings t ! i)"
    by (subst f(6), simp add: q)+
  have d: "d = d0\<lparr>octets_of := take (unat m) (octets_of d0)\<rparr>"
    using f(5) q(2,3) by (auto simp: Receive_def Let_def split: if_splits)
  have con: "m_connected (udp (bs ! i))" using Receive_connected [of "udp (bindings t ! i)" m] f(5) q(2) by simp
  have nth: "bindings t' ! i = remember_peer (instance_of (bindings t ! i)) d (bs ! i)" using f(3,7,11) by simp
  have inv: "transport_inv t'" using HelperReceiveMessage_inv [OF assms(1), of m c] assms(2) by simp
  have "FindUdpBindingByInstance (arrivedOn r) t' = Some i"
    using FindUdpBinding_own [OF inv, of i] f(3,7,10,11) nth b(1) by simp
  then show thesis
    using that [OF f(3) q(1,3) d] f(10) con b nth by (auto simp: remember_peer_def)
qed

section \<open>Two walks over the same frame\<close>

text \<open>
  \<open>IsStackChosenBroadcast\<close> and \<open>DecodeBacnetFrame\<close> walk the frame independently; \<open>chosen_by_decode\<close> is
  the answer read off the decoded frame.
\<close>

definition chosen_by_decode :: "decoded_frame \<Rightarrow> bool" where
  "chosen_by_decode d \<longleftrightarrow> hasNpdu d \<and> (bvlcFunction d = 0x0A \<or> bvlcFunction d = 0x0B) \<and> npduVersion d = 1 \<and>
     (isNetworkMessage d \<or> hasApdu d \<and> pduType d = 1 \<and> hasServiceChoice d \<and> (serviceChoice d = 0 \<or> serviceChoice d = 1))"

text \<open>The header fields, which nothing after the first two NPDU octets changes.\<close>

definition npdu_head :: "decoded_frame \<Rightarrow> bool \<times> u8 \<times> u8 \<times> bool" where
  "npdu_head d = (hasNpdu d, bvlcFunction d, npduVersion d, isNetworkMessage d)"

lemma npdu_head_upd [simp]:
  "npdu_head (d\<lparr>hasObjectProperty := b\<rparr>) = npdu_head d" "npdu_head (d\<lparr>objectType := t\<rparr>) = npdu_head d"
  "npdu_head (d\<lparr>objectInstance := i\<rparr>) = npdu_head d" "npdu_head (d\<lparr>propertyId := i\<rparr>) = npdu_head d"
  "npdu_head (d\<lparr>hasArrayIndex := b\<rparr>) = npdu_head d" "npdu_head (d\<lparr>arrayIndex := i\<rparr>) = npdu_head d"
  "npdu_head (d\<lparr>hasApdu := b\<rparr>) = npdu_head d" "npdu_head (d\<lparr>pduType := c\<rparr>) = npdu_head d" "npdu_head (d\<lparr>segmented := b\<rparr>) = npdu_head d"
  "npdu_head (d\<lparr>hasInvokeId := b\<rparr>) = npdu_head d" "npdu_head (d\<lparr>invokeId := c\<rparr>) = npdu_head d"
  "npdu_head (d\<lparr>hasServiceChoice := b\<rparr>) = npdu_head d" "npdu_head (d\<lparr>serviceChoice := c\<rparr>) = npdu_head d"
  "npdu_head (d\<lparr>hasReason := b\<rparr>) = npdu_head d" "npdu_head (d\<lparr>reason := c\<rparr>) = npdu_head d"
  "npdu_head (d\<lparr>networkMessageType := c\<rparr>) = npdu_head d" "npdu_head (d\<lparr>dnet := n\<rparr>) = npdu_head d"
  "npdu_head (d\<lparr>dadr := p\<rparr>) = npdu_head d" "npdu_head (d\<lparr>dadrLength := c\<rparr>) = npdu_head d" "npdu_head (d\<lparr>snet := n\<rparr>) = npdu_head d"
  "npdu_head (d\<lparr>sadr := p\<rparr>) = npdu_head d" "npdu_head (d\<lparr>sadrLength := c\<rparr>) = npdu_head d"
  by (simp_all add: npdu_head_def)

lemma decode_array_index_head: "keeps npdu_head (decode_array_index frame pos out) out"
  unfolding decode_array_index_def by (intro yields_intros) simp_all

lemma DecodeObjectAndProperty_head: "keeps npdu_head (DecodeObjectAndProperty frame offset out) out"
  unfolding DecodeObjectAndProperty_def Let_def
  by (intro yields_intros keeps_trans [OF decode_array_index_head]) simp_all

lemma decode_apdu_head: "keeps npdu_head (decode_apdu frame offset out) out"
  unfolding decode_apdu_def Let_def
  by (intro yields_intros keeps_trans [OF DecodeObjectAndProperty_head]) simp_all

lemma decode_payload_head: "keeps npdu_head (decode_payload frame offset out) out"
  unfolding decode_payload_def Let_def by (intro yields_intros decode_apdu_head) simp_all

lemma decode_source_head: "keeps npdu_head (decode_source frame offset out) out"
  unfolding decode_source_def
  by (intro yields_intros yields_specifier decode_payload_head keeps_trans [OF decode_payload_head]) simp_all

lemma decode_destination_head: "keeps npdu_head (decode_destination frame offset out) out"
  unfolding decode_destination_def
  by (intro yields_intros yields_specifier decode_source_head keeps_trans [OF decode_source_head]) simp_all

text \<open>An unconfirmed I-Am (0) or I-Have (1).\<close>

definition announcement :: "decoded_frame \<Rightarrow> bool" where
  "announcement d \<longleftrightarrow> hasApdu d \<and> pduType d = 1 \<and> hasServiceChoice d \<and> (serviceChoice d = 0 \<or> serviceChoice d = 1)"

lemma decode_array_index_pdu: "keeps pduType (decode_array_index frame pos out) out"
  unfolding decode_array_index_def by (intro yields_intros) simp_all

lemma DecodeObjectAndProperty_pdu: "keeps pduType (DecodeObjectAndProperty frame offset out) out"
  unfolding DecodeObjectAndProperty_def Let_def
  by (intro yields_intros keeps_trans [OF decode_array_index_pdu]) simp_all

lemma decode_apdu_pdu:
  "offset < length frame \<Longrightarrow> keeps pduType (decode_apdu frame offset out) (out\<lparr>pduType := drop_bit 4 (frame ! offset) AND 0x0F\<rparr>)"
  unfolding decode_apdu_def Let_def
  by (simp only: rd_in bind.simps) (intro yields_intros keeps_trans [OF DecodeObjectAndProperty_pdu]; simp)

lemma high_nibble: "drop_bit 4 (b :: u8) AND 0x0F = drop_bit 4 b"
proof -
  have "(0x0F :: u8) = mask 4" by (simp add: mask_eq_exp_minus_1)
  moreover have "take_bit 4 (drop_bit 4 b) = drop_bit 4 b"
    by (rule bit_word_eqI) (auto simp: bit_take_bit_iff bit_drop_bit_eq dest: bit_imp_le_length)
  ultimately show ?thesis by (simp add: take_bit_eq_mask)
qed

lemma decode_apdu_announcement:
  assumes "offset < length frame" "\<not> hasServiceChoice out" "decode_apdu frame offset out = Some d"
  shows "announcement d \<longleftrightarrow> offset + 1 < length frame \<and> drop_bit 4 (frame ! offset) = 1 \<and> (frame ! (offset + 1) = 0 \<or> frame ! (offset + 1) = 1)"
proof (cases "drop_bit 4 (frame ! offset) = 1")
  case True
  then show ?thesis
    using assms by (auto simp: decode_apdu_def Let_def high_nibble announcement_def split: if_splits)
next
  case False
  then show ?thesis
    using yieldsD [OF decode_apdu_pdu [OF assms(1)] assms(3)] by (simp add: announcement_def high_nibble)
qed

text \<open>The two walks side by side, on a frame that is not a network layer message; \<open>out\<close> has no APDU yet.\<close>

definition before_apdu :: "u8 \<Rightarrow> decoded_frame \<Rightarrow> bool" where
  "before_apdu control out \<longleftrightarrow> \<not> hasApdu out \<and> \<not> hasServiceChoice out \<and> \<not> isNetworkMessage out \<and> control AND 0x80 = 0 \<and>
     hasDest out = (control AND 0x20 \<noteq> 0) \<and> hasSrc out = (control AND 0x08 \<noteq> 0)"

definition after_hop :: "decoded_frame \<Rightarrow> nat \<Rightarrow> nat" where
  "after_hop out i = (if hasDest out then i + 1 else i)"

lemma after_hop_upd [simp]:
  "after_hop (out\<lparr>dnet := n\<rparr>) = after_hop out" "after_hop (out\<lparr>dadr := p\<rparr>) = after_hop out" "after_hop (out\<lparr>dadrLength := c\<rparr>) = after_hop out"
  by (simp_all add: after_hop_def fun_eq_iff)

lemma walk_payload:
  assumes "before_apdu control out" "decode_payload msg i out = Some d"
  shows "chosen_payload msg control (after_hop out i) = Some (announcement d)"
proof (cases "length msg \<le> after_hop out i")
  case True
  then have "d = out" using assms by (auto simp: decode_payload_def after_hop_def before_apdu_def Let_def split: if_splits)
  then show ?thesis
    using True assms(1) by (auto simp: announcement_def before_apdu_def chosen_payload_def)
next
  case False
  then have a: "decode_apdu msg (after_hop out i) out = Some d" "after_hop out i < length msg"
    using assms by (auto simp: decode_payload_def after_hop_def before_apdu_def Let_def split: if_splits)
  then show ?thesis
    using decode_apdu_announcement [OF a(2) _ a(1)] assms(1) by (auto simp: chosen_payload_def before_apdu_def)
qed

definition walk_from :: "u8 list \<Rightarrow> u8 \<Rightarrow> decoded_frame \<Rightarrow> nat \<Rightarrow> bool option" where
  "walk_from msg control out i = do {
     src \<leftarrow> skip_specifier msg (hasSrc out) i;
     (case src of None \<Rightarrow> Some False | Some j \<Rightarrow> chosen_payload msg control (after_hop out j)) }"

text \<open>A specifier whose address leaves the frame: the decoder stops, the walk runs off the end.\<close>

lemma decode_specifier_cases:
  obtains "length msg < i + 3" "decode_specifier msg i = Some (Inl None)"
  | net where "i + 3 \<le> length msg" "length msg < i + 3 + unat (msg ! (i + 2))" "decode_specifier msg i = Some (Inl (Some net))"
  | net where "i + 3 \<le> length msg" "i + 3 + unat (msg ! (i + 2)) \<le> length msg" "decode_specifier msg i = Some (Inr (net, msg ! (i + 2), i + 3))"
  by (cases "length msg < i + 3"; cases "length msg < i + 3 + unat (msg ! (i + 2))") (auto simp: decode_specifier_def)

lemma skip_specifier_simps:
  "length msg < i + 3 \<Longrightarrow> skip_specifier msg True i = Some None"
  "i + 3 \<le> length msg \<Longrightarrow> skip_specifier msg True i = Some (Some (i + 3 + unat (msg ! (i + 2))))"
  "skip_specifier msg False i = Some (Some i)"
  by (simp_all add: skip_specifier_def)

lemma walk_source:
  assumes "before_apdu control out" "decode_source msg i out = Some d"
  shows "walk_from msg control out i = Some (announcement d)"
proof (cases "hasSrc out")
  case False
  then show ?thesis using walk_payload [OF assms(1)] assms(2) by (simp add: decode_source_def walk_from_def skip_specifier_simps)
next
  case True
  show ?thesis
  proof (cases rule: decode_specifier_cases [of msg i])
    case 1
    then show ?thesis
      using True assms by (auto simp: decode_source_def walk_from_def skip_specifier_simps announcement_def before_apdu_def)
  next
    case (2 net)
    then show ?thesis
      using True assms by (auto simp: decode_source_def walk_from_def skip_specifier_simps announcement_def before_apdu_def
          chosen_payload_def after_hop_def)
  next
    case (3 net)
    let ?o = "out\<lparr>snet := net, sadrLength := msg ! (i + 2), sadr := (if 0 < msg ! (i + 2) then Some (i + 3) else None)\<rparr>"
    have "before_apdu control ?o" "after_hop ?o = after_hop out" using assms(1) by (auto simp: before_apdu_def after_hop_def)
    with 3 True assms(2) walk_payload [of control ?o msg "i + 3 + unat (msg ! (i + 2))" d] show ?thesis
      by (simp add: decode_source_def walk_from_def skip_specifier_simps)
  qed
qed

lemma walk_off_the_end: "length msg < i \<Longrightarrow> before_apdu control out \<Longrightarrow> walk_from msg control out i = Some False"
  by (auto simp: walk_from_def skip_specifier_def before_apdu_def chosen_payload_def after_hop_def)

lemma walk_destination:
  assumes "before_apdu control out" "decode_destination msg i out = Some d"
  shows "do { dest \<leftarrow> skip_specifier msg (hasDest out) i; (case dest of None \<Rightarrow> Some False | Some j \<Rightarrow> walk_from msg control out j) }
    = Some (announcement d)"
proof (cases "hasDest out")
  case False
  then show ?thesis using walk_source [OF assms(1)] assms(2) by (simp add: decode_destination_def skip_specifier_simps)
next
  case True
  show ?thesis
  proof (cases rule: decode_specifier_cases [of msg i])
    case 1
    then show ?thesis
      using True assms by (auto simp: decode_destination_def skip_specifier_simps announcement_def before_apdu_def)
  next
    case (2 net)
    then have "d = out\<lparr>dnet := net\<rparr>" using True assms(2) by (simp add: decode_destination_def)
    then show ?thesis
      using 2 True assms(1) walk_off_the_end [OF 2(2) assms(1)]
      by (auto simp: skip_specifier_simps announcement_def before_apdu_def)
  next
    case (3 net)
    let ?o = "out\<lparr>dnet := net, dadrLength := msg ! (i + 2), dadr := (if 0 < msg ! (i + 2) then Some (i + 3) else None)\<rparr>"
    have "before_apdu control ?o" "walk_from msg control ?o = walk_from msg control out"
      using assms(1) by (auto simp: before_apdu_def walk_from_def fun_eq_iff cong: option.case_cong)
    with 3 True assms(2) walk_source [of control ?o msg "i + 3 + unat (msg ! (i + 2))" d] show ?thesis
      by (simp add: decode_destination_def skip_specifier_simps)
  qed
qed

lemma IsStackChosenBroadcast_walk:
  assumes "6 \<le> length msg" "msg ! 0 = 0x81" "msg ! 1 \<in> {0x0A, 0x0B}" "msg ! 4 = 1"
  shows "IsStackChosenBroadcast msg =
    do { dest \<leftarrow> skip_specifier msg (hasDest (npdu_start msg)) 6;
         (case dest of None \<Rightarrow> Some False | Some j \<Rightarrow> walk_from msg (msg ! 5) (npdu_start msg) j) }"
proof -
  have off: "npdu_offset (msg ! Suc 0) = 4" using assms(3) by (auto simp: npdu_offset_def)
  have h: "hasDest (npdu_start msg) = (msg ! 5 AND 0x20 \<noteq> 0)" "hasSrc (npdu_start msg) = (msg ! 5 AND 0x08 \<noteq> 0)"
    by (simp_all add: npdu_start_def Let_def off)
  have "rd msg 0 = Some 0x81" "rd msg 1 = Some (msg ! 1)" "rd msg 4 = Some 1" "rd msg 5 = Some (msg ! 5)"
    using assms by (auto simp: rd_def)
  then show ?thesis
    using assms(1,3) unfolding IsStackChosenBroadcast_def walk_from_def h after_hop_def by auto
qed

lemma skip_specifier_total: "\<exists>r. skip_specifier msg p i = Some r"
  by (auto simp: skip_specifier_def)

lemma walk_from_total: "\<exists>b. walk_from msg c out i = Some b"
  using skip_specifier_total [of msg "hasSrc out" i] by (auto simp: walk_from_def chosen_payload_def split: option.split)

lemma IsStackChosenBroadcast_other:
  assumes "\<not> (6 \<le> length msg \<and> msg ! 0 = 0x81 \<and> msg ! 1 \<in> {0x0A, 0x0B} \<and> msg ! 4 = 1)"
  shows "IsStackChosenBroadcast msg = Some False"
proof (cases "length msg < 6")
  case False
  then have "rd msg 0 = Some (msg ! 0)" by (auto simp: rd_def)
  with assms False show ?thesis by (auto simp: IsStackChosenBroadcast_def)
qed (simp add: IsStackChosenBroadcast_def)

lemma IsStackChosenBroadcast_total: "\<exists>b. IsStackChosenBroadcast msg = Some b"
proof (cases "6 \<le> length msg \<and> msg ! 0 = 0x81 \<and> msg ! 1 \<in> {0x0A, 0x0B} \<and> msg ! 4 = 1")
  case True
  then show ?thesis
    using IsStackChosenBroadcast_walk [of msg] walk_from_total skip_specifier_total [of msg "hasDest (npdu_start msg)" 6]
    by (auto split: option.split)
qed (use IsStackChosenBroadcast_other in blast)

lemma npdu_start_head: "npdu_head (npdu_start msg) =
    (True, msg ! 1, msg ! npdu_offset (msg ! 1), msg ! (npdu_offset (msg ! 1) + 1) AND 0x80 \<noteq> 0)"
  by (simp add: npdu_head_def npdu_start_def Let_def)

lemma decoded_head:
  assumes "DecodeBacnetFrame msg = Some d"
  shows "npdu_head d = (if carries_npdu msg then npdu_head (npdu_start msg) else (False, bvlcFunction d, 0, False))"
  using assms yieldsD [OF decode_destination_head] unfolding DecodeBacnetFrame_cases
  by (auto simp: npdu_head_def DecodedFrame_init_def split: if_splits)

section \<open>Any sequence of transport operations\<close>

datatype transport_event =
    Setup bool bool u16 u32
  | Poll u16 u8
  | Arrive "nat \<Rightarrow> datagram list"
  | ChooseInstance u32
  | Shutdown

inductive transport_step :: "transport \<Rightarrow> transport_event \<Rightarrow> transport \<Rightarrow> bool" where
  step_setup: "transport_step t (Setup sok bok port inst) (snd (SetupUDP sok bok port inst t))"
| step_poll: "transport_step t (Poll m c) (snd (HelperReceiveMessage m c t))"
| step_arrive: "transport_step t (Arrive news) (arrive news t)"
| step_choose: "transport_step t (ChooseInstance inst) (SetNetworkPortInstance inst t)"
| step_shutdown: "transport_step t Shutdown (ShutdownUDP t)"

definition started :: "transport \<Rightarrow> bool" where
  "started t \<longleftrightarrow> t = transport_init"

lemma SetNetworkPortInstance_inv: "transport_inv t \<Longrightarrow> transport_inv (SetNetworkPortInstance inst t)"
  by (simp add: SetNetworkPortInstance_def transport_inv_def)

lemma transport_step_inv: "transport_inv t \<Longrightarrow> transport_step t e t' \<Longrightarrow> transport_inv t'"
  by (erule transport_step.cases)
     (simp_all add: SetupUDP_inv HelperReceiveMessage_inv arrive_inv ShutdownUDP_inv SetNetworkPortInstance_inv)

interpretation links: invariant_system started transport_step transport_inv
proof
  show "transport_inv t" if "started t" for t using that by (simp add: started_def transport_init_def transport_inv_def)
qed (rule transport_step_inv)

section \<open>Properties\<close>



text \<open>
  C11. No socket starves: if a datagram waits on a bound socket, then among the next calls of the
  receive callback, as many as there are sockets, one returns a message of that Network Port, whatever
  arrives on any socket in between.
\<close>

theorem no_socket_starves:
  assumes "reach started transport_step t" "i < length (bindings t)" "ready m (bindings t ! i)"
  shows "instance_of (bindings t ! i) \<in> set (serve news m (length (bindings t)) t)"
proof -
  have "0 < length (bindings t)" using assms(2) by linarith
  then have "turn i t < length (bindings t)" by (simp add: turn_def)
  then show ?thesis using assms links.reach_inv by (intro serve_turn)
qed

text \<open>Witness: two Network Ports, the first with more traffic than it is polled.\<close>

definition who_is :: datagram where
  "who_is = \<lparr>octets_of = [0x81, 0x0B, 0, 8, 1, 0, 0x10, 8], from_ip = [192, 168, 1, 20], from_port = 50000\<rparr>"

definition two_ports :: transport where
  "two_ports = arrive (\<lambda>i. if i = 0 then [who_is, who_is, who_is] else [who_is])
     (snd (SetupUDP True True 47809 2 (snd (SetupUDP True True 47808 1 transport_init))))"

lemma two_ports_reached: "reach started transport_step two_ports"
proof -
  have "reach started transport_step transport_init" by (rule reach_start) (simp add: started_def)
  then have "reach started transport_step (snd (SetupUDP True True 47808 1 transport_init))" by (rule reach_step) (rule step_setup)
  then have "reach started transport_step (snd (SetupUDP True True 47809 2 (snd (SetupUDP True True 47808 1 transport_init))))"
    by (rule reach_step) (rule step_setup)
  then show ?thesis unfolding two_ports_def by (rule reach_step) (rule step_arrive)
qed

lemma two_ports_bindings:
  "bindings two_ports =
     [\<lparr>udp = \<lparr>m_socket = True, m_connected = True, inbox = [who_is, who_is, who_is]\<rparr>, port_of = 47808, instance_of = 1, bound = True,
        peerIp = [0, 0, 0, 0], peerPort = 0, hasPeer = False\<rparr>,
      \<lparr>udp = \<lparr>m_socket = True, m_connected = True, inbox = [who_is]\<rparr>, port_of = 47809, instance_of = 2, bound = True,
        peerIp = [0, 0, 0, 0], peerPort = 0, hasPeer = False\<rparr>]"
  by code_simp

theorem no_socket_starves_witness: "2 \<in> set (serve (\<lambda>k i. [who_is]) 1497 2 two_ports)"
proof -
  have "length (bindings two_ports) = 2" "instance_of (bindings two_ports ! 1) = 2" "ready 1497 (bindings two_ports ! 1)"
    by (simp_all add: two_ports_bindings ready_iff who_is_def)
  then show ?thesis using no_socket_starves [OF two_ports_reached, of 1 1497 "\<lambda>k i. [who_is]"] by simp
qed

text \<open>
  C10. An answer reaches the requester: after the receive callback has returned a message, the send
  callback, called with the connection string and the Network Port it reported, sends one datagram, to
  the address and port the request came from; and if that port is not the bound one, an I-Am, I-Have
  or network layer answer broadcast without a connection string goes to the subnet broadcast on the
  bound port and also to the requester.
\<close>

theorem answer_reaches_requester:
  assumes "reach started transport_step t" "HelperReceiveMessage m c t = (Some r, t')"
    "\<forall>b \<in> set (bindings t). \<forall>d \<in> set (inbox (udp b)). length (from_ip d) = 4"
  shows "\<exists>i d ds. i < length (bindings t) \<and> inbox (udp (bindings t ! i)) = d # ds \<and>
    message r = take (unat m) (octets_of d) \<and> arrivedOn r = instance_of (bindings t ! i) \<and>
    snd (HelperSendMessage ifs sendto t' reply (sourceConnectionString r) (arrivedOn r) False) =
      [\<lparr>to_ip = from_ip d, to_port = from_port d, payload = reply\<rparr>] \<and>
    (from_port d \<noteq> port_of (bindings t ! i) \<and> IsStackChosenBroadcast reply = Some True \<longrightarrow>
      snd (HelperSendMessage ifs sendto t' reply [] (arrivedOn r) bc) =
        [\<lparr>to_ip = GetLocalBroadcastIPv4 ifs, to_port = port_of (bindings t ! i), payload = reply\<rparr>,
         \<lparr>to_ip = from_ip d, to_port = from_port d, payload = reply\<rparr>])"
proof -
  obtain i d0 ds d where f: "i < length (bindings t)" "bound (bindings t ! i)" "inbox (udp (bindings t ! i)) = d0 # ds"
    "d = d0\<lparr>octets_of := take (unat m) (octets_of d0)\<rparr>" "FindUdpBindingByInstance (arrivedOn r) t' = Some i"
    "m_connected (udp (bindings t' ! i))" "bound (bindings t' ! i)" "port_of (bindings t' ! i) = port_of (bindings t ! i)"
    "r = \<lparr>message = octets_of d, sourceConnectionString = connection_string (from_ip d) (from_port d), arrivedOn = instance_of (bindings t ! i)\<rparr>"
    "from_port d \<noteq> port_of (bindings t ! i) \<longrightarrow>
       hasPeer (bindings t' ! i) \<and> peerIp (bindings t' ! i) = from_ip d \<and> peerPort (bindings t' ! i) = from_port d"
    by (rule received_binding [OF links.reach_inv [OF assms(1)] assms(2)]) (rule that; assumption)
  have ip: "length (from_ip d0) = 4" using assms(3) f(1,3) by (metis list.set_intros(1) nth_mem)
  have dest: "destination_of ifs b (connection_string (from_ip d0) (from_port d0)) False = Some (from_ip d0, from_port d0)" for b
    using take_4 [OF ip] by (simp add: destination_of_def connection_string_def be16_octets Let_def)
  have "snd (HelperSendMessage ifs sendto t' reply (sourceConnectionString r) (arrivedOn r) False) =
      [\<lparr>to_ip = from_ip d0, to_port = from_port d0, payload = reply\<rparr>]"
    using f(4-7,9) dest by (auto simp: HelperSendMessage_def Send_def Let_def connection_string_def)
  moreover have "from_port d0 \<noteq> port_of (bindings t ! i) \<and> IsStackChosenBroadcast reply = Some True \<longrightarrow>
      snd (HelperSendMessage ifs sendto t' reply [] (arrivedOn r) bc) =
        [\<lparr>to_ip = GetLocalBroadcastIPv4 ifs, to_port = port_of (bindings t ! i), payload = reply\<rparr>,
         \<lparr>to_ip = from_ip d0, to_port = from_port d0, payload = reply\<rparr>]"
    using f(4-8,10) by (auto simp: HelperSendMessage_def Send_def Let_def destination_of_def)
  ultimately show ?thesis using f(1,3,4,9) by (auto intro!: exI [of _ i] exI [of _ d0])
qed

text \<open>Witness: the Who-Is of a tool on another port, answered by an I-Am.\<close>

theorem answer_reaches_requester_witness:
  "\<exists>r t'. HelperReceiveMessage 1497 6 two_ports = (Some r, t') \<and>
     snd (HelperSendMessage None (\<lambda>p. 8) t' [0x81, 0x0B, 0, 8, 1, 0, 0x10, 0] [] (arrivedOn r) True) =
       [\<lparr>to_ip = [255, 255, 255, 255], to_port = 47808, payload = [0x81, 0x0B, 0, 8, 1, 0, 0x10, 0]\<rparr>,
        \<lparr>to_ip = [192, 168, 1, 20], to_port = 50000, payload = [0x81, 0x0B, 0, 8, 1, 0, 0x10, 0]\<rparr>]"
proof -
  have arrived: "map_option arrivedOn (fst (HelperReceiveMessage 1497 6 two_ports)) = Some 1" by code_simp
  then obtain r t' where r: "HelperReceiveMessage 1497 6 two_ports = (Some r, t')" "arrivedOn r = 1"
    by (cases "HelperReceiveMessage 1497 6 two_ports") auto
  have four: "\<forall>b \<in> set (bindings two_ports). \<forall>d \<in> set (inbox (udp b)). length (from_ip d) = 4"
    by (simp add: two_ports_bindings who_is_def)
  have iam: "IsStackChosenBroadcast [0x81, 0x0B, 0, 8, 1, 0, 0x10, 0] = Some True" by code_simp
  have bc: "GetLocalBroadcastIPv4 None = [255, 255, 255, 255]" by (simp add: GetLocalBroadcastIPv4_def GetPrimaryIPv4_def)
  obtain i d ds where i: "i < length (bindings two_ports)" "inbox (udp (bindings two_ports ! i)) = d # ds"
      "arrivedOn r = instance_of (bindings two_ports ! i)"
      "from_port d \<noteq> port_of (bindings two_ports ! i) \<longrightarrow>
        snd (HelperSendMessage None (\<lambda>p. 8) t' [0x81, 0x0B, 0, 8, 1, 0, 0x10, 0] [] (arrivedOn r) True) =
        [\<lparr>to_ip = GetLocalBroadcastIPv4 None, to_port = port_of (bindings two_ports ! i), payload = [0x81, 0x0B, 0, 8, 1, 0, 0x10, 0]\<rparr>,
         \<lparr>to_ip = from_ip d, to_port = from_port d, payload = [0x81, 0x0B, 0, 8, 1, 0, 0x10, 0]\<rparr>]"
    using answer_reaches_requester [OF two_ports_reached r(1) four, of None "\<lambda>p. 8" "[0x81, 0x0B, 0, 8, 1, 0, 0x10, 0]" True] iam by auto
  have "i = 0" using i(1,3) r(2) by (auto simp: two_ports_bindings less_Suc_eq)
  with i r show ?thesis by (auto simp: two_ports_bindings who_is_def bc)
qed

end
