(* ===== verification/Main_Loop.thy ===== *)
theory Main_Loop
  imports Property_Write Command_Line Transport
begin

unbundle bit_operations_syntax

text \<open>
  The main loop of \<open>main.cpp\<close>: one pass runs the stack (which calls the callbacks of the other
  theories), applies a pending restore, moves the car, flips the simulated alarm, performs a due
  restart and handles a key. The host's clocks, the time zone functions, the keys read and the stack's
  answers are inputs (\<open>host\<close>); the calls into the stack are returned as a list. A pass is \<open>None\<close> if a
  callback leaves an array. The properties are about every sequence of passes from power-on.
\<close>

section \<open>Keys\<close>

datatype KeyCommand =
    NoKey | Help | Quit | ArrowUp | ArrowDown | DemoAdvance | WriteGroupDemo | DiscoverRemote | RouterAnnounce | Metrics
  | SimulatedPeerToggle | ContactToggle | ForceOpen | BadgePulse

text \<open>\<open>buf\<close> is what \<open>read\<close> returned: at most three octets, none if there was no input.\<close>

definition PollKey :: "u8 list \<Rightarrow> KeyCommand" where
  "PollKey buf =
     (if buf = [] then NoKey
      else if 3 \<le> length buf \<and> buf ! 0 = 27 \<and> buf ! 1 = 91
      then (if buf ! 2 = 65 then ArrowUp else if buf ! 2 = 66 then ArrowDown else NoKey)
      else (let c = buf ! 0; is = \<lambda>l u. c = l \<or> c = u
            in if is 0x68 0x48 then Help
               else if is 0x71 0x51 then Quit
               else if is 0x73 0x53 then DemoAdvance
               else if is 0x77 0x57 then WriteGroupDemo
               else if is 0x64 0x44 then DiscoverRemote
               else if is 0x72 0x52 then RouterAnnounce
               else if is 0x6D 0x4D then Metrics
               else if is 0x6B 0x4B then SimulatedPeerToggle
               else if is 0x6F 0x4F then ContactToggle
               else if is 0x66 0x46 then ForceOpen
               else if is 0x70 0x50 then BadgePulse
               else NoKey))"

section \<open>What the stack does during a tick\<close>

record host =
  clock_s :: int
  clock_ms :: u64
  clock_ns :: int
  localtime_of :: "int \<Rightarrow> tm option"
  mktime_of :: "tm \<Rightarrow> int"
  add_object :: "u32 \<Rightarrow> bool"
  key_octets :: "u8 list"

text \<open>One call of a callback that changes the application's state, with its arguments.\<close>

datatype stack_event =
    WriteReal u32 u16 u32 u32 fp u8
  | WriteEnumerated u32 u16 u32 u32 u32 u8
  | WriteUnsigned u32 u16 u32 u32 u32 u8
  | WriteBool u32 u16 u32 u32 bool
  | WriteNull u32 u16 u32 u32 u8
  | CreateEvent u32 u16 u32
  | DeleteEvent u32 u16 u32
  | WriteFileEvent u32 u32 u32 string u32
  | PrepareBackupEvent u32
  | PrepareRestoreEvent u32
  | CompleteRestoreEvent u32 bool
  | LandingCallEvent u32 u32 u8 u8 u32 u8
  | SetTimeEvent u32 u8 u8 u8 u8 u8 u8
  | ReinitializeEvent u32 u32 "u8 list option" u32

text \<open>The state after a callback: unchanged if it declines. \<open>None\<close> is a write outside the file's array.\<close>

definition accepted :: "device callback \<Rightarrow> device \<Rightarrow> device" where
  "accepted r st = (case r of Inl e \<Rightarrow> st | Inr st' \<Rightarrow> st')"

fun handle_event :: "config \<Rightarrow> host \<Rightarrow> stack_event \<Rightarrow> device \<Rightarrow> device option" where
  "handle_event cfg h (WriteReal di ot oi p v pr) st = Some (accepted (SetPropertyReal cfg st di ot oi p v pr) st)"
| "handle_event cfg h (WriteEnumerated di ot oi p v pr) st = Some (accepted (SetPropertyEnumerated cfg st di ot oi p v pr) st)"
| "handle_event cfg h (WriteUnsigned di ot oi p v pr) st =
     Some (accepted (SetPropertyUnsignedInteger (localtime_of h) (clock_s h) cfg st di ot oi p v pr) st)"
| "handle_event cfg h (WriteBool di ot oi p v) st = Some (accepted (SetPropertyBool cfg st di ot oi p v) st)"
| "handle_event cfg h (WriteNull di ot oi p pr) st = Some (accepted (SetPropertyNull cfg st di ot oi p pr) st)"
| "handle_event cfg h (CreateEvent di ot oi) st =
     Some (case CreateObject (g_deviceInstance cfg) di ot oi (created st) of Some t \<Rightarrow> st\<lparr>created := t\<rparr> | None \<Rightarrow> st)"
| "handle_event cfg h (DeleteEvent di ot oi) st =
     Some (case DeleteObject (g_deviceInstance cfg) di ot oi (created st) of Some t \<Rightarrow> st\<lparr>created := t\<rparr> | None \<Rightarrow> st)"
| "handle_event cfg h (WriteFileEvent di fi start data n) st =
     (case WriteFile (localtime_of h) (clock_s h) (g_clockOffsetSeconds st) (g_deviceInstance cfg) di fi start data n (ivory_file st) of
        Declined \<Rightarrow> Some st | Overrun \<Rightarrow> None | Written f ack \<Rightarrow> Some (st\<lparr>ivory_file := f\<rparr>))"
| "handle_event cfg h (PrepareBackupEvent di) st =
     Some (case PrepareBackup (localtime_of h) (clock_s h) (g_clockOffsetSeconds st) (g_deviceInstance cfg) di (created st) (ivory_file st) of
             Some f \<Rightarrow> st\<lparr>ivory_file := f\<rparr> | None \<Rightarrow> st)"
| "handle_event cfg h (PrepareRestoreEvent di) st =
     Some (case PrepareRestore (g_deviceInstance cfg) di (ivory_file st) of Some f \<Rightarrow> st\<lparr>ivory_file := f\<rparr> | None \<Rightarrow> st)"
| "handle_event cfg h (CompleteRestoreEvent di aborted) st =
     Some (st\<lparr>staged := snd (CompleteRestore (g_deviceInstance cfg) di aborted (ivory_file st) (staged st))\<rparr>)"
| "handle_event cfg h (LandingCallEvent di grp fl choice dir dest) st =
     Some (case SetElevatorGroupLandingCallControl (g_deviceInstance cfg) di grp fl choice dir dest (elev st) of
             Some el \<Rightarrow> st\<lparr>elev := el\<rparr> | None \<Rightarrow> st)"
| "handle_event cfg h (SetTimeEvent di y mo d hr mi s) st =
     Some (case SetSystemTime (mktime_of h) (clock_s h) (g_deviceInstance cfg) di y mo d hr mi s of
             Some off \<Rightarrow> st\<lparr>g_clockOffsetSeconds := off\<rparr> | None \<Rightarrow> st)"
| "handle_event cfg h (ReinitializeEvent di state pw n) st =
     Some (case ReinitializeDevice (g_deviceInstance cfg) (g_dccPassword cfg) (clock_ms h) di state pw n (restart_timer st) of
             Inr r \<Rightarrow> st\<lparr>restart_timer := r\<rparr> | Inl e \<Rightarrow> st)"

fun handle_events :: "config \<Rightarrow> (host \<times> stack_event) list \<Rightarrow> device \<Rightarrow> device option" where
  "handle_events cfg [] st = Some st"
| "handle_events cfg ((h, e) # es) st = do { st \<leftarrow> handle_event cfg h e st; handle_events cfg es st }"

section \<open>The rest of a pass\<close>

text \<open>The calls of the loop into the stack.\<close>

datatype stack_action =
    Update u16 u32 u32
  | RestoreCall stack_call
  | AnnounceIAm
  | WhoIs "u8 list"
  | WeeklyTimeValue u8 u8 u8 u8

definition apply_restore :: "host \<Rightarrow> device \<Rightarrow> device \<times> stack_action list" where
  "apply_restore h st =
     (if g_restorePending (staged st)
      then (let st = st\<lparr>staged := (staged st)\<lparr>g_restorePending := False\<rparr>\<rparr>;
                (t, cs) = ApplyRestoredConfiguration (add_object h) (staged st) (created st)
            in (st\<lparr>created := t\<rparr>, map RestoreCall cs))
      else (st, []))"

definition LiftCarPropertyChanged :: "u32 \<Rightarrow> stack_action" where
  "LiftCarPropertyChanged propertyIdentifier = Update OBJECT_TYPE_LIFT LIFT_INSTANCE propertyIdentifier"

definition move_car :: "host \<Rightarrow> device \<Rightarrow> device \<times> stack_action list" where
  "move_car h st =
     (let (car, props) = LiftCarTick (clock_ns h) (g_liftCar (elev st))
      in (st\<lparr>elev := (elev st)\<lparr>g_liftCar := car\<rparr>\<rparr>, map LiftCarPropertyChanged props))"

definition flip_alarm :: "bool \<Rightarrow> int \<Rightarrow> host \<Rightarrow> int \<Rightarrow> device \<Rightarrow> int \<times> device \<times> stack_action list" where
  "flip_alarm simulated period h lastAlarmToggle st =
     (if simulated \<and> period \<le> clock_s h - lastAlarmToggle
      then (clock_s h, st\<lparr>g_liftPassengerAlarm := \<not> g_liftPassengerAlarm st\<rparr>,
            [Update OBJECT_TYPE_LIFT LIFT_INSTANCE PROPERTY_IDENTIFIER_PASSENGER_ALARM])
      else (lastAlarmToggle, st, []))"

definition cold_start :: "device \<Rightarrow> device" where
  "cold_start st =
     st\<lparr>g_analogInput1Value := float_21_5, outs := outputs_init, g_liftOutOfService := False, g_liftPassengerAlarm := False,
        g_escalatorOutOfService := False, g_escalatorPassengerAlarm := False, g_escalatorPowerMode := True,
        elev := \<lparr>g_liftCar = LiftCar_init, g_lastLandingCallControl = LastLandingCallControl_init\<rparr>\<rparr>"

definition restart_if_due :: "host \<Rightarrow> device \<Rightarrow> device \<times> stack_action list" where
  "restart_if_due h st =
     (let (due, r) = RestartDue (clock_ms h) (restart_timer st); st = st\<lparr>restart_timer := r\<rparr>
      in case due of
           None \<Rightarrow> (st, [])
         | Some kind \<Rightarrow> (if kind = Cold then cold_start st else st, [AnnounceIAm]))"

text \<open>\<open>1.1f\<close>, and the local subnet broadcast as a connection string.\<close>

definition float_1_1 :: fp where "float_1_1 = FNum False 9227469 (- 23)"

definition LocalBroadcastConnString :: "config \<Rightarrow> u8 list" where
  "LocalBroadcastConnString cfg =
     map (\<lambda>k. g_ipAddress cfg ! k OR NOT (g_ipSubnetMask cfg ! k)) [0, 1, 2, 3] @
     [ucast (drop_bit 8 (g_bacnetIpUdpPort cfg)), ucast (g_bacnetIpUdpPort cfg AND 0xFF)]"

text \<open>The switch over the key: the state, the calls and the new value of \<open>running\<close>.\<close>

definition handle_key :: "config \<Rightarrow> host \<Rightarrow> device \<Rightarrow> bool \<times> device \<times> stack_action list" where
  "handle_key cfg h st =
     (let update = [Update OBJECT_TYPE_ANALOG_INPUT ANALOG_INPUT_INSTANCE PROPERTY_IDENTIFIER_PRESENT_VALUE]
      in case PollKey (key_octets h) of
           Quit \<Rightarrow> (False, st, [])
         | ArrowUp \<Rightarrow> (True, st\<lparr>g_analogInput1Value := f32_add (g_analogInput1Value st) float_1_1\<rparr>, update)
         | ArrowDown \<Rightarrow> (True, st\<lparr>g_analogInput1Value := f32_add (g_analogInput1Value st) (fp_neg float_1_1)\<rparr>, update)
         | DiscoverRemote \<Rightarrow> (True, st, [WhoIs (LocalBroadcastConnString cfg)])
         | DemoAdvance \<Rightarrow>
             (True, st,
              (case GetDeviceLocalTm (localtime_of h) (clock_s h) (g_clockOffsetSeconds st) of
                 None \<Rightarrow> []
               | Some t \<Rightarrow> [WeeklyTimeValue (word_of_int ((tm_wday t + 6) mod 7)) (word_of_int (tm_hour t))
                             (word_of_int (tm_min t)) (word_of_int (tm_sec t))]))
         | _ \<Rightarrow> (True, st, []))"

section \<open>The loop\<close>

record loop_state =
  dev :: device
  lastAlarmToggle :: int
  running :: bool

text \<open>What a pass is given: the callbacks the stack makes, each with the host as it sees it, and the host in the loop.\<close>

record pass_input =
  events :: "(host \<times> stack_event) list"
  host_now :: host

record loop_config =
  settings :: config
  simulatedAlarms :: bool
  alarmPeriod :: int

definition loop_pass :: "loop_config \<Rightarrow> pass_input \<Rightarrow> loop_state \<Rightarrow> (loop_state \<times> stack_action list) option" where
  "loop_pass lc i s = do {
     st \<leftarrow> handle_events (settings lc) (events i) (dev s);
     let h = host_now i;
     let (st, restored) = apply_restore h st;
     let (st, moved) = move_car h st;
     let (toggled, st, flipped) = flip_alarm (simulatedAlarms lc) (alarmPeriod lc) h (lastAlarmToggle s) st;
     let (st, restarted) = restart_if_due h st;
     let (go, st, keyed) = handle_key (settings lc) h st;
     Some (\<lparr>dev = st, lastAlarmToggle = toggled, running = go\<rparr>, restored @ moved @ flipped @ restarted @ keyed) }"

text \<open>The loop on the inputs of its passes; what is left of them if it ends before they do.\<close>

fun main_loop :: "loop_config \<Rightarrow> pass_input list \<Rightarrow> loop_state \<Rightarrow> (loop_state \<times> pass_input list) option" where
  "main_loop lc [] s = Some (s, [])"
| "main_loop lc (i # is) s = (if running s then do { (s, acts) \<leftarrow> loop_pass lc i s; main_loop lc is s } else Some (s, i # is))"

text \<open>
  The state before the first pass: the file's modification date is the time of the start, and \<open>now\<close> is the
  clock read just before the loop.
\<close>

definition power_on :: "host \<Rightarrow> int \<Rightarrow> loop_state" where
  "power_on h now =
     \<lparr>dev = device_init\<lparr>ivory_file := ivory_init\<lparr>g_fileModificationDate :=
              ReadDeviceDateTime (localtime_of h) (clock_s h) 0 (g_fileModificationDate ivory_init)\<rparr>\<rparr>,
      lastAlarmToggle = now, running = True\<rparr>"

section \<open>The invariant is kept\<close>

text \<open>
  What the stack passes: a \<open>float\<close> where the parameter is one, and for the file the octets it announces,
  at a position or at -1 for the end.
\<close>

fun well_formed :: "stack_event \<Rightarrow> bool" where
  "well_formed (WriteReal di ot oi p v pr) \<longleftrightarrow> is_f32 v"
| "well_formed (WriteFileEvent di fi start data n) \<longleftrightarrow> - 1 \<le> sint start \<and> unat n = length data \<and> length data < 2 ^ 31"
| "well_formed _ \<longleftrightarrow> True"

lemma device_inv_upd:
  assumes "device_inv st"
  shows "av_inv t \<Longrightarrow> values_f32 t \<Longrightarrow> device_inv (st\<lparr>created := t\<rparr>)"
    "ivory_inv f \<Longrightarrow> device_inv (st\<lparr>ivory_file := f\<rparr>)"
    "restore_inv r \<Longrightarrow> list_all staged_ok (restored r) \<Longrightarrow> device_inv (st\<lparr>staged := r\<rparr>)"
    "car_inv (g_liftCar el) \<Longrightarrow> device_inv (st\<lparr>elev := el\<rparr>)"
    "outputs_inv os \<Longrightarrow> device_inv (st\<lparr>outs := os\<rparr>)"
    "is_f32 v \<Longrightarrow> device_inv (st\<lparr>g_analogInput1Value := v\<rparr>)"
    "device_inv (st\<lparr>g_clockOffsetSeconds := off\<rparr>)" "device_inv (st\<lparr>restart_timer := rt\<rparr>)" "device_inv (st\<lparr>g_liftPassengerAlarm := b\<rparr>)"
    "device_inv (st\<lparr>g_liftOutOfService := b\<rparr>)" "device_inv (st\<lparr>g_escalatorOutOfService := b\<rparr>)"
    "device_inv (st\<lparr>g_escalatorPassengerAlarm := b\<rparr>)" "device_inv (st\<lparr>g_escalatorPowerMode := b\<rparr>)"
  using assms by (simp_all add: device_inv_def)

lemma values_f32_upd: "values_f32 t \<Longrightarrow> is_f32 (presentValue av) \<Longrightarrow> values_f32 (t[k := av])"
  by (auto simp: values_f32_def list_all_iff dest!: set_update_subset_insert [THEN subsetD])

lemma CreateObject_keeps:
  assumes "CreateObject dv di ot oi t = Some t'" "av_inv t" "values_f32 t"
  shows "av_inv t'" "values_f32 t'"
proof -
  have a: "di = dv" "ot = OBJECT_TYPE_ANALOG_VALUE" using assms(1) by (auto simp: CreateObject_def split: if_splits)
  show "av_inv t'" using CreateObject_refines(2) [OF assms(2)] assms(1) a by blast
  show "values_f32 t'"
    using assms(1,3) f32_small(3) by (auto simp: CreateObject_def values_f32_upd split: if_splits option.splits)
qed

lemma values_f32_nth: "values_f32 t \<Longrightarrow> k < length t \<Longrightarrow> is_f32 (presentValue (t ! k))"
  by (simp add: values_f32_def list_all_length)

lemma values_f32_free: "values_f32 t \<Longrightarrow> values_f32 (t[k := (t ! k)\<lparr>inUse := b\<rparr>])"
proof (cases "k < length t")
  case True
  then show "values_f32 t \<Longrightarrow> values_f32 (t[k := (t ! k)\<lparr>inUse := b\<rparr>])" by (auto intro!: values_f32_upd simp: values_f32_nth)
qed (simp add: list_update_beyond)

lemma DeleteObject_keeps:
  assumes "DeleteObject dv di ot oi t = Some t'" "av_inv t" "values_f32 t"
  shows "av_inv t'" "values_f32 t'"
  using assms slot_change(1) [OF assms(2)] by (auto simp: DeleteObject_def values_f32_free split: if_splits option.splits)

lemma WriteFile_keeps:
  assumes "ivory_inv f" "well_formed (WriteFileEvent di fi start data n)"
  shows "WriteFile lt now off dv di fi start data n f \<noteq> Overrun"
    "WriteFile lt now off dv di fi start data n f = Written f' ack \<Longrightarrow> ivory_inv f'"
proof -
  show "WriteFile lt now off dv di fi start data n f \<noteq> Overrun"
  proof (cases "di = dv \<and> fi = FILE_INSTANCE")
    case True
    then show ?thesis using WriteFile_in_bounds [OF assms(1), of start n data lt now off dv] assms(2) by auto
  next
    case False
    then show ?thesis by (auto simp: WriteFile_def)
  qed
  show "WriteFile lt now off dv di fi start data n f = Written f' ack \<Longrightarrow> ivory_inv f'"
    using ivory_inv_write [OF assms(1)] assms(2) by auto
qed

lemma PrepareBackup_keeps:
  assumes "ivory_inv f" "av_inv t" "values_f32 t" "PrepareBackup lt now off dv di t f = Some f'"
  shows "ivory_inv f'"
proof -
  have "length t = 8" using assms(2) by (simp add: av_inv_def)
  moreover from this have "length (image_of t) < 4096"
    using image_length [of t] assms(3) by (simp add: values_f32_def list_all_iff)
  ultimately show ?thesis
    using build_content(2) [OF assms(1)] assms(4) by (auto simp: PrepareBackup_def split: if_splits)
qed

text \<open>A rejected image leaves octets of its own in the staging array, but only valid values.\<close>

lemma parse_lines_keeps:
  assumes "list_all staged_ok (take m res)" "parse_lines tx res n = (ok, res', n')"
  shows "list_all staged_ok (take m res')"
  using assms
proof (induction tx res n arbitrary: ok res' n' rule: parse_lines.induct)
  case (1 tx res n)
  let ?line = "takeWhile (\<lambda>c. c \<noteq> NEWLINE) tx"
  note eq = "1.prems"(2) [unfolded parse_lines.simps [of tx] Let_def]
  consider "tx = []" | "tx \<noteq> []" "?line = []"
    | "tx \<noteq> []" "?line \<noteq> []" "take (length CONFIGURATION_IMAGE_ANALOG_VALUE) ?line \<noteq> CONFIGURATION_IMAGE_ANALOG_VALUE \<or> 8 \<le> n"
    | "tx \<noteq> []" "?line \<noteq> []" "take (length CONFIGURATION_IMAGE_ANALOG_VALUE) ?line = CONFIGURATION_IMAGE_ANALOG_VALUE" "n < 8"
    by fastforce
  then show ?case
  proof cases
    case 2
    with "1.IH"(1) [OF 2(1) refl refl 2(2)] "1.prems" eq show ?thesis by simp
  next
    case 4
    show ?thesis
    proof (cases "parse_line ?line")
      case (Some q)
      have "list_all staged_ok (take m (res[n := q]))"
        using parse_line_ok [OF Some] "1.prems"(1) by (auto simp: take_update_swap list_all_iff dest!: set_update_subset_insert [THEN subsetD])
      with "1.IH"(2) [OF 4(1) refl refl 4(2) _ Some] 4 eq Some show ?thesis by simp
    qed (use 4 eq "1.prems" in auto)
  qed (use eq "1.prems" in auto)
qed

lemma CompleteRestore_keeps:
  assumes "restore_inv r" "list_all staged_ok (restored r)"
  shows "restore_inv (snd (CompleteRestore dv di aborted f r))" "list_all staged_ok (restored (snd (CompleteRestore dv di aborted f r)))"
proof -
  obtain b res n where p: "parse_lines (drop (length CONFIGURATION_IMAGE_HEADER) (file_content f)) (g_restoredAnalogValues r) 0 = (b, res, n)"
    by (metis prod_cases3)
  have a: "length res = 8 \<and> n \<le> 8 \<and> list_all staged_ok (take n res)"
    using parse_lines_any [OF _ _ _ p] assms(1) by (simp add: restore_inv_def)
  have k: "list_all staged_ok (take (g_restoredAnalogValueCount r) res)"
    using parse_lines_keeps [OF _ p] assms(2) by (simp add: restored_def)
  show "restore_inv (snd (CompleteRestore dv di aborted f r))"
    using assms(1) a p by (auto simp: CompleteRestore_def ParseConfigurationImage_def restore_inv_def Let_def split: bool.split)
  show "list_all staged_ok (restored (snd (CompleteRestore dv di aborted f r)))"
    using assms(2) a k p by (auto simp: CompleteRestore_def ParseConfigurationImage_def restored_def Let_def split: bool.split)
qed

lemma ApplyRestored_keeps:
  assumes "av_inv t" "values_f32 t" "restore_inv r" "list_all staged_ok (restored r)"
  shows "av_inv (fst (ApplyRestoredConfiguration add r t))" "values_f32 (fst (ApplyRestoredConfiguration add r t))"
proof -
  show "av_inv (fst (ApplyRestoredConfiguration add r t))" using apply_synced [OF assms(1)] by (simp add: synced_def)
  have d: "values_f32 (fst s) \<Longrightarrow> values_f32 (fst (delete_unlisted r k s))" for k s
    by (cases s) (auto simp: delete_unlisted_def Let_def values_f32_free)
  have del: "values_f32 (fst s) \<Longrightarrow> values_f32 (fst (fold (delete_unlisted r) ks s))" for ks s
    by (induction ks arbitrary: s) (auto simp: d)
  have e: "values_f32 (fst s) \<Longrightarrow> is_f32 (snd q) \<Longrightarrow> values_f32 (fst (restore_value add q s))" for q s
    by (cases s; cases q) (auto simp: restore_value_def values_f32_upd split: option.splits)
  have ok: "is_f32 (snd (g_restoredAnalogValues r ! k))" if "k < g_restoredAnalogValueCount r" for k
    using assms(3,4) that by (auto simp: restored_def restore_inv_def list_all_length staged_ok_def)
  have rest: "values_f32 (fst s) \<Longrightarrow> \<forall>k \<in> set ks. k < g_restoredAnalogValueCount r \<Longrightarrow>
      values_f32 (fst (fold (\<lambda>k. restore_value add (g_restoredAnalogValues r ! k)) ks s))" for ks s
    by (induction ks arbitrary: s) (auto simp: e ok)
  show "values_f32 (fst (ApplyRestoredConfiguration add r t))"
    unfolding ApplyRestoredConfiguration_def by (rule rest) (simp_all add: del assms(2))
qed

text \<open>Every callback, and every other part of a pass.\<close>

lemma handle_event_inv:
  assumes "device_inv st" "well_formed e"
  shows "\<exists>st'. handle_event cfg h e st = Some st' \<and> device_inv st'"
proof -
  note inv = device_invD [OF assms(1)]
  have st: "list_all staged_ok (restored (staged st))" using assms(1) by (simp add: device_inv_def)
  note upd = device_inv_upd [OF assms(1)]
  show ?thesis
  proof (cases e)
    case (WriteReal di ot oi p v pr)
    then show ?thesis using set_callbacks_inv(1) [OF assms(1)] assms by (auto simp: accepted_def split: sum.split)
  next
    case (WriteFileEvent di fi start bytes n)
    have wf: "well_formed (WriteFileEvent di fi start bytes n)" using assms(2) WriteFileEvent by simp
    show ?thesis unfolding WriteFileEvent
      using WriteFile_keeps [OF inv(7) wf] assms(1) by (auto simp: upd split: write_outcome.split)
  next
    case (CreateEvent di ot oi)
    then show ?thesis using CreateObject_keeps [OF _ inv(5,6)] assms(1) by (auto simp: upd split: option.split)
  next
    case (DeleteEvent di ot oi)
    then show ?thesis using DeleteObject_keeps [OF _ inv(5,6)] assms(1) by (auto simp: upd split: option.split)
  next
    case (PrepareBackupEvent di)
    then show ?thesis using PrepareBackup_keeps [OF inv(7,5,6)] assms(1) by (auto simp: upd split: option.split)
  next
    case (PrepareRestoreEvent di)
    have "ivory_inv ((ivory_file st)\<lparr>g_fileDataLength := 0\<rparr>)" using inv(7) by (simp add: ivory_inv_def)
    with PrepareRestoreEvent assms(1) show ?thesis by (auto simp: upd PrepareRestore_def)
  next
    case (CompleteRestoreEvent di aborted)
    then show ?thesis using CompleteRestore_keeps [OF inv(8) st] by (simp add: upd)
  next
    case (LandingCallEvent di grp fl choice dir dest)
    then show ?thesis using car_inv_SetLandingCall [OF inv(4)] assms(1) by (auto simp: upd split: option.split)
  qed (use assms set_callbacks_inv(2-5) [OF assms(1)] in \<open>auto simp: accepted_def upd split: sum.split option.split\<close>)
qed

lemma f32_add_in_format: "is_f32 a \<Longrightarrow> is_f32 b \<Longrightarrow> is_f32 (f32_add a b)"
  by (cases "(a, b)" rule: f32_add.cases) (auto simp: f32_of_f64_in_format Let_def simp del: f32_of_f64.simps)

lemma float_1_1_in_format: "is_f32 float_1_1" "is_f32 (fp_neg float_1_1)"
  using bitlen_in [of 9227469 24] by (simp_all add: float_1_1_def binary32_def)

lemma handle_events_inv:
  "device_inv st \<Longrightarrow> list_all (\<lambda>(h, e). well_formed e) es \<Longrightarrow> \<exists>st'. handle_events cfg es st = Some st' \<and> device_inv st'"
proof (induction cfg es st rule: handle_events.induct)
  case (2 cfg h e es st)
  then obtain st1 where "handle_event cfg h e st = Some st1" "device_inv st1" using handle_event_inv [of st e cfg h] by auto
  with 2 show ?case by auto
qed simp

lemma apply_restore_inv:
  assumes "device_inv st"
  shows "device_inv (fst (apply_restore h st))"
proof -
  let ?r = "(staged st)\<lparr>g_restorePending := False\<rparr>"
  have r: "restore_inv ?r" "list_all staged_ok (restored ?r)" using assms by (auto simp: device_inv_def restore_inv_def restored_def)
  note inv = device_invD [OF assms]
  have "device_inv (st\<lparr>staged := ?r\<rparr>)" using device_inv_upd(3) [OF assms] r by blast
  note upd = device_inv_upd(1) [OF this ApplyRestored_keeps [OF inv(5,6) r, of "add_object h"]]
  then show ?thesis using assms
    by (cases "ApplyRestoredConfiguration (add_object h) ?r (created st)") (simp add: apply_restore_def Let_def)
qed

lemma move_car_inv: "device_inv st \<Longrightarrow> device_inv (fst (move_car h st))"
  using car_inv_tick [of "g_liftCar (elev st)" "clock_ns h"] device_invD(4) [of st] device_inv_upd(4) [of st]
  by (auto simp: move_car_def split: prod.splits)

lemma flip_alarm_inv: "device_inv st \<Longrightarrow> device_inv (fst (snd (flip_alarm sim p h l st)))"
  using device_inv_upd(9) [of st] by (simp add: flip_alarm_def)

lemma cold_start_inv: "device_inv st \<Longrightarrow> device_inv (cold_start st)"
  using device_inv_init by (simp add: cold_start_def device_inv_def device_init_def elevator_init_def)

lemma restart_if_due_inv: "device_inv st \<Longrightarrow> device_inv (fst (restart_if_due h st))"
  using device_inv_upd(8) [of st] by (auto simp: restart_if_due_def Let_def cold_start_inv split: prod.splits option.splits)

lemma handle_key_inv: "device_inv st \<Longrightarrow> device_inv (fst (snd (handle_key cfg h st)))"
  using device_inv_upd(6) [of st] f32_add_in_format device_invD(9) [of st] float_1_1_in_format
  by (auto simp: handle_key_def Let_def split: KeyCommand.split)

lemma loop_pass_inv:
  assumes "device_inv (dev s)" "list_all (\<lambda>(h, e). well_formed e) (events i)"
  shows "\<exists>s' acts. loop_pass lc i s = Some (s', acts) \<and> device_inv (dev s') \<and>
    running s' = (PollKey (key_octets (host_now i)) \<noteq> Quit)"
proof -
  let ?h = "host_now i"
  obtain st0 where e: "handle_events (settings lc) (events i) (dev s) = Some st0" "device_inv st0"
    using handle_events_inv [OF assms] by blast
  obtain st1 a1 where 1: "apply_restore ?h st0 = (st1, a1)" by fastforce
  obtain st2 a2 where 2: "move_car ?h st1 = (st2, a2)" by fastforce
  obtain l st3 a3 where 3: "flip_alarm (simulatedAlarms lc) (alarmPeriod lc) ?h (lastAlarmToggle s) st2 = (l, st3, a3)" by (metis prod_cases3)
  obtain st4 a4 where 4: "restart_if_due ?h st3 = (st4, a4)" by fastforce
  obtain go st5 a5 where 5: "handle_key (settings lc) ?h st4 = (go, st5, a5)" by (metis prod_cases3)
  have "device_inv st5"
    using apply_restore_inv [OF e(2), of ?h] move_car_inv [of st1 ?h] flip_alarm_inv [of st2 "simulatedAlarms lc" "alarmPeriod lc" ?h "lastAlarmToggle s"]
      restart_if_due_inv [of st3 ?h] handle_key_inv [of st4 "settings lc" ?h] 1 2 3 4 5 by simp
  moreover have "go \<longleftrightarrow> PollKey (key_octets ?h) \<noteq> Quit"
    using arg_cong [OF 5, of fst] by (auto simp: handle_key_def Let_def split: KeyCommand.splits)
  ultimately show ?thesis using e(1) 1 2 3 4 5 by (simp add: loop_pass_def Let_def)
qed

section \<open>Every sequence of passes\<close>

definition starting :: "loop_state \<Rightarrow> bool" where
  "starting s \<longleftrightarrow> (\<exists>h now. s = power_on h now)"

definition stack_input :: "pass_input \<Rightarrow> bool" where
  "stack_input i \<longleftrightarrow> list_all (\<lambda>(h, e). well_formed e) (events i)"

inductive loop_step :: "loop_config \<Rightarrow> loop_state \<Rightarrow> pass_input \<Rightarrow> loop_state \<Rightarrow> bool" for lc :: loop_config where
  pass: "running s \<Longrightarrow> stack_input i \<Longrightarrow> loop_pass lc i s = Some (s', acts) \<Longrightarrow> loop_step lc s i s'"

lemma power_on_inv: "device_inv (dev (power_on h now))"
  using device_inv_init device_inv_upd(2) [OF device_inv_init] ivory_inv_init by (simp add: power_on_def ivory_inv_def)

interpretation loop: invariant_system starting "loop_step lc" "\<lambda>s. device_inv (dev s)" for lc
proof
  show "device_inv (dev s)" if "starting s" for s using that power_on_inv by (auto simp: starting_def)
  show "device_inv (dev s')" if inv: "device_inv (dev s)" and step: "loop_step lc s i s'" for s i s'
    using step
  proof cases
    case (pass acts)
    then show ?thesis using loop_pass_inv [OF inv, of i lc] by (auto simp: stack_input_def)
  qed
qed

section \<open>Properties\<close>

text \<open>
  C35. In every reachable state the values have the types of their objects: the Analog Output's slots
  and default, the Analog Input and the created Analog Values are \<open>float\<close>s, the Binary Output's slots are
  0 or 1 and the Multi-State Output's slots are 1, 2 or 3.
\<close>

theorem values_keep_their_types:
  assumes "reach starting (loop_step lc) s"
  shows "slots_ok is_f32 (g_analogOutput (outs (dev s))) \<and> slots_ok binary_value (g_binaryOutput (outs (dev s))) \<and>
    slots_ok state_value (g_multiStateOutput (outs (dev s))) \<and> is_f32 (g_analogInput1Value (dev s)) \<and>
    values_f32 (created (dev s))"
  using device_invD [OF loop.reach_inv [OF assms]] by simp

text \<open>Examples: a pass in which a client commands the Analog Output, and a quit.\<close>

definition example_host :: host where
  "example_host = \<lparr>clock_s = 0, clock_ms = 0, clock_ns = 0, localtime_of = (\<lambda>t. None), mktime_of = (\<lambda>t. - 1), add_object = (\<lambda>i. True), key_octets = []\<rparr>"

definition command_pass :: pass_input where
  "command_pass = \<lparr>events = [(example_host, WriteReal 389014 1 1 85 float_21_5 8)], host_now = example_host\<rparr>"

definition quit_pass :: pass_input where
  "quit_pass = \<lparr>events = [], host_now = example_host\<lparr>key_octets := [0x71]\<rparr>\<rparr>"

lemma example_inputs: "stack_input command_pass" "stack_input quit_pass" "PollKey (key_octets (host_now quit_pass)) = Quit"
    "PollKey (key_octets (host_now command_pass)) \<noteq> Quit"
  using f32_small(2)
  by (simp_all add: stack_input_def command_pass_def quit_pass_def PollKey_def example_host_def)

lemma example_reached: "reach starting (loop_step lc) (power_on example_host 0)"
  by (rule reach_start) (auto simp: starting_def)

theorem values_keep_their_types_witness: "slots_ok binary_value (g_binaryOutput (outs (dev (power_on example_host 0))))"
  using values_keep_their_types [OF example_reached] by simp

end
