(* ===== verification/Setup_Calls.thy ===== *)
theory Setup_Calls
  imports Main_Loop
begin

text \<open>
  How \<open>main\<close> configures the stack before its loop: a fixed sequence of calls into the stack, which
  ends with exit status 1 at the first call that is refused. The calls are data (\<open>setup_call\<close>, one
  constructor per function of the stack, with the code's arguments; a literal whose parameter type is
  only in the stack's header is a \<open>nat\<close>). The stack's answer to a call is an argument and may depend on
  all calls before it. \<open>well_ordered\<close> says that every call names only objects that were added before.
\<close>

section \<open>The calls\<close>

text \<open>\<open>BACnetStack_RegisterCallback\<dots>\<close>, by the name of the callback.\<close>

datatype (plugins only: code size) stack_callback =
    CbReceiveMessageForPort | CbSendMessageForPort | CbGetSystemTime
  | CbGetPropertyReal | CbGetPropertyEnumerated | CbGetPropertyUnsignedInteger | CbGetPropertyCharacterString
  | CbGetPropertyBool | CbGetPropertyOctetString | CbGetPropertyDate | CbGetPropertyTime
  | CbGetListOfEnumerations | CbGetListElevatorGroupLandingCallStatus | CbGetSequenceLiftAssignedLandingCall
  | CbGetSequenceLiftRegisteredCarCall | CbGetSequenceLiftLandingDoorStatus | CbSetElevatorGroupLandingCallControl
  | CbSetPropertyReal | CbSetPropertyEnumerated | CbSetPropertyUnsignedInteger | CbSetPropertyBool | CbSetPropertyNull
  | CbDeviceCommunicationControl | CbAcknowledgeAlarm | CbReinitializeDevice | CbSetSystemTime
  | CbCreateObject | CbDeleteObject
  | CbReadFile | CbWriteFile | CbPrepareBackup | CbCompleteBackup | CbPrepareRestore | CbCompleteRestore

text \<open>
  The first argument is the device instance. The value of a schedule entry is its data type, the
  unsigned and the real value.
\<close>

datatype (plugins only: code size) setup_call =
    RegisterCallback stack_callback
  | AddDevice u32
  | SetServiceEnabled u32 u32 bool
  | AddObject u32 u16 u32
  | AddNetworkPortObject u32 u32 u8 u8 nat u8 u32
  | AddEventLogObject u32 u32 u32
  | AddScheduleObject u32 u32
  | AddScheduleObjectPropertyReference u32 u32 u32 u16 u32 u32 bool nat
  | SetSchedulePriorityForWriting u32 u32 u8
  | SetScheduleDefault u32 u32 u8 nat fp
  | SetScheduleEffectivePeriod u32 u32 "nat list"
  | AddScheduleWeeklyTimeValue u32 u32 nat "nat list" u8 nat fp
  | AddScheduleExceptionEventWithCalendarEntry u32 u32 nat "nat list" "nat list" nat
  | AddScheduleExceptionTimeValue u32 u32 u32 "nat list" u8 nat fp
  | AddFileObject u32 u32 bool bool u8
  | SetBackupAndRestoreEnabled u32 nat nat nat nat bool
  | SetObjectTypeCreatable u32 u16 bool
  | SetPropertyByObjectTypeWritable u32 u16 u32 bool
  | SetPropertyEnabled u32 u16 u32 u32 bool
  | SetPropertyWritable u32 u16 u32 u32 bool
  | SetPropertySubscribable u32 u16 u32 u32 bool
  | SetCOVSettings u32 nat nat
  | SetCOVMultipleSettings u32 nat
  | AddElevatorGroupObject u32 u32 u32 u8 bool bool
  | AddLiftOrEscalatorObject u32 u16 u32 u32 u8 u8
  | AddNotificationClassObject u32 u32 u8 u8 u8 bool bool bool
  | AddRecipientToNotificationClass u32 u32 u8 "nat list" "nat list" u32 bool bool bool bool bool nat bool nat "u8 list"
  | SetAlarmsAndEventsForObjectEnabled u32 u16 u32 u32 u8 bool bool bool bool bool
  | SetIntrinsicChangeOfStateAlgorithmBool u32 u16 u32 bool nat bool nat bool

text \<open>
  One \<open>if (!call || !call || \<dots>) { printf("Error: \<dots>"); return 1; }\<close>: the calls it makes and the text
  of its message.
\<close>

type_synonym guard = "setup_call list \<times> string"

section \<open>Callbacks\<close>

definition RegisterCommonCallbacks :: "stack_callback list" where
  "RegisterCommonCallbacks = [CbReceiveMessageForPort, CbSendMessageForPort, CbGetSystemTime]"

definition registered_callbacks :: "stack_callback list" where
  "registered_callbacks = RegisterCommonCallbacks @
     [CbGetPropertyReal, CbGetPropertyEnumerated, CbGetPropertyUnsignedInteger, CbGetPropertyCharacterString, CbGetPropertyBool,
      CbGetPropertyOctetString,
      CbGetPropertyDate, CbGetPropertyTime,
      CbGetListOfEnumerations, CbGetListElevatorGroupLandingCallStatus, CbGetSequenceLiftAssignedLandingCall,
      CbGetSequenceLiftRegisteredCarCall, CbGetSequenceLiftLandingDoorStatus, CbSetElevatorGroupLandingCallControl,
      CbSetPropertyReal, CbSetPropertyEnumerated, CbSetPropertyUnsignedInteger, CbSetPropertyBool, CbSetPropertyNull,
      CbDeviceCommunicationControl, CbAcknowledgeAlarm, CbReinitializeDevice, CbSetSystemTime,
      CbCreateObject, CbDeleteObject,
      CbReadFile, CbWriteFile, CbPrepareBackup, CbCompleteBackup, CbPrepareRestore, CbCompleteRestore]"

section \<open>The device and its services\<close>

definition device_guards :: "u32 \<Rightarrow> guard list" where
  "device_guards di = [([AddDevice di], ''Failed to add the Device '' @ fmt_u di @ ''.'')]"

definition services :: "(u32 \<times> string) list" where
  "services =
     [(SERVICE_READ_PROPERTY, ''ReadProperty (DS-RP-B)''),
      (SERVICE_READ_PROPERTY_MULTIPLE, ''ReadPropertyMultiple (DS-RPM-B)''),
      (SERVICE_WRITE_PROPERTY, ''WriteProperty (DS-WP-B)''),
      (SERVICE_WRITE_PROPERTY_MULTIPLE, ''WritePropertyMultiple (DS-WPM-B)''),
      (SERVICE_DEVICE_COMMUNICATION_CONTROL, ''DeviceCommunicationControl (DM-DCC-B)''),
      (SERVICE_REINITIALIZE_DEVICE, ''ReinitializeDevice (DM-RD-B)''),
      (SERVICE_TIME_SYNCHRONIZATION, ''TimeSynchronization (DM-TS-B)''),
      (SERVICE_ACKNOWLEDGE_ALARM, ''AcknowledgeAlarm (AE-ACK-B)''),
      (SERVICE_GET_EVENT_INFORMATION, ''GetEventInformation (AE-INFO-B)''),
      (SERVICE_CONFIRMED_EVENT_NOTIFICATION, ''ConfirmedEventNotification (AE-N-I-B)''),
      (SERVICE_UNCONFIRMED_EVENT_NOTIFICATION, ''UnconfirmedEventNotification (AE-N-I-B)''),
      (SERVICE_CREATE_OBJECT, ''CreateObject (DM-OCD-B)''),
      (SERVICE_DELETE_OBJECT, ''DeleteObject (DM-OCD-B)''),
      (SERVICE_ATOMIC_READ_FILE, ''AtomicReadFile (DM-BR-B)''),
      (SERVICE_ATOMIC_WRITE_FILE, ''AtomicWriteFile (DM-BR-B)''),
      (SERVICE_READ_RANGE, ''ReadRange (AE-EL-I-B)'')]"

definition service_guards :: "u32 \<Rightarrow> guard list" where
  "service_guards di =
     map (\<lambda>(service, name). ([SetServiceEnabled di service True], ''Failed to enable the '' @ name @ '' service.'')) services @
     [([SetServiceEnabled di SERVICE_SUBSCRIBE_COV True], ''Failed to enable the SubscribeCOV (DS-COV-B) service.''),
      ([SetServiceEnabled di SERVICE_SUBSCRIBE_COV_PROPERTY_MULTIPLE True],
       ''Failed to enable the SubscribeCOVPropertyMultiple (DS-COVM-B) service.''),
      ([SetServiceEnabled di SERVICE_WHO_IS True, SetServiceEnabled di SERVICE_I_AM True,
        SetServiceEnabled di SERVICE_WHO_HAS True, SetServiceEnabled di SERVICE_I_HAVE True],
       ''Failed to enable the discovery services (Who-Is/I-Am, Who-Has/I-Have).'')]"

section \<open>The objects\<close>

definition base_object_guards :: "u32 \<Rightarrow> guard list" where
  "base_object_guards di =
     [([AddObject di OBJECT_TYPE_ANALOG_INPUT ANALOG_INPUT_INSTANCE],
       ''Failed to add Analog Input '' @ fmt_u ANALOG_INPUT_INSTANCE @ '' (Bronze).''),
      ([AddObject di OBJECT_TYPE_BINARY_INPUT BINARY_INPUT_INSTANCE],
       ''Failed to add Binary Input '' @ fmt_u BINARY_INPUT_INSTANCE @ '' (Emerald).''),
      ([AddObject di OBJECT_TYPE_MULTI_STATE_INPUT MULTI_STATE_INPUT_INSTANCE],
       ''Failed to add Multi-State Input '' @ fmt_u MULTI_STATE_INPUT_INSTANCE @ '' (Hot Pink).''),
      ([AddObject di OBJECT_TYPE_ANALOG_OUTPUT ANALOG_OUTPUT_INSTANCE],
       ''Failed to add Analog Output '' @ fmt_u ANALOG_OUTPUT_INSTANCE @ '' (Chartreuse).''),
      ([AddObject di OBJECT_TYPE_BINARY_OUTPUT BINARY_OUTPUT_INSTANCE],
       ''Failed to add Binary Output '' @ fmt_u BINARY_OUTPUT_INSTANCE @ '' (Fuchsia).''),
      ([AddObject di OBJECT_TYPE_MULTI_STATE_OUTPUT MULTI_STATE_OUTPUT_INSTANCE],
       ''Failed to add Multi-State Output '' @ fmt_u MULTI_STATE_OUTPUT_INSTANCE @ '' (Indigo).''),
      ([AddNetworkPortObject di NETWORK_PORT_INSTANCE NETWORK_PORT_NETWORK_TYPE_IPV4
          NETWORK_PORT_PROTOCOL_LEVEL_BACNET_APPLICATION 0 NETWORK_NUMBER_QUALITY_UNKNOWN NETWORK_PORT_REFERENCE_PORT_NONE],
       ''Failed to add Network Port 1 (Vermilion).''),
      ([AddEventLogObject di EVENT_LOG_INSTANCE EVENT_LOG_MAX_BUFFER_SIZE], ''Failed to add Event Log 1 (Beige).''),
      ([SetPropertyWritable di OBJECT_TYPE_EVENT_LOG EVENT_LOG_INSTANCE PROPERTY_IDENTIFIER_ENABLE True],
       ''Failed to make Event Log 1 (Beige) Log_Enable writable.'')]"

text \<open>\<open>20.0f\<close>, \<open>75.0f\<close> and \<open>5.0f\<close>.\<close>

definition SCHEDULE_DEFAULT_VALUE :: fp where "SCHEDULE_DEFAULT_VALUE = FNum False 5 2"
definition SCHEDULE_DEMO_VALUE :: fp where "SCHEDULE_DEMO_VALUE = FNum False 75 0"
definition SCHEDULE_EXCEPTION_VALUE :: fp where "SCHEDULE_EXCEPTION_VALUE = FNum False 5 0"

text \<open>\<open>exceptionIndex\<close> is what the stack stored through the pointer it was given.\<close>

definition schedule_guards :: "u32 \<Rightarrow> u32 \<Rightarrow> guard list" where
  "schedule_guards di exceptionIndex =
     [([AddObject di OBJECT_TYPE_SCHEDULE SCHEDULE_INSTANCE], ''Failed to add Schedule 1 (Saffron).''),
      ([AddObject di OBJECT_TYPE_CALENDAR CALENDAR_INSTANCE], ''Failed to add Calendar 1 (Cream).''),
      ([AddScheduleObject di SCHEDULE_INSTANCE], ''Failed to create the stack-held schedule data for Saffron.''),
      ([AddScheduleObjectPropertyReference di SCHEDULE_INSTANCE di OBJECT_TYPE_ANALOG_OUTPUT ANALOG_OUTPUT_INSTANCE
          PROPERTY_IDENTIFIER_PRESENT_VALUE False 0],
       ''Failed to point Saffron at Analog Output 1 (Chartreuse).''),
      ([SetSchedulePriorityForWriting di SCHEDULE_INSTANCE SCHEDULE_WRITE_PRIORITY], ''Failed to set Saffron's Priority_For_Writing.''),
      ([SetScheduleDefault di SCHEDULE_INSTANCE 4 0 SCHEDULE_DEFAULT_VALUE], ''Failed to set Saffron's Schedule_Default.''),
      ([SetScheduleEffectivePeriod di SCHEDULE_INSTANCE [0, 1, 1, 0, 12, 31]], ''Failed to set Saffron's Effective_Period.''),
      ([AddScheduleWeeklyTimeValue di SCHEDULE_INSTANCE 0 [8, 0, 0, 0] 4 0 SCHEDULE_DEMO_VALUE],
       ''Failed to add Saffron's weekly Monday 08:00 transition.''),
      ([AddScheduleExceptionEventWithCalendarEntry di SCHEDULE_INSTANCE 0 [2026, 12, 25, 255] [0, 255, 255, 255] 1],
       ''Failed to add Saffron's 2026-12-25 exception event.''),
      ([AddScheduleExceptionTimeValue di SCHEDULE_INSTANCE exceptionIndex [0, 0, 0, 0] 4 0 SCHEDULE_EXCEPTION_VALUE],
       ''Failed to add Saffron's 2026-12-25 exception time-value.'')]"

definition file_guards :: "u32 \<Rightarrow> guard list" where
  "file_guards di =
     [([AddFileObject di FILE_INSTANCE True True (ucast FILE_ACCESS_METHOD_STREAM)], ''Failed to add File 1 (Ivory).''),
      ([SetPropertyWritable di OBJECT_TYPE_FILE FILE_INSTANCE PROPERTY_IDENTIFIER_ARCHIVE True],
       ''Failed to make Archive writable on File 1 (Ivory).''),
      ([SetBackupAndRestoreEnabled di 5 5 5 120 True], ''could not enable Backup and Restore (DM-BR-B).''),
      ([SetObjectTypeCreatable di OBJECT_TYPE_ANALOG_VALUE True], ''could not mark Analog Value creatable (DM-OCD-B).''),
      ([SetPropertyByObjectTypeWritable di OBJECT_TYPE_ANALOG_VALUE PROPERTY_IDENTIFIER_PRESENT_VALUE True],
       ''could not make a created Analog Value's Present_Value writable.'')]"

definition optional_property_guards :: "u32 \<Rightarrow> guard list" where
  "optional_property_guards di =
     [([SetPropertyEnabled di OBJECT_TYPE_DEVICE di PROPERTY_IDENTIFIER_DESCRIPTION True],
       ''Failed to enable Description on the Device object.''),
      ([SetPropertyEnabled di OBJECT_TYPE_MULTI_STATE_INPUT MULTI_STATE_INPUT_INSTANCE PROPERTY_IDENTIFIER_STATE_TEXT True],
       ''Failed to enable State_Text on Multi-State Input 1 (Hot Pink).''),
      ([SetPropertyEnabled di OBJECT_TYPE_ANALOG_INPUT ANALOG_INPUT_INSTANCE PROPERTY_IDENTIFIER_COV_INCREMENT True],
       ''Failed to enable COV_Increment on Analog Input 1 (Bronze).'')]"

definition commandable_objects :: "(u16 \<times> u32) list" where
  "commandable_objects =
     [(OBJECT_TYPE_ANALOG_OUTPUT, ANALOG_OUTPUT_INSTANCE), (OBJECT_TYPE_BINARY_OUTPUT, BINARY_OUTPUT_INSTANCE),
      (OBJECT_TYPE_MULTI_STATE_OUTPUT, MULTI_STATE_OUTPUT_INSTANCE)]"

definition commandable_guards :: "u32 \<Rightarrow> guard list" where
  "commandable_guards di =
     map (\<lambda>(ty, inst).
       ([SetPropertyEnabled di ty inst PROPERTY_IDENTIFIER_PRIORITY_ARRAY True,
         SetPropertyEnabled di ty inst PROPERTY_IDENTIFIER_RELINQUISH_DEFAULT True,
         SetPropertyWritable di ty inst PROPERTY_IDENTIFIER_PRESENT_VALUE True],
        ''Failed to make object type '' @ fmt_u (ucast ty) @ '' instance '' @ fmt_u inst @ '' commandable.'')) commandable_objects"

definition cov_guards :: "u32 \<Rightarrow> guard list" where
  "cov_guards di =
     [([SetPropertySubscribable di OBJECT_TYPE_ANALOG_INPUT ANALOG_INPUT_INSTANCE PROPERTY_IDENTIFIER_PRESENT_VALUE True,
        SetPropertySubscribable di OBJECT_TYPE_ANALOG_INPUT ANALOG_INPUT_INSTANCE PROPERTY_IDENTIFIER_STATUS_FLAGS True],
       ''Failed to make Analog Input 1 (Bronze) Present_Value/Status_Flags subscribable.''),
      ([SetCOVSettings di 0 28800, SetCOVMultipleSettings di 0],
       ''Failed to configure COV / COV-Multiple subscription settings.'')]"

definition elevator_guards :: "u32 \<Rightarrow> guard list" where
  "elevator_guards di =
     [([AddObject di OBJECT_TYPE_POSITIVE_INTEGER_VALUE MACHINE_ROOM_ID_INSTANCE],
       ''Failed to add Positive Integer Value 1 (Turquoise).''),
      ([AddElevatorGroupObject di ELEVATOR_GROUP_INSTANCE MACHINE_ROOM_ID_INSTANCE ELEVATOR_GROUP_ID True True],
       ''Failed to add Elevator Group 1 (Maroon).''),
      ([AddLiftOrEscalatorObject di OBJECT_TYPE_LIFT LIFT_INSTANCE ELEVATOR_GROUP_INSTANCE ELEVATOR_GROUP_ID LIFT_INSTALLATION_ID],
       ''Failed to add Lift 1 (Mauve).''),
      ([AddLiftOrEscalatorObject di OBJECT_TYPE_ESCALATOR ESCALATOR_INSTANCE NETWORK_PORT_REFERENCE_PORT_NONE ESCALATOR_GROUP_ID
          ESCALATOR_INSTALLATION_ID],
       ''Failed to add Escalator 1 (Mint).''),
      ([SetPropertyEnabled di OBJECT_TYPE_LIFT LIFT_INSTANCE PROPERTY_IDENTIFIER_ASSIGNED_LANDING_CALLS True,
        SetPropertyEnabled di OBJECT_TYPE_LIFT LIFT_INSTANCE PROPERTY_IDENTIFIER_REGISTERED_CAR_CALL True,
        SetPropertyEnabled di OBJECT_TYPE_LIFT LIFT_INSTANCE PROPERTY_IDENTIFIER_LANDING_DOOR_STATUS True],
       ''Failed to enable Lift 1 (Mauve)'' @ CHR 0x27 # ''s optional properties.''),
      ([SetPropertyEnabled di OBJECT_TYPE_ESCALATOR ESCALATOR_INSTANCE PROPERTY_IDENTIFIER_POWER_MODE True,
        SetPropertyEnabled di OBJECT_TYPE_ESCALATOR ESCALATOR_INSTANCE PROPERTY_IDENTIFIER_ESCALATOR_MODE True],
       ''Failed to enable Escalator 1 (Mint)'' @ CHR 0x27 # ''s optional properties.'')]"

section \<open>Alarms\<close>

definition RECIPIENT_USE_BROADCAST :: bool where "RECIPIENT_USE_BROADCAST = True"
definition RECIPIENT_IP :: "u8 list" where "RECIPIENT_IP = [0, 0, 0, 0]"

definition recipientMac :: "config \<Rightarrow> u8 list" where
  "recipientMac cfg =
     (if RECIPIENT_USE_BROADCAST then LocalBroadcastConnString cfg
      else RECIPIENT_IP @ [ucast (drop_bit 8 (g_bacnetIpUdpPort cfg)), ucast (and (g_bacnetIpUdpPort cfg) 0xFF)])"

definition notification_guards :: "config \<Rightarrow> guard list" where
  "notification_guards cfg = (let di = g_deviceInstance cfg in
     [([AddNotificationClassObject di NOTIFICATION_CLASS_INSTANCE NC_PRIORITY_TO_OFFNORMAL NC_PRIORITY_TO_FAULT
          NC_PRIORITY_TO_NORMAL True False True],
       ''Failed to add Notification Class 1 (Crimson).''),
      ([AddRecipientToNotificationClass di NOTIFICATION_CLASS_INSTANCE 0x7F [0, 0, 0, 0] [23, 59, 59, 99]
          RECIPIENT_PROCESS_IDENTIFIER False True True True False 0 True 0 (recipientMac cfg)],
       ''could not seed the Notification Class recipient (Crimson).''),
      ([SetPropertyWritable di OBJECT_TYPE_NOTIFICATION_CLASS NOTIFICATION_CLASS_INSTANCE PROPERTY_IDENTIFIER_RECIPIENT_LIST True],
       ''could not make Notification Class 1 (Crimson) Recipient_List writable.''),
      ([SetAlarmsAndEventsForObjectEnabled di OBJECT_TYPE_LIFT LIFT_INSTANCE NOTIFICATION_CLASS_INSTANCE NOTIFY_TYPE_ALARM
          True False True True True],
       ''could not enable alarms on Lift 1 (Mauve).''),
      ([SetIntrinsicChangeOfStateAlgorithmBool di OBJECT_TYPE_LIFT LIFT_INSTANCE True 0 False 0 True],
       ''could not arm the ChangeOfState algorithm on Mauve's Passenger_Alarm.'')])"

definition setup_guards :: "config \<Rightarrow> u32 \<Rightarrow> guard list" where
  "setup_guards cfg exceptionIndex = (let di = g_deviceInstance cfg in
     device_guards di @ service_guards di @ base_object_guards di @ schedule_guards di exceptionIndex @ file_guards di @
     optional_property_guards di @ commandable_guards di @ cov_guards di @ elevator_guards di @ notification_guards cfg)"

section \<open>Running the calls\<close>

text \<open>\<open>accepts earlier c\<close> is the stack's answer to \<open>c\<close> after the calls \<open>earlier\<close>.\<close>

fun run_calls :: "(setup_call list \<Rightarrow> setup_call \<Rightarrow> bool) \<Rightarrow> setup_call list \<Rightarrow> setup_call list \<Rightarrow> bool \<times> setup_call list" where
  "run_calls accepts [] earlier = (True, earlier)"
| "run_calls accepts (c # cs) earlier =
     (if accepts earlier c then run_calls accepts cs (earlier @ [c]) else (False, earlier @ [c]))"

fun run_guards :: "(setup_call list \<Rightarrow> setup_call \<Rightarrow> bool) \<Rightarrow> guard list \<Rightarrow> setup_call list \<Rightarrow> string option \<times> setup_call list" where
  "run_guards accepts [] earlier = (None, earlier)"
| "run_guards accepts ((cs, msg) # gs) earlier =
     (case run_calls accepts cs earlier of
        (True, made) \<Rightarrow> run_guards accepts gs made
      | (False, made) \<Rightarrow> (Some (''Error: '' @ msg @ [NEWLINE]), made))"

section \<open>What the calls presuppose\<close>

text \<open>The object a call adds, and the objects it names as existing.\<close>

fun adds :: "setup_call \<Rightarrow> (u16 \<times> u32) list" where
  "adds (AddDevice d) = [(OBJECT_TYPE_DEVICE, d)]"
| "adds (AddObject d ot oi) = [(ot, oi)]"
| "adds (AddNetworkPortObject d oi ty level net q ref) = [(OBJECT_TYPE_NETWORK_PORT, oi)]"
| "adds (AddEventLogObject d oi n) = [(OBJECT_TYPE_EVENT_LOG, oi)]"
| "adds (AddFileObject d oi w c m) = [(OBJECT_TYPE_FILE, oi)]"
| "adds (AddElevatorGroupObject d oi room g b1 b2) = [(OBJECT_TYPE_ELEVATOR_GROUP, oi)]"
| "adds (AddLiftOrEscalatorObject d ot oi grp g inst) = [(ot, oi)]"
| "adds (AddNotificationClassObject d oi p1 p2 p3 a1 a2 a3) = [(OBJECT_TYPE_NOTIFICATION_CLASS, oi)]"
| "adds _ = []"

fun refers :: "setup_call \<Rightarrow> (u16 \<times> u32) list" where
  "refers (RegisterCallback c) = []"
| "refers (AddDevice d) = []"
| "refers (SetServiceEnabled d s b) = [(OBJECT_TYPE_DEVICE, d)]"
| "refers (AddObject d ot oi) = [(OBJECT_TYPE_DEVICE, d)]"
| "refers (AddNetworkPortObject d oi ty level net q ref) =
     (OBJECT_TYPE_DEVICE, d) # (if ref = NETWORK_PORT_REFERENCE_PORT_NONE then [] else [(OBJECT_TYPE_NETWORK_PORT, ref)])"
| "refers (AddEventLogObject d oi n) = [(OBJECT_TYPE_DEVICE, d)]"
| "refers (AddScheduleObject d oi) = [(OBJECT_TYPE_DEVICE, d), (OBJECT_TYPE_SCHEDULE, oi)]"
| "refers (AddScheduleObjectPropertyReference d oi td tt ti p b i) =
     [(OBJECT_TYPE_DEVICE, d), (OBJECT_TYPE_SCHEDULE, oi), (OBJECT_TYPE_DEVICE, td), (tt, ti)]"
| "refers (SetSchedulePriorityForWriting d oi p) = [(OBJECT_TYPE_DEVICE, d), (OBJECT_TYPE_SCHEDULE, oi)]"
| "refers (SetScheduleDefault d oi ty u v) = [(OBJECT_TYPE_DEVICE, d), (OBJECT_TYPE_SCHEDULE, oi)]"
| "refers (SetScheduleEffectivePeriod d oi ds) = [(OBJECT_TYPE_DEVICE, d), (OBJECT_TYPE_SCHEDULE, oi)]"
| "refers (AddScheduleWeeklyTimeValue d oi k tim ty u v) = [(OBJECT_TYPE_DEVICE, d), (OBJECT_TYPE_SCHEDULE, oi)]"
| "refers (AddScheduleExceptionEventWithCalendarEntry d oi pt d1 d2 pr) = [(OBJECT_TYPE_DEVICE, d), (OBJECT_TYPE_SCHEDULE, oi)]"
| "refers (AddScheduleExceptionTimeValue d oi ix tim ty u v) = [(OBJECT_TYPE_DEVICE, d), (OBJECT_TYPE_SCHEDULE, oi)]"
| "refers (AddFileObject d oi w c m) = [(OBJECT_TYPE_DEVICE, d)]"
| "refers (SetBackupAndRestoreEnabled d p1 p2 p3 p4 b) = [(OBJECT_TYPE_DEVICE, d)]"
| "refers (SetObjectTypeCreatable d ot b) = [(OBJECT_TYPE_DEVICE, d)]"
| "refers (SetPropertyByObjectTypeWritable d ot p b) = [(OBJECT_TYPE_DEVICE, d)]"
| "refers (SetPropertyEnabled d ot oi p b) = [(OBJECT_TYPE_DEVICE, d), (ot, oi)]"
| "refers (SetPropertyWritable d ot oi p b) = [(OBJECT_TYPE_DEVICE, d), (ot, oi)]"
| "refers (SetPropertySubscribable d ot oi p b) = [(OBJECT_TYPE_DEVICE, d), (ot, oi)]"
| "refers (SetCOVSettings d n s) = [(OBJECT_TYPE_DEVICE, d)]"
| "refers (SetCOVMultipleSettings d n) = [(OBJECT_TYPE_DEVICE, d)]"
| "refers (AddElevatorGroupObject d oi room g b1 b2) =
     [(OBJECT_TYPE_DEVICE, d), (OBJECT_TYPE_POSITIVE_INTEGER_VALUE, room)]"
| "refers (AddLiftOrEscalatorObject d ot oi grp g inst) =
     (OBJECT_TYPE_DEVICE, d) # (if grp = NETWORK_PORT_REFERENCE_PORT_NONE then [] else [(OBJECT_TYPE_ELEVATOR_GROUP, grp)])"
| "refers (AddNotificationClassObject d oi p1 p2 p3 a1 a2 a3) = [(OBJECT_TYPE_DEVICE, d)]"
| "refers (AddRecipientToNotificationClass d nc days from until pid conf t1 t2 t3 ud dd ua net mac) =
     [(OBJECT_TYPE_DEVICE, d), (OBJECT_TYPE_NOTIFICATION_CLASS, nc)]"
| "refers (SetAlarmsAndEventsForObjectEnabled d ot oi nc ty b1 b2 b3 b4 b5) =
     [(OBJECT_TYPE_DEVICE, d), (ot, oi), (OBJECT_TYPE_NOTIFICATION_CLASS, nc)]"
| "refers (SetIntrinsicChangeOfStateAlgorithmBool d ot oi v t b1 n b2) = [(OBJECT_TYPE_DEVICE, d), (ot, oi)]"

definition call_ok :: "(u16 \<times> u32) list \<Rightarrow> setup_call \<Rightarrow> bool" where
  "call_ok known c \<longleftrightarrow> list_all (\<lambda>x. x \<in> set known) (refers c) \<and> list_all (\<lambda>x. x \<notin> set known) (adds c)"

fun well_ordered :: "(u16 \<times> u32) list \<Rightarrow> setup_call list \<Rightarrow> bool" where
  "well_ordered known [] \<longleftrightarrow> True"
| "well_ordered known (c # cs) \<longleftrightarrow> call_ok known c \<and> well_ordered (known @ adds c) cs"

definition objects_of :: "setup_call list \<Rightarrow> (u16 \<times> u32) list" where
  "objects_of cs = concat (map adds cs)"

text \<open>A stack that refuses every call on an object that does not exist and every second addition of one.\<close>

definition strict_stack :: "setup_call list \<Rightarrow> setup_call \<Rightarrow> bool" where
  "strict_stack earlier c = call_ok (objects_of earlier) c"

definition setup_calls :: "config \<Rightarrow> u32 \<Rightarrow> setup_call list" where
  "setup_calls cfg exceptionIndex = concat (map fst (setup_guards cfg exceptionIndex))"

definition registrations :: "setup_call list" where
  "registrations = map RegisterCallback registered_callbacks"

lemmas guard_defs = device_guards_def service_guards_def services_def base_object_guards_def schedule_guards_def file_guards_def
  optional_property_guards_def commandable_objects_def commandable_guards_def cov_guards_def elevator_guards_def notification_guards_def

lemma setup_calls_ordered: "well_ordered [] (setup_calls cfg idx)"
  by (simp add: setup_calls_def setup_guards_def guard_defs Let_def call_ok_def)

lemma setup_objects:
  "objects_of (setup_calls cfg idx) =
   (OBJECT_TYPE_DEVICE, g_deviceInstance cfg) # map (\<lambda>ot. (ot, 1))
     [OBJECT_TYPE_ANALOG_INPUT, OBJECT_TYPE_BINARY_INPUT, OBJECT_TYPE_MULTI_STATE_INPUT, OBJECT_TYPE_ANALOG_OUTPUT,
      OBJECT_TYPE_BINARY_OUTPUT, OBJECT_TYPE_MULTI_STATE_OUTPUT, OBJECT_TYPE_NETWORK_PORT, OBJECT_TYPE_EVENT_LOG,
      OBJECT_TYPE_SCHEDULE, OBJECT_TYPE_CALENDAR, OBJECT_TYPE_FILE, OBJECT_TYPE_POSITIVE_INTEGER_VALUE,
      OBJECT_TYPE_ELEVATOR_GROUP, OBJECT_TYPE_LIFT, OBJECT_TYPE_ESCALATOR, OBJECT_TYPE_NOTIFICATION_CLASS]"
  by (simp add: setup_calls_def setup_guards_def guard_defs Let_def objects_of_def)

lemma well_ordered_append:
  "well_ordered known (xs @ ys) \<longleftrightarrow> well_ordered known xs \<and> well_ordered (known @ objects_of xs) ys"
  by (induction xs arbitrary: known) (auto simp: objects_of_def)

lemma objects_of_append: "objects_of (xs @ ys) = objects_of xs @ objects_of ys"
  by (simp add: objects_of_def)

lemma objects_of_registrations: "objects_of (map RegisterCallback rs) = []"
  by (induction rs) (auto simp: objects_of_def)

lemma well_ordered_registrations: "well_ordered known (map RegisterCallback rs)"
  by (induction rs arbitrary: known) (auto simp: call_ok_def)

text \<open>A stack that makes the calls' requirements its own accepts exactly the sequences in order.\<close>

lemma run_calls_strict: "well_ordered (objects_of earlier) cs \<Longrightarrow> run_calls strict_stack cs earlier = (True, earlier @ cs)"
  by (induction cs arbitrary: earlier) (auto simp: strict_stack_def objects_of_def)

section \<open>Stopping at the first refusal\<close>

lemma run_calls_append:
  "run_calls acc (xs @ ys) e = (case run_calls acc xs e of (True, made) \<Rightarrow> run_calls acc ys made | (False, made) \<Rightarrow> (False, made))"
  by (induction xs arbitrary: e) auto

lemma run_calls_cases:
  "(\<forall>k < length cs. acc (e @ take k cs) (cs ! k)) \<and> run_calls acc cs e = (True, e @ cs) \<or>
   (\<exists>k < length cs. (\<forall>j < k. acc (e @ take j cs) (cs ! j)) \<and> \<not> acc (e @ take k cs) (cs ! k) \<and>
      run_calls acc cs e = (False, e @ take (Suc k) cs))"
proof (induction cs arbitrary: e)
  case (Cons c cs)
  show ?case
  proof (cases "acc e c")
    case True
    have shift: "(\<forall>j < Suc k. acc (e @ take j (c # cs)) ((c # cs) ! j)) \<longleftrightarrow> (\<forall>j < k. acc ((e @ [c]) @ take j cs) (cs ! j))" for k
      using True by (auto simp: less_Suc_eq_0_disj)
    from Cons.IH [of "e @ [c]"] show ?thesis
    proof (elim disjE exE conjE)
      assume "\<forall>k < length cs. acc ((e @ [c]) @ take k cs) (cs ! k)" "run_calls acc cs (e @ [c]) = (True, (e @ [c]) @ cs)"
      then show ?thesis using True shift [of "length cs"] by simp
    next
      fix k assume k: "k < length cs" "\<forall>j < k. acc ((e @ [c]) @ take j cs) (cs ! j)" "\<not> acc ((e @ [c]) @ take k cs) (cs ! k)"
        "run_calls acc cs (e @ [c]) = (False, (e @ [c]) @ take (Suc k) cs)"
      then show ?thesis using True shift [of k] by (intro disjI2 exI [of _ "Suc k"]) simp
    qed
  qed (intro disjI2 exI [of _ 0], simp)
qed simp

text \<open>The message of each call, and the whole sequence of guards as one sequence of calls.\<close>

definition error_line :: "string \<Rightarrow> string" where
  "error_line msg = ''Error: '' @ msg @ [NEWLINE]"

definition messages :: "guard list \<Rightarrow> string list" where
  "messages gs = concat (map (\<lambda>(cs, msg). replicate (length cs) msg) gs)"

lemma run_calls_made: "run_calls acc cs e = (ok, made) \<Longrightarrow> length e \<le> length made \<and> length made \<le> length e + length cs \<and> (\<not> ok \<longrightarrow> length e < length made)"
  by (induction cs arbitrary: e) (fastforce split: if_splits)+

lemma run_guards_flat:
  "run_guards acc gs e = (case run_calls acc (concat (map fst gs)) e of
     (True, made) \<Rightarrow> (None, made)
   | (False, made) \<Rightarrow> (Some (error_line (messages gs ! (length made - Suc (length e)))), made))"
proof (induction acc gs e rule: run_guards.induct)
  case (2 acc cs msg gs e)
  obtain ok made where r: "run_calls acc cs e = (ok, made)" by fastforce
  show ?case
  proof (cases ok)
    case True
    have made: "made = e @ cs" using run_calls_cases [of cs acc e] r True by auto
    obtain ok' made' where r': "run_calls acc (concat (map fst gs)) made = (ok', made')" by fastforce
    have "messages ((cs, msg) # gs) ! (length made' - Suc (length e)) = messages gs ! (length made' - Suc (length made))" if "\<not> ok'"
    proof -
      have "\<not> length made' - Suc (length e) < length cs" "length made' - Suc (length e) - length cs = length made' - Suc (length made)"
        using run_calls_made [OF r'] that made by auto
      then show ?thesis by (simp add: messages_def nth_append)
    qed
    with r r' True 2 made show ?thesis by (cases ok') (simp_all add: run_calls_append)
  next
    case False
    have "length made - Suc (length e) < length cs" using run_calls_made [OF r] False by linarith
    with r False show ?thesis by (simp add: run_calls_append messages_def nth_append error_line_def)
  qed
qed simp

end
