(* ===== verification/Frame_Summary.thy ===== *)
theory Frame_Summary
  imports Name_Tables Frame_Decode C_Text
begin

unbundle bit_operations_syntax

text \<open>
  The text of the frame log of \<open>common/CASExampleHelper.cpp\<close>: the one-line summary
  (\<open>SummarizeBacnetFrame\<close> with \<open>AppendHex\<close> and \<open>AppendRouteSuffix\<close>), the XML dump (\<open>PrintFrameAsXml\<close>) and
  the choice between them (\<open>LogBacnetFrame\<close>). A character buffer is its C string; every \<open>snprintf\<close> goes
  through \<open>snprintf_at\<close>, which cuts the text to the room that is left.
\<close>

section \<open>Formatting\<close>

text \<open>\<open>snprintf(buf + strlen(buf), cap - strlen(buf), text)\<close> on the string in a buffer of \<open>cap\<close> octets.\<close>

definition snprintf_at :: "nat \<Rightarrow> string \<Rightarrow> string \<Rightarrow> string" where
  "snprintf_at cap buf s = buf @ take (cap - length buf - 1) s"

definition hex_digit :: "nat \<Rightarrow> char" where
  "hex_digit d = (if d < 10 then char_of (48 + d) else char_of (55 + d))"

text \<open>\<open>%02X\<close> of an octet, and \<open>%u\<close> of the narrower unsigned types.\<close>

definition fmt_02X :: "u8 \<Rightarrow> string" where
  "fmt_02X b = [hex_digit (unat b div 16), hex_digit (unat b mod 16)]"

definition fmt_u8 :: "u8 \<Rightarrow> string" where "fmt_u8 b = fmt_u (ucast b)"
definition fmt_u16 :: "u16 \<Rightarrow> string" where "fmt_u16 b = fmt_u (ucast b)"

fun AppendHex :: "nat \<Rightarrow> string \<Rightarrow> u8 list \<Rightarrow> string" where
  "AppendHex bufLen buf [] = buf"
| "AppendHex bufLen buf (x # xs) =
     (if length buf + 2 < bufLen then AppendHex bufLen (snprintf_at bufLen buf (fmt_02X x)) xs else buf)"

text \<open>The octets \<open>p\<close> points at in the frame.\<close>

definition octets_at :: "u8 list \<Rightarrow> nat option \<Rightarrow> u8 \<Rightarrow> u8 list" where
  "octets_at frame p len = (case p of None \<Rightarrow> [] | Some i \<Rightarrow> take (unat len) (drop i frame))"

definition AppendRouteSuffix :: "nat \<Rightarrow> string \<Rightarrow> u8 list \<Rightarrow> decoded_frame \<Rightarrow> string" where
  "AppendRouteSuffix bufLen buf frame d =
     (if \<not> hasDest d then buf
      else (let buf = snprintf_at bufLen buf ('' DNET='' @ fmt_u16 (dnet d))
            in if 0 < dadrLength d \<and> dadr d \<noteq> None
               then AppendHex bufLen (snprintf_at bufLen buf '' DADR='') (octets_at frame (dadr d) (dadrLength d))
               else buf))"

section \<open>The one-line summary\<close>

text \<open>\<open>choice_text\<close> is the shape the PDU types share: the bare kind, the kind and a name, or the kind and a number.\<close>

definition choice_text :: "string \<Rightarrow> string \<Rightarrow> bool \<Rightarrow> (u8 \<Rightarrow> string option) \<Rightarrow> u8 \<Rightarrow> string" where
  "choice_text kind label present name choice =
     (if \<not> present then kind
      else (case name choice of
              Some n \<Rightarrow> kind @ '': '' @ n
            | None \<Rightarrow> kind @ '': '' @ label @ ''='' @ fmt_u8 choice))"

definition pdu_text :: "decoded_frame \<Rightarrow> string" where
  "pdu_text d =
     (let service = \<lambda>kind name. choice_text kind ''service'' (hasServiceChoice d) name (serviceChoice d);
          failed = \<lambda>kind name. choice_text kind ''reason'' (hasReason d) name (reason d)
      in if pduType d = 0 then service ''ConfirmedRequest'' ConfirmedServiceName
         else if pduType d = 1 then service ''Unconfirmed'' UnconfirmedServiceName
         else if pduType d = 2 then service ''SimpleACK'' ConfirmedServiceName
         else if pduType d = 3 then service ''ComplexACK'' ConfirmedServiceName
         else if pduType d = 4 then ''SegmentACK''
         else if pduType d = 5 then service ''Error'' ConfirmedServiceName
         else if pduType d = 6 then failed ''Reject'' RejectReasonName
         else if pduType d = 7 then failed ''Abort'' AbortReasonName
         else ''?'')"

definition object_text :: "decoded_frame \<Rightarrow> string" where
  "object_text d =
     (let idx = (if hasArrayIndex d then ''['' @ fmt_u (arrayIndex d) @ '']'' else '''')
      in case (ObjectTypeName (objectType d), PropertyName (propertyId d)) of
           (Some typeName, Some propName) \<Rightarrow> '' '' @ typeName @ '' '' @ fmt_u (objectInstance d) @ ''.'' @ propName @ idx
         | _ \<Rightarrow> '' object-type='' @ fmt_u16 (objectType d) @ '' '' @ fmt_u (objectInstance d) @ ''.property='' @ fmt_u (propertyId d) @ idx)"

definition summary_body :: "decoded_frame \<Rightarrow> string" where
  "summary_body d =
     (let body = snprintf_at 128 '''' (pdu_text d)
      in if hasObjectProperty d then snprintf_at 128 body (object_text d) else body)"

text \<open>\<open>None\<close> is a read outside the frame. With \<open>outSummaryLength\<close> 0 nothing is written.\<close>

definition SummarizeBacnetFrame :: "u8 list \<Rightarrow> nat \<Rightarrow> string option" where
  "SummarizeBacnetFrame frame outSummaryLength =
     (if outSummaryLength = 0 then Some ''''
      else do {
        d \<leftarrow> DecodeBacnetFrame frame;
        Some (if \<not> bacnetIp d then snprintf_at outSummaryLength '''' ''?''
              else if \<not> hasNpdu d then snprintf_at outSummaryLength '''' (''BVLC function=0x'' @ fmt_02X (bvlcFunction d))
              else if isNetworkMessage d then
                AppendRouteSuffix outSummaryLength
                  (snprintf_at outSummaryLength ''''
                     (case NetworkMessageName (networkMessageType d) of
                        Some name \<Rightarrow> ''Network-Layer-Message: '' @ name
                      | None \<Rightarrow> ''Network-Layer-Message: type='' @ fmt_u8 (networkMessageType d))) frame d
              else if \<not> hasApdu d then snprintf_at outSummaryLength '''' ''?''
              else AppendRouteSuffix outSummaryLength (snprintf_at outSummaryLength '''' (summary_body d)) frame d) })"

section \<open>The XML dump\<close>

definition NL :: string where "NL = [NEWLINE]"

text \<open>\<open>quoted name value\<close> is \<open>name="value"\<close> with a space before it.\<close>

definition quoted :: "string \<Rightarrow> string \<Rightarrow> string" where
  "quoted name v = '' '' @ name @ [CHR ''='', CHR 0x22] @ v @ [CHR 0x22]"

definition hex_text :: "u8 list \<Rightarrow> string" where
  "hex_text xs = concat (map fmt_02X xs)"

definition named :: "string \<Rightarrow> string \<Rightarrow> string \<Rightarrow> string option \<Rightarrow> string" where
  "named label nameLabel number name =
     quoted label number @ (case name of Some n \<Rightarrow> quoted nameLabel n | None \<Rightarrow> '''')"

definition xml_address :: "string \<Rightarrow> u16 \<Rightarrow> u8 list \<Rightarrow> nat option \<Rightarrow> u8 \<Rightarrow> string" where
  "xml_address element net frame p len =
     ''      <'' @ element @ quoted ''net'' (fmt_u16 net) @
     (if 0 < len \<and> p \<noteq> None then quoted ''mac'' (hex_text (octets_at frame p len)) else '''') @ ''/>'' @ NL"

definition PDU_TYPE_NAMES :: "string list" where
  "PDU_TYPE_NAMES = [''ConfirmedRequest'', ''UnconfirmedRequest'', ''SimpleACK'', ''ComplexACK'', ''SegmentACK'', ''Error'', ''Reject'', ''Abort'']"

definition xml_apdu :: "decoded_frame \<Rightarrow> string" where
  "xml_apdu d =
     ''      <APDU'' @ quoted ''type'' (if pduType d < 8 then PDU_TYPE_NAMES ! unat (pduType d) else ''Unknown'') @
     (if hasInvokeId d then quoted ''invokeId'' (fmt_u8 (invokeId d)) else '''') @
     (if hasServiceChoice d
      then named ''service'' ''serviceName'' (fmt_u8 (serviceChoice d))
             (if pduType d = 1 then UnconfirmedServiceName (serviceChoice d) else ConfirmedServiceName (serviceChoice d))
      else '''') @
     (if hasReason d
      then named ''reason'' ''reasonName'' (fmt_u8 (reason d)) (if pduType d = 6 then RejectReasonName (reason d) else AbortReasonName (reason d))
      else '''') @
     (if \<not> hasObjectProperty d then ''/>'' @ NL
      else ''>'' @ NL @
        ''        <Object'' @ named ''type'' ''typeName'' (fmt_u16 (objectType d)) (ObjectTypeName (objectType d)) @
          quoted ''instance'' (fmt_u (objectInstance d)) @ ''/>'' @ NL @
        ''        <Property'' @ named ''id'' ''name'' (fmt_u (propertyId d)) (PropertyName (propertyId d)) @ ''/>'' @ NL @
        (if hasArrayIndex d then ''        <ArrayIndex'' @ quoted ''value'' (fmt_u (arrayIndex d)) @ ''/>'' @ NL else '''') @
        ''      </APDU>'' @ NL)"

definition PrintFrameAsXml :: "u8 list \<Rightarrow> string option" where
  "PrintFrameAsXml frame = do {
     d \<leftarrow> DecodeBacnetFrame frame;
     Some (NL @ ''  <BACnetMessage'' @ quoted ''bytes'' (fmt_u (of_nat (length frame))) @ ''>'' @ NL @
       (if \<not> bacnetIp d then ''    <Error>not a recognizable BACnet/IP (BVLC) frame</Error>'' @ NL
        else
          ''    <BVLC'' @ quoted ''function'' (''0x'' @ fmt_02X (bvlcFunction d)) @ ''/>'' @ NL @
          (if hasNpdu d then
             ''    <NPDU'' @ quoted ''version'' (fmt_u8 (npduVersion d)) @ quoted ''control'' (''0x'' @ fmt_02X (npduControl d)) @ ''>'' @ NL @
             (if hasDest d then xml_address ''Destination'' (dnet d) frame (dadr d) (dadrLength d) else '''') @
             (if hasSrc d then xml_address ''Source'' (snet d) frame (sadr d) (sadrLength d) else '''') @
             (if isNetworkMessage d then
                ''      <NetworkLayerMessage'' @ named ''type'' ''name'' (fmt_u8 (networkMessageType d)) (NetworkMessageName (networkMessageType d)) @
                ''/>'' @ NL
              else if hasApdu d then xml_apdu d else '''') @
             ''    </NPDU>'' @ NL
           else '''') @
          ''    <RawHex>'' @ hex_text frame @ ''</RawHex>'' @ NL) @
       ''  </BACnetMessage>'' @ NL) }"

text \<open>\<open>LogBacnetFrame\<close> with \<open>g_xmlFrameLoggingEnabled\<close> as its argument: the text printed.\<close>

definition LogBacnetFrame :: "bool \<Rightarrow> u8 list \<Rightarrow> string option" where
  "LogBacnetFrame xml frame =
     (if xml then PrintFrameAsXml frame
      else do { summary \<leftarrow> SummarizeBacnetFrame frame 192; Some ('' - '' @ summary @ NL) })"

section \<open>Lengths\<close>

lemma snprintf_at_length: "length buf < cap \<Longrightarrow> length (snprintf_at cap buf s) < cap"
  by (simp add: snprintf_at_def)

lemma snprintf_at_full: "length buf + length s < cap \<Longrightarrow> snprintf_at cap buf s = buf @ s"
  by (simp add: snprintf_at_def)

lemma AppendHex_length: "length buf < cap \<Longrightarrow> length (AppendHex cap buf xs) < cap"
  by (induction cap buf xs rule: AppendHex.induct) (auto simp: snprintf_at_length)

lemma AppendHex_full: "length buf + 2 * length xs < cap \<Longrightarrow> AppendHex cap buf xs = buf @ hex_text xs"
  by (induction cap buf xs rule: AppendHex.induct) (auto simp: snprintf_at_full fmt_02X_def hex_text_def)

lemma AppendRouteSuffix_length: "length buf < cap \<Longrightarrow> length (AppendRouteSuffix cap buf frame d) < cap"
  by (simp add: AppendRouteSuffix_def Let_def AppendHex_length snprintf_at_length)

lemma fmt_u_length: "length (fmt_u w) \<le> 10"
proof -
  have "unat w < 2 ^ 32" using unsigned_less [of w] by simp
  then have "unat w < 10 ^ 10" by simp
  then show ?thesis by (simp add: fmt_u_def length_show_nat)
qed

lemma fmt_u16_length: "length (fmt_u16 w) \<le> 5"
proof -
  have "unat w < 2 ^ 16" using unsigned_less [of w] by simp
  then have "unat w < 10 ^ 5" by simp
  then show ?thesis by (simp add: fmt_u16_def fmt_u_def length_show_nat unat_ucast_up)
qed

lemma fmt_u8_length: "length (fmt_u8 w) \<le> 3"
proof -
  have "unat w < 2 ^ 8" using unsigned_less [of w] by simp
  then have "unat w < 10 ^ 3" by simp
  then show ?thesis by (simp add: fmt_u8_def fmt_u_def length_show_nat unat_ucast_up)
qed

lemma name_at_length: "list_all (\<lambda>n. length n \<le> k) names \<Longrightarrow> name_at names c = Some n \<Longrightarrow> length n \<le> k"
  by (auto simp: name_at_def list_all_length split: if_splits)

lemma service_name_lengths:
  "ConfirmedServiceName c = Some n \<Longrightarrow> length n \<le> 34" "UnconfirmedServiceName c = Some n \<Longrightarrow> length n \<le> 34"
  "RejectReasonName c = Some n \<Longrightarrow> length n \<le> 34" "AbortReasonName c = Some n \<Longrightarrow> length n \<le> 34"
  "NetworkMessageName c = Some n \<Longrightarrow> length n \<le> 34"
  unfolding ConfirmedServiceName_def UnconfirmedServiceName_def RejectReasonName_def AbortReasonName_def NetworkMessageName_def
  by (erule name_at_length [rotated], simp)+ (auto split: if_splits)

definition short_names :: "nat \<Rightarrow> (u32 \<times> string) list \<Rightarrow> bool" where
  "short_names k table \<longleftrightarrow> list_all (\<lambda>e. length (snd e) \<le> k) table"

lemma table_lengths:
  "short_names 22 OBJECT_TYPE_NAMES" "short_names 35 PROPERTY_NAMES_1" "short_names 35 PROPERTY_NAMES_2" "short_names 35 PROPERTY_NAMES_3"
  "short_names 35 PROPERTY_NAMES_4"
  by code_simp+

lemma short_names_lookup: "short_names k table \<Longrightarrow> map_of table i = Some n \<Longrightarrow> length n \<le> k"
  by (auto simp: short_names_def list_all_iff dest!: map_of_SomeD)

lemma ObjectTypeName_length: "ObjectTypeName t = Some n \<Longrightarrow> length n \<le> 22"
  using short_names_lookup [OF table_lengths(1)] by (simp add: ObjectTypeName_def object_types.LookUpIdName_map_of)

lemma PropertyName_length: "PropertyName p = Some n \<Longrightarrow> length n \<le> 35"
proof -
  have "short_names 35 PROPERTY_NAMES" using table_lengths by (simp add: PROPERTY_NAMES_def short_names_def)
  then show "PropertyName p = Some n \<Longrightarrow> length n \<le> 35"
    using short_names_lookup by (simp add: PropertyName_def properties.LookUpIdName_map_of)
qed

lemma choice_text_length:
  assumes "\<And>n. name c = Some n \<Longrightarrow> length n \<le> 34" "length label \<le> 7" "length kind \<le> 16"
  shows "length (choice_text kind label present name c) \<le> 52"
  using assms fmt_u8_length [of c] by (auto simp: choice_text_def split: option.splits dest: assms(1))

lemma pdu_text_length: "length (pdu_text d) \<le> 52"
  unfolding pdu_text_def Let_def by (auto intro!: choice_text_length dest: service_name_lengths)

lemma object_text_length: "length (object_text d) \<le> 82"
  using fmt_u_length [of "objectInstance d"] fmt_u_length [of "arrayIndex d"] fmt_u_length [of "propertyId d"] fmt_u16_length [of "objectType d"]
    ObjectTypeName_length [of "objectType d"] PropertyName_length [of "propertyId d"]
  by (auto simp: object_text_def Let_def split: option.splits)

section \<open>The object comes with its service\<close>

definition service_view :: "decoded_frame \<Rightarrow> bool \<times> u8 \<times> u8" where
  "service_view d = (hasServiceChoice d, serviceChoice d, pduType d)"

lemma service_view_upd [simp]:
  "service_view (d\<lparr>hasObjectProperty := b\<rparr>) = service_view d" "service_view (d\<lparr>objectType := t\<rparr>) = service_view d"
  "service_view (d\<lparr>objectInstance := i\<rparr>) = service_view d" "service_view (d\<lparr>propertyId := i\<rparr>) = service_view d"
  "service_view (d\<lparr>hasArrayIndex := b\<rparr>) = service_view d" "service_view (d\<lparr>arrayIndex := i\<rparr>) = service_view d"
  by (simp_all add: service_view_def)

lemma DecodeObjectAndProperty_service: "keeps service_view (DecodeObjectAndProperty frame offset out) out"
proof -
  have idx: "keeps service_view (decode_array_index frame pos o') o'" for pos o'
    unfolding decode_array_index_def by (intro yields_intros) simp_all
  show ?thesis
    unfolding DecodeObjectAndProperty_def Let_def by (intro yields_intros keeps_trans [OF idx]) simp_all
qed

text \<open>An object is only decoded from a ReadProperty or WriteProperty request or a ReadProperty answer.\<close>

definition object_served :: "decoded_frame \<Rightarrow> bool" where
  "object_served d \<longleftrightarrow> hasObjectProperty d \<longrightarrow> hasServiceChoice d \<and> serviceChoice d \<in> {12, 15} \<and> pduType d \<in> {0, 3}"

lemma object_served_decode:
  "hasServiceChoice out \<Longrightarrow> serviceChoice out \<in> {12, 15} \<Longrightarrow> pduType out \<in> {0, 3} \<Longrightarrow> yields object_served (DecodeObjectAndProperty frame offset out)"
  by (rule yields_mono [OF DecodeObjectAndProperty_service]) (auto simp: object_served_def service_view_def)

lemma decode_apdu_object:
  assumes "\<not> hasObjectProperty out"
  shows "yields object_served (decode_apdu frame offset out)"
  unfolding decode_apdu_def Let_def
  by (intro yields_intros object_served_decode) (use assms in \<open>auto simp: object_served_def\<close>)

lemma decode_payload_object: "\<not> hasObjectProperty out \<Longrightarrow> yields object_served (decode_payload frame offset out)"
  unfolding decode_payload_def Let_def by (intro yields_intros decode_apdu_object) (simp_all add: object_served_def)

lemma decode_source_object: "\<not> hasObjectProperty out \<Longrightarrow> yields object_served (decode_source frame offset out)"
  unfolding decode_source_def by (intro yields_intros yields_specifier decode_payload_object) (simp_all add: object_served_def)

lemma decode_destination_object: "\<not> hasObjectProperty out \<Longrightarrow> yields object_served (decode_destination frame offset out)"
  unfolding decode_destination_def by (intro yields_intros yields_specifier decode_source_object) (simp_all add: object_served_def)

lemma DecodeBacnetFrame_object: "DecodeBacnetFrame frame = Some d \<Longrightarrow> object_served d"
proof -
  have "\<not> hasObjectProperty (npdu_start frame)" by (simp add: npdu_start_def DecodedFrame_init_def Let_def)
  then show "DecodeBacnetFrame frame = Some d \<Longrightarrow> object_served d"
    using yieldsD [OF decode_destination_object] unfolding DecodeBacnetFrame_cases
    by (auto simp: object_served_def DecodedFrame_init_def split: if_splits)
qed

lemma served_text_length:
  assumes "object_served d" "hasObjectProperty d"
  shows "length (pdu_text d) \<le> 31"
proof -
  have "ConfirmedServiceName 12 = Some ''ReadProperty''" "ConfirmedServiceName 15 = Some ''WriteProperty''"
    by (simp_all add: ConfirmedServiceName_def name_at_def)
  then show ?thesis using assms by (auto simp: object_served_def pdu_text_def choice_text_def Let_def)
qed

section \<open>The summary without its buffers\<close>

text \<open>What the summary says when no buffer cuts it.\<close>

definition route_text :: "u8 list \<Rightarrow> decoded_frame \<Rightarrow> string" where
  "route_text frame d =
     (if \<not> hasDest d then ''''
      else '' DNET='' @ fmt_u16 (dnet d) @
        (if 0 < dadrLength d \<and> dadr d \<noteq> None then '' DADR='' @ hex_text (octets_at frame (dadr d) (dadrLength d)) else ''''))"

definition summary_text :: "u8 list \<Rightarrow> decoded_frame \<Rightarrow> string" where
  "summary_text frame d =
     (if \<not> bacnetIp d then ''?''
      else if \<not> hasNpdu d then ''BVLC function=0x'' @ fmt_02X (bvlcFunction d)
      else if isNetworkMessage d then
        ''Network-Layer-Message: '' @
        (case NetworkMessageName (networkMessageType d) of Some name \<Rightarrow> name | None \<Rightarrow> ''type='' @ fmt_u8 (networkMessageType d)) @
        route_text frame d
      else if \<not> hasApdu d then ''?''
      else pdu_text d @ (if hasObjectProperty d then object_text d else '''') @ route_text frame d)"

lemma octets_at_length: "length (octets_at frame p len) \<le> unat len"
  by (simp add: octets_at_def split: option.split)

lemma AppendRouteSuffix_full:
  assumes "length buf \<le> 127" "192 \<le> cap" "dadrLength d \<le> 23"
  shows "AppendRouteSuffix cap buf frame d = buf @ route_text frame d"
proof -
  have l: "length (octets_at frame (dadr d) (dadrLength d)) \<le> 23"
    using octets_at_length [of frame "dadr d" "dadrLength d"] assms(3) by (simp add: word_le_nat_alt)
  have a: "snprintf_at cap buf ('' DNET='' @ fmt_u16 (dnet d)) = buf @ '' DNET='' @ fmt_u16 (dnet d)"
    using fmt_u16_length [of "dnet d"] assms by (intro snprintf_at_full) simp
  have b: "snprintf_at cap (buf @ '' DNET='' @ fmt_u16 (dnet d)) '' DADR='' = buf @ '' DNET='' @ fmt_u16 (dnet d) @ '' DADR=''"
    using fmt_u16_length [of "dnet d"] assms by (subst snprintf_at_full) simp_all
  have c: "AppendHex cap (buf @ '' DNET='' @ fmt_u16 (dnet d) @ '' DADR='') (octets_at frame (dadr d) (dadrLength d)) =
      buf @ '' DNET='' @ fmt_u16 (dnet d) @ '' DADR='' @ hex_text (octets_at frame (dadr d) (dadrLength d))"
    using fmt_u16_length [of "dnet d"] assms l by (subst AppendHex_full) simp_all
  show ?thesis unfolding AppendRouteSuffix_def route_text_def Let_def a b c by auto
qed

lemma summary_body_full:
  assumes "object_served d"
  shows "summary_body d = pdu_text d @ (if hasObjectProperty d then object_text d else '''')" "length (summary_body d) \<le> 127"
proof -
  have p: "snprintf_at 128 '''' (pdu_text d) = pdu_text d" using pdu_text_length [of d] by (simp add: snprintf_at_full)
  show "summary_body d = pdu_text d @ (if hasObjectProperty d then object_text d else '''')"
    using served_text_length [OF assms] object_text_length [of d] by (cases "hasObjectProperty d") (simp_all add: summary_body_def Let_def p snprintf_at_full)
  show "length (summary_body d) \<le> 127"
    using pdu_text_length [of d] snprintf_at_length [of "pdu_text d" 128 "object_text d"] by (simp add: summary_body_def Let_def p)
qed

section \<open>The octets in the XML dump\<close>

lemma of_char_hex_digit: "d < 16 \<Longrightarrow> of_char (hex_digit d) = (if d < 10 then 48 + d else 55 + d :: nat)"
  by (simp add: hex_digit_def)

lemma hex_digit_inj: "d < 16 \<Longrightarrow> e < 16 \<Longrightarrow> hex_digit d = hex_digit e \<Longrightarrow> d = e"
proof -
  assume "d < 16" "e < 16" "hex_digit d = hex_digit e"
  then have "(if d < 10 then 48 + d else 55 + d) = (if e < 10 then 48 + e else 55 + (e :: nat))"
    by (simp only: of_char_hex_digit [symmetric])
  then show "d = e" using \<open>d < 16\<close> \<open>e < 16\<close> by presburger
qed

lemma octet_nibbles: "unat (b :: u8) div 16 < 16" "unat b mod 16 < 16"
  using unsigned_less [of b, where 'a = nat] by (simp_all add: less_mult_imp_div_less)

lemma fmt_02X_inj: "fmt_02X a = fmt_02X b \<Longrightarrow> a = b"
proof -
  assume "fmt_02X a = fmt_02X b"
  then have "unat a div 16 = unat b div 16" "unat a mod 16 = unat b mod 16"
    using hex_digit_inj octet_nibbles by (auto simp: fmt_02X_def)
  then have "unat a = unat b" by (metis div_mult_mod_eq)
  then show "a = b" by (simp add: word_unat_eq_iff)
qed

lemma hex_text_inj: "hex_text xs = hex_text ys \<Longrightarrow> xs = ys"
proof (induction xs arbitrary: ys)
  case Nil
  then show ?case by (cases ys) (auto simp: hex_text_def fmt_02X_def)
next
  case (Cons x xs)
  then obtain y ys' where ys: "ys = y # ys'" by (cases ys) (auto simp: hex_text_def fmt_02X_def)
  have "fmt_02X x @ hex_text xs = fmt_02X y @ hex_text ys'" using Cons.prems ys by (simp add: hex_text_def)
  then have "fmt_02X x = fmt_02X y" "hex_text xs = hex_text ys'" by (auto simp: fmt_02X_def)
  with Cons.IH ys fmt_02X_inj show ?case by blast
qed

lemma hex_text_plain: "CHR ''>'' \<notin> set (hex_text xs)"
proof -
  have "hex_digit d \<noteq> CHR ''>''" if "d < 16" for d
  proof
    assume "hex_digit d = CHR ''>''"
    then have "(if d < 10 then 48 + d else 55 + d) = (62 :: nat)" by (simp only: of_char_hex_digit [OF that, symmetric]) simp
    then show False using that by presburger
  qed
  then show ?thesis using octet_nibbles by (auto simp: hex_text_def fmt_02X_def dest: sym)
qed

definition xml_end :: string where
  "xml_end = ''</RawHex>'' @ NL @ ''  </BACnetMessage>'' @ NL"

lemma xml_ends_with_hex:
  assumes "DecodeBacnetFrame frame = Some d" "bacnetIp d"
  obtains pre where "PrintFrameAsXml frame = Some (pre @ ''>'' @ hex_text frame @ xml_end)"
proof -
  have "\<exists>pre. PrintFrameAsXml frame = Some ((pre @ ''    <RawHex'') @ ''>'' @ hex_text frame @ xml_end)"
    using assms unfolding PrintFrameAsXml_def xml_end_def by (simp add: append_assoc [symmetric] del: append_assoc) 
  then show thesis using that by blast
qed
section \<open>Properties\<close>

text \<open>
  C32. The summary of a frame always fits the caller's buffer with its terminator, the 128-octet body
  buffer never cuts it, and in the log's 192-octet buffer (or a larger one) it is complete for every
  destination address of up to 23 octets.
\<close>

theorem summary_complete:
  assumes "DecodeBacnetFrame frame = Some d"
  shows "\<exists>s. SummarizeBacnetFrame frame n = Some s \<and> (0 < n \<longrightarrow> length s < n) \<and>
    (192 \<le> n \<and> dadrLength d \<le> 23 \<longrightarrow> s = summary_text frame d)"
proof -
  let ?net = "case NetworkMessageName (networkMessageType d) of
     Some name \<Rightarrow> ''Network-Layer-Message: '' @ name | None \<Rightarrow> ''Network-Layer-Message: type='' @ fmt_u8 (networkMessageType d)"
  have served: "object_served d" using assms by (rule DecodeBacnetFrame_object)
  have net: "length ?net \<le> 127"
    using fmt_u8_length [of "networkMessageType d"] service_name_lengths(5) [of "networkMessageType d"] by (auto split: option.split)
  have "length s < n" if "SummarizeBacnetFrame frame n = Some s" "0 < n" for s
    using assms that by (auto simp: SummarizeBacnetFrame_def snprintf_at_length AppendRouteSuffix_length)
  moreover have "SummarizeBacnetFrame frame n = Some (summary_text frame d)" if "192 \<le> n" "dadrLength d \<le> 23"
  proof -
    have full: "length s \<le> 127 \<Longrightarrow> snprintf_at n '''' s = s" for s using that(1) by (simp add: snprintf_at_full)
    have r: "AppendRouteSuffix n (snprintf_at n '''' s) frame d = s @ route_text frame d" if "length s \<le> 127" for s
      using AppendRouteSuffix_full [OF that \<open>192 \<le> n\<close> \<open>dadrLength d \<le> 23\<close>] full [OF that] by simp
    show ?thesis
      using assms that(1) r [OF net] r [OF summary_body_full(2) [OF served]] summary_body_full(1) [OF served]
      by (auto simp: SummarizeBacnetFrame_def summary_text_def full fmt_02X_def split: option.split)
  qed
  moreover have "\<exists>s. SummarizeBacnetFrame frame n = Some s" using assms by (simp add: SummarizeBacnetFrame_def)
  ultimately show ?thesis by auto
qed

text \<open>Witness: a routed ReadProperty request of the Object_Name of a Device.\<close>

definition routed_read :: "u8 list" where
  "routed_read = [0x81, 0x0A, 0, 24, 1, 0x24, 0, 7, 1, 0x2A, 255, 0x02, 0x05, 1, 12, 0x0C, 0x02, 0x05, 0xEF, 0x89, 0x19, 77]"

lemma routed_read_names: "ObjectTypeName 8 = Some ''Device''" "PropertyName 77 = Some ''Object_Name''"
proof -
  show "ObjectTypeName 8 = Some ''Device''"
    unfolding ObjectTypeName_def object_types.LookUpIdName_map_of by (simp add: OBJECT_TYPE_NAMES_def)
  show "PropertyName 77 = Some ''Object_Name''"
    unfolding PropertyName_def properties.LookUpIdName_map_of by (simp add: PROPERTY_NAMES_def PROPERTY_NAMES_1_def map_add_Some_iff)
qed

theorem summary_complete_witness:
  "SummarizeBacnetFrame routed_read 192 = Some ''ConfirmedRequest: ReadProperty Device 389001.Object_Name DNET=7 DADR=2A''"
proof -
  have "map_option (\<lambda>d. (bacnetIp d, hasNpdu d, isNetworkMessage d, hasApdu d, pduType d, hasServiceChoice d, serviceChoice d))
      (DecodeBacnetFrame routed_read) = Some (True, True, False, True, 0, True, 12)"
    "map_option (\<lambda>d. (hasObjectProperty d, objectType d, objectInstance d, propertyId d, hasArrayIndex d)) (DecodeBacnetFrame routed_read) =
      Some (True, 8, 389001, 77, False)"
    "map_option (\<lambda>d. (hasDest d, dnet d, dadr d, dadrLength d)) (DecodeBacnetFrame routed_read) = Some (True, 7, Some 9, 1)"
    by code_simp+
  then obtain d where d: "DecodeBacnetFrame routed_read = Some d" "bacnetIp d" "hasNpdu d" "\<not> isNetworkMessage d" "hasApdu d" "pduType d = 0"
      "hasServiceChoice d" "serviceChoice d = 12" "hasObjectProperty d" "objectType d = 8" "objectInstance d = 389001" "propertyId d = 77"
      "\<not> hasArrayIndex d" "hasDest d" "dnet d = 7" "dadr d = Some 9" "dadrLength d = 1" by auto
  have "fmt_u 389001 = ''389001''" "fmt_u16 7 = ''7''"
    by (simp_all add: fmt_u16_def fmt_u_def show_nat.simps digit_char_def char_of_def bit_Suc_0_iff)
  moreover have "hex_text (octets_at routed_read (Some 9) 1) = ''2A''" by code_simp
  ultimately have "summary_text routed_read d = ''ConfirmedRequest: ReadProperty Device 389001.Object_Name DNET=7 DADR=2A''"
    using d by (simp add: summary_text_def pdu_text_def object_text_def route_text_def choice_text_def routed_read_names ConfirmedServiceName_def name_at_def Let_def)
  with summary_complete [OF d(1), of 192] d(17) show ?thesis by simp
qed

text \<open>
  A network layer message cut off before its message type is reported as a
  Who-Is-Router-To-Network, exactly like the complete message, and not as \<open>?\<close>.
\<close>

lemma truncated_network_message:
  "SummarizeBacnetFrame [0x81, 0x0B, lenHigh, lenLow, version, 0x80] 192 = Some ''Network-Layer-Message: Who-Is-Router-To-Network'' \<and>
   SummarizeBacnetFrame [0x81, 0x0B, lenHigh, lenLow, version, 0x80, 0] 192 = Some ''Network-Layer-Message: Who-Is-Router-To-Network''"
  by (simp add: SummarizeBacnetFrame_def DecodeBacnetFrame_def rd_def Let_def decode_destination_def decode_source_def decode_payload_def
      DecodedFrame_init_def NetworkMessageName_def AppendRouteSuffix_def snprintf_at_def)

text \<open>
  C33. The XML dump loses nothing: two BACnet/IP frames with the same dump are the same frame, however
  little of them the decoder understands.
\<close>

theorem xml_dump_lossless:
  assumes "DecodeBacnetFrame f = Some d" "DecodeBacnetFrame f' = Some d'" "bacnetIp d" "bacnetIp d'" "PrintFrameAsXml f = PrintFrameAsXml f'"
  shows "f = f'"
proof -
  obtain pre where p: "PrintFrameAsXml f = Some (pre @ ''>'' @ hex_text f @ xml_end)" by (rule xml_ends_with_hex [OF assms(1,3)])
  obtain pre' where p': "PrintFrameAsXml f' = Some (pre' @ ''>'' @ hex_text f' @ xml_end)" by (rule xml_ends_with_hex [OF assms(2,4)])
  have stop: "takeWhile (\<lambda>c. c \<noteq> CHR ''>'') (rev (q @ ''>'' @ hex_text g)) = rev (hex_text g)" for q g
    using hex_text_plain [of g] by (subst rev_append, subst rev_append, subst append_assoc, subst takeWhile_append2) auto
  have "rev (pre @ ''>'' @ hex_text f) = rev (pre' @ ''>'' @ hex_text f')" using assms(5) p p' by simp
  then have "rev (hex_text f) = rev (hex_text f')" using stop [of pre f] stop [of pre' f'] by metis
  then show ?thesis using hex_text_inj by simp
qed

text \<open>Witness: a frame with an unknown BVLC function is dumped in full.\<close>

theorem xml_dump_lossless_witness:
  "PrintFrameAsXml [0x81, 0x55, 0, 5, 1] \<noteq> PrintFrameAsXml [0x81, 0x55, 0, 5, 2]"
proof -
  have "map_option bacnetIp (DecodeBacnetFrame [0x81, 0x55, 0, 5, 1]) = Some True"
    "map_option bacnetIp (DecodeBacnetFrame [0x81, 0x55, 0, 5, 2]) = Some True" by code_simp+
  then obtain d d' where "DecodeBacnetFrame [0x81, 0x55, 0, 5, 1] = Some d" "DecodeBacnetFrame [0x81, 0x55, 0, 5, 2] = Some d'" "bacnetIp d" "bacnetIp d'"
    by auto
  with xml_dump_lossless [of "[0x81, 0x55, 0, 5, 1]" d "[0x81, 0x55, 0, 5, 2]" d'] show ?thesis by auto
qed

text \<open>A datagram that is not a BACnet/IP frame is dumped without its octets.\<close>

lemma xml_dump_omits_foreign_octets: "PrintFrameAsXml [1, 2, 3] = PrintFrameAsXml [4, 5, 6]"
  by (simp add: PrintFrameAsXml_def DecodeBacnetFrame_def DecodedFrame_init_def)

end
