(* ===== verification/Startup.thy ===== *)
theory Startup
  imports Setup_Calls Frame_Summary
begin

text \<open>
  \<open>main\<close> before its loop: load the stack, read the command line, bind the socket, register the
  callbacks, configure the stack by the calls of \<open>Setup_Calls\<close> and announce the device. The lines
  starting with \<open>FYI:\<close> are not modelled.
\<close>

section \<open>\<open>main\<close> up to the loop\<close>

text \<open>
  What the process finds when it starts: whether the stack loads, its version, the outcomes of
  \<open>socket\<close> and \<open>bind\<close>, the network interfaces at the two times they are read, the environment variables,
  the clocks, and the stack's answers.
\<close>

record startup_env =
  loaded :: bool
  api_version :: "u32 \<times> u32 \<times> u32 \<times> u32"
  socket_ok :: bool
  bind_ok :: bool
  interfaces :: "interface list option"
  interfaces_later :: "interface list option"
  getenv :: "string \<Rightarrow> string option"
  host_start :: host
  loop_clock :: int
  accepts_call :: "setup_call list \<Rightarrow> setup_call \<Rightarrow> bool"
  exception_index :: u32

datatype start_error = StackNotLoaded | PortNotBound | SetupFailed string

datatype startup =
    Informs info_request
  | Fails start_error "setup_call list"
  | Runs loop_config loop_state transport "setup_call list" "u32 \<times> u8 list \<times> u32"

fun exit_code :: "startup \<Rightarrow> nat option" where
  "exit_code (Informs i) = Some 0"
| "exit_code (Fails e cs) = Some 1"
| "exit_code (Runs lc s t cs iam) = None"

definition firmware_revision :: "u32 \<times> u32 \<times> u32 \<times> u32 \<Rightarrow> string" where
  "firmware_revision v = (case v of (major, minor, patch, build) \<Rightarrow>
     snprintf_at 32 '''' (fmt_u major @ ''.'' @ fmt_u minor @ ''.'' @ fmt_u patch @ ''.'' @ fmt_u build))"

definition GetLocalIPv4 :: "interface list option \<Rightarrow> (u8 list \<times> u8 list) option" where
  "GetLocalIPv4 ifs = GetPrimaryIPv4 ifs"

definition EnvironmentVariable :: "(string \<Rightarrow> string option) \<Rightarrow> string \<Rightarrow> string" where
  "EnvironmentVariable env name = (case env name of Some v \<Rightarrow> v | None \<Rightarrow> '''')"

definition TEST_PASSENGER_ALARM_SECONDS_VARIABLE :: string where
  "TEST_PASSENGER_ALARM_SECONDS_VARIABLE = ''BAEC_TEST_PASSENGER_ALARM_SECONDS''"

text \<open>The globals that are fixed once the socket is bound. Without a local address the initial zeros stay.\<close>

definition configure :: "startup_env \<Rightarrow> options \<Rightarrow> config" where
  "configure env opts =
     (let (ip, netmask) = (case GetLocalIPv4 (interfaces env) of Some a \<Rightarrow> a | None \<Rightarrow> ([0, 0, 0, 0], [0, 0, 0, 0]))
      in \<lparr>g_deviceInstance = opt_device opts, g_deviceName = opt_name opts,
          g_firmwareRevision = firmware_revision (api_version env), g_dccPassword = map of_char (opt_password opts),
          g_ipAddress = ip, g_ipSubnetMask = netmask, g_ipDefaultGateway = [0, 0, 0, 0], g_bacnetIpUdpPort = opt_port opts\<rparr>)"

definition start_program :: "startup_env \<Rightarrow> string list \<Rightarrow> startup" where
  "start_program env argv =
     (if \<not> loaded env then Fails StackNotLoaded []
      else case command_line argv of
        None \<Rightarrow> Informs (the (HandleHelpAndVersionArgs argv))
      | Some opts \<Rightarrow>
             (case SetupUDP_current (socket_ok env) (bind_ok env) (opt_port opts) transport_init of
                (False, t) \<Rightarrow> Fails PortNotBound []
              | (True, t) \<Rightarrow>
                  (let cfg = configure env opts; t = SetNetworkPortInstance NETWORK_PORT_INSTANCE t
                   in case run_guards (accepts_call env) (setup_guards cfg (exception_index env)) (map RegisterCallback registered_callbacks) of
                        (Some err, made) \<Rightarrow> Fails (SetupFailed err) made
                      | (None, made) \<Rightarrow>
                          Runs \<lparr>settings = cfg, simulatedAlarms = opt_simulatedAlarms opts,
                                alarmPeriod = alarm_period (EnvironmentVariable (getenv env) TEST_PASSENGER_ALARM_SECONDS_VARIABLE)\<rparr>
                            (power_on (host_start env) (loop_clock env)) t made
                            (SendIAm_current (interfaces_later env) (g_deviceInstance cfg) t))))"

section \<open>Lemmas\<close>

fun calls_made :: "startup \<Rightarrow> setup_call list" where
  "calls_made (Informs i) = []"
| "calls_made (Fails e cs) = cs"
| "calls_made (Runs lc s t cs iam) = cs"

text \<open>The transport after the socket is bound.\<close>

definition one_port :: "u16 \<Rightarrow> transport" where
  "one_port port = \<lparr>bindings = [UdpBinding_init\<lparr>instance_of := 1, udp := \<lparr>m_socket = True, m_connected = True, inbox = []\<rparr>,
     port_of := port, bound := True\<rparr>], g_port = port, g_networkPortInstance = 1, nextBinding = 0\<rparr>"

lemma SetupUDP_first:
  "SetupUDP True True port (g_networkPortInstance transport_init) transport_init = (True, one_port port)"
  "fst (SetupUDP sok bok port inst transport_init) \<longleftrightarrow> sok \<and> bok"
  by (simp_all add: SetupUDP_def FindUdpBindingByInstance_def transport_init_def Connect_def Disconnect_def UdpBinding_init_def SimpleUDP_init_def
      one_port_def Let_def)

lemma one_port_choose: "SetNetworkPortInstance NETWORK_PORT_INSTANCE (one_port port) = one_port port"
  by (simp add: SetNetworkPortInstance_def one_port_def)

text \<open>The state the loop is given.\<close>

definition loop_settings :: "startup_env \<Rightarrow> options \<Rightarrow> loop_config" where
  "loop_settings env opts =
     \<lparr>settings = configure env opts, simulatedAlarms = opt_simulatedAlarms opts,
      alarmPeriod = alarm_period (EnvironmentVariable (getenv env) TEST_PASSENGER_ALARM_SECONDS_VARIABLE)\<rparr>"

definition ready :: "startup_env \<Rightarrow> options \<Rightarrow> setup_call list \<Rightarrow> startup" where
  "ready env opts made =
     Runs (loop_settings env opts) (power_on (host_start env) (loop_clock env)) (one_port (opt_port opts)) made
       (SendIAm (interfaces_later env) (opt_device opts) 1 (one_port (opt_port opts)))"

lemma configure_device: "g_deviceInstance (configure env opts) = opt_device opts" "g_bacnetIpUdpPort (configure env opts) = opt_port opts"
  by (simp_all add: configure_def split: prod.split)

lemma start_program_bound:
  assumes "loaded env" "command_line argv = Some opts" "socket_ok env" "bind_ok env"
  shows "start_program env argv =
    (let cfg = configure env opts
     in case run_calls (accepts_call env) (setup_calls cfg (exception_index env)) registrations of
          (True, made) \<Rightarrow> ready env opts made
        | (False, made) \<Rightarrow> Fails (SetupFailed (error_line
              (messages (setup_guards cfg (exception_index env)) ! (length made - Suc (length registrations))))) made)"
proof -
  have u: "SetupUDP (socket_ok env) (bind_ok env) (opt_port opts) (g_networkPortInstance transport_init) transport_init = (True, one_port (opt_port opts))"
    using assms(3,4) SetupUDP_first(1) by simp
  have i: "g_networkPortInstance (one_port p) = 1" for p by (simp add: one_port_def)
  show ?thesis
    using assms(1,2) u
    by (cases "run_calls (accepts_call env) (setup_calls (configure env opts) (exception_index env)) registrations")
      (simp add: start_program_def run_guards_flat setup_calls_def [symmetric] registrations_def [symmetric] ready_def loop_settings_def
        one_port_choose i configure_device Let_def del: NETWORK_PORT_INSTANCE_def split: bool.split)
qed

lemma start_program_Runs:
  assumes "start_program env argv = Runs lc s t made iam"
  shows "\<exists>opts. command_line argv = Some opts \<and> lc = loop_settings env opts \<and> s = power_on (host_start env) (loop_clock env) \<and>
    t = one_port (opt_port opts) \<and> made = registrations @ setup_calls (configure env opts) (exception_index env) \<and>
    iam = SendIAm (interfaces_later env) (opt_device opts) 1 t"
proof -
  have l: "loaded env" using assms by (auto simp: start_program_def split: if_splits)
  then obtain opts where o: "command_line argv = Some opts" using assms by (auto simp: start_program_def split: option.splits)
  have b: "socket_ok env \<and> bind_ok env"
  proof (rule ccontr)
    assume "\<not> (socket_ok env \<and> bind_ok env)"
    with SetupUDP_first(2) obtain u where
      "SetupUDP (socket_ok env) (bind_ok env) (opt_port opts) (g_networkPortInstance transport_init) transport_init = (False, u)"
      by (metis (full_types) prod.collapse)
    with assms l o show False by (simp add: start_program_def)
  qed
  let ?cs = "setup_calls (configure env opts) (exception_index env)"
  have "run_calls (accepts_call env) ?cs registrations = (True, registrations @ ?cs)"
    using run_calls_cases [of ?cs "accepts_call env" registrations] assms start_program_bound [OF l o] b by (auto simp: Let_def)
  then show ?thesis using o assms start_program_bound [OF l o] b by (auto simp: ready_def Let_def)
qed


lemma SendIAm_one_port: "SendIAm ifs device 1 (one_port port) = (device, connection_string (GetLocalBroadcastIPv4 ifs) port, 1)"
  by (simp add: SendIAm_def FindUdpBindingByInstance_def one_port_def Let_def)

lemma GetLocalBroadcastIPv4_four: "\<exists>a b c d. GetLocalBroadcastIPv4 ifs = [a, b, c, d]"
  by (auto simp: GetLocalBroadcastIPv4_def split: option.split)

lemma send_one_port:
  "snd (HelperSendMessage ifs sendto (one_port port) msg (connection_string (GetLocalBroadcastIPv4 ifs) port) 1 True) =
   [\<lparr>to_ip = GetLocalBroadcastIPv4 ifs, to_port = port, payload = msg\<rparr>]"
proof -
  obtain a b c d where g: "GetLocalBroadcastIPv4 ifs = [a, b, c, d]" using GetLocalBroadcastIPv4_four by blast
  have "be16 (ucast (drop_bit 8 port)) (ucast port) = port" by (rule be16_octets)
  then show ?thesis
    by (simp add: HelperSendMessage_def FindUdpBindingByInstance_def one_port_def Let_def destination_of_def g connection_string_def
        Send_def UdpBinding_init_def)
qed

lemma ucast_low_octet: "(ucast (and p 0xFF) :: u8) = ucast (p :: u16)"
proof (rule bit_word_eqI)
  fix n assume "n < LENGTH(8)"
  moreover have m: "0xFF = (Bit_Operations.mask 8 :: u16)" by (simp add: mask_eq_exp_minus_1)
  ultimately show "bit (ucast (and p 0xFF) :: u8) n = bit (ucast p :: u8) n"
    unfolding m by (simp add: bit_ucast_iff bit_and_iff bit_mask_iff del: mask_numeral)
qed

lemma recipient_is_broadcast:
  "recipientMac (configure env opts) = connection_string (GetLocalBroadcastIPv4 (interfaces env)) (opt_port opts)"
  by (auto simp: recipientMac_def RECIPIENT_USE_BROADCAST_def LocalBroadcastConnString_def configure_def GetLocalIPv4_def GetLocalBroadcastIPv4_def
      connection_string_def ucast_low_octet split: option.split)

lemma alarm_period_range: "1 \<le> alarm_period v \<and> alarm_period v \<le> 3600"
  by (auto simp: alarm_period_def PASSENGER_ALARM_SIMULATION_PERIOD_SECONDS_def split: prod.split)

lemma settings_in_range:
  assumes "start_program env argv = Runs lc s t made iam"
  shows "0 < g_bacnetIpUdpPort (settings lc)" "g_deviceInstance (settings lc) < 4194303" "printable (g_deviceName (settings lc))"
    "1 \<le> alarmPeriod lc" "alarmPeriod lc \<le> 3600"
proof -
  obtain opts where o: "command_line argv = Some opts" "lc = loop_settings env opts" using start_program_Runs [OF assms] by blast
  have "g_deviceName (settings lc) = opt_name opts" by (simp add: o(2) loop_settings_def configure_def split: prod.split)
  with command_line_valid [OF o(1)] alarm_period_range
  show "0 < g_bacnetIpUdpPort (settings lc)" "g_deviceInstance (settings lc) < 4194303" "printable (g_deviceName (settings lc))"
    "1 \<le> alarmPeriod lc" "alarmPeriod lc \<le> 3600"
    by (simp_all add: o loop_settings_def configure_device)
qed

text \<open>
  A read of the property that one of the typed callbacks answers, whole or by array index, and a write
  that one of them takes.
\<close>

fun answered :: "'a callback \<Rightarrow> bool" where
  "answered (Inr v) = True"
| "answered (Inl e) = False"

definition read_answered :: "config \<Rightarrow> device \<Rightarrow> u16 \<Rightarrow> u32 \<Rightarrow> u32 \<Rightarrow> bool" where
  "read_answered cfg st ot oi p \<longleftrightarrow> (let d = g_deviceInstance cfg in
     list_ex (\<lambda>(b, i).
        answered (GetPropertyReal cfg st d ot oi p b i) \<or>
        map_option answered (GetPropertyEnumerated cfg st d ot oi p b i) = Some True \<or>
        map_option answered (GetPropertyUnsignedInteger cfg st d ot oi p b i) = Some True \<or>
        answered (GetPropertyBool cfg st d ot oi p b i) \<or>
        answered (GetPropertyCharString cfg d ot oi p 256 b i))
      [(False, 0), (True, 0), (True, 1)])"

definition write_accepted :: "config \<Rightarrow> host \<Rightarrow> device \<Rightarrow> u16 \<Rightarrow> u32 \<Rightarrow> u32 \<Rightarrow> bool" where
  "write_accepted cfg h st ot oi p \<longleftrightarrow> (let d = g_deviceInstance cfg in
     answered (SetPropertyReal cfg st d ot oi p SCHEDULE_DEMO_VALUE 8) \<or>
     answered (SetPropertyEnumerated cfg st d ot oi p 1 8) \<or>
     answered (SetPropertyUnsignedInteger (localtime_of h) (clock_s h) cfg st d ot oi p 1 8) \<or>
     answered (SetPropertyBool cfg st d ot oi p True))"

lemma answered_ReturnCharacterString: "answered (ReturnCharacterString tx n)"
  by (simp add: ReturnCharacterString_def Let_def)

text \<open>The properties a sequence of calls enables or makes writable, object by object.\<close>

fun enables :: "setup_call \<Rightarrow> (u16 \<times> u32 \<times> u32) list" where
  "enables (SetPropertyEnabled d ot oi p b) = (if b then [(ot, oi, p)] else [])"
| "enables _ = []"

fun opens :: "setup_call \<Rightarrow> (u16 \<times> u32 \<times> u32) list" where
  "opens (SetPropertyWritable d ot oi p b) = (if b then [(ot, oi, p)] else [])"
| "opens _ = []"

lemma registrations_add: "concat (map adds registrations) = []" "concat (map enables registrations) = []" "concat (map opens registrations) = []"
  by (simp_all add: registrations_def comp_def)

lemma setup_enables:
  "concat (map enables (setup_calls cfg idx)) =
   (OBJECT_TYPE_DEVICE, g_deviceInstance cfg, PROPERTY_IDENTIFIER_DESCRIPTION) # map (\<lambda>(ot, p). (ot, 1, p))
     [(OBJECT_TYPE_MULTI_STATE_INPUT, PROPERTY_IDENTIFIER_STATE_TEXT), (OBJECT_TYPE_ANALOG_INPUT, PROPERTY_IDENTIFIER_COV_INCREMENT),
      (OBJECT_TYPE_ANALOG_OUTPUT, PROPERTY_IDENTIFIER_PRIORITY_ARRAY), (OBJECT_TYPE_ANALOG_OUTPUT, PROPERTY_IDENTIFIER_RELINQUISH_DEFAULT),
      (OBJECT_TYPE_BINARY_OUTPUT, PROPERTY_IDENTIFIER_PRIORITY_ARRAY), (OBJECT_TYPE_BINARY_OUTPUT, PROPERTY_IDENTIFIER_RELINQUISH_DEFAULT),
      (OBJECT_TYPE_MULTI_STATE_OUTPUT, PROPERTY_IDENTIFIER_PRIORITY_ARRAY),
      (OBJECT_TYPE_MULTI_STATE_OUTPUT, PROPERTY_IDENTIFIER_RELINQUISH_DEFAULT),
      (OBJECT_TYPE_LIFT, PROPERTY_IDENTIFIER_ASSIGNED_LANDING_CALLS), (OBJECT_TYPE_LIFT, PROPERTY_IDENTIFIER_REGISTERED_CAR_CALL),
      (OBJECT_TYPE_LIFT, PROPERTY_IDENTIFIER_LANDING_DOOR_STATUS), (OBJECT_TYPE_ESCALATOR, PROPERTY_IDENTIFIER_POWER_MODE),
      (OBJECT_TYPE_ESCALATOR, PROPERTY_IDENTIFIER_ESCALATOR_MODE)]"
  by (simp add: setup_calls_def setup_guards_def guard_defs Let_def)

lemma setup_opens:
  "concat (map opens (setup_calls cfg idx)) = map (\<lambda>(ot, p). (ot, 1, p))
     [(OBJECT_TYPE_EVENT_LOG, PROPERTY_IDENTIFIER_ENABLE), (OBJECT_TYPE_FILE, PROPERTY_IDENTIFIER_ARCHIVE),
      (OBJECT_TYPE_ANALOG_OUTPUT, PROPERTY_IDENTIFIER_PRESENT_VALUE), (OBJECT_TYPE_BINARY_OUTPUT, PROPERTY_IDENTIFIER_PRESENT_VALUE),
      (OBJECT_TYPE_MULTI_STATE_OUTPUT, PROPERTY_IDENTIFIER_PRESENT_VALUE),
      (OBJECT_TYPE_NOTIFICATION_CLASS, PROPERTY_IDENTIFIER_RECIPIENT_LIST)]"
  by (simp add: setup_calls_def setup_guards_def guard_defs Let_def)

lemmas read_callbacks = GetPropertyReal_def GetPropertyEnumerated_def enumerated_rest_def GetPropertyUnsignedInteger_def unsigned_first_def
  GetPropertyBool_def GetPropertyCharString_def object_name_def device_text_def GetCommandable_def ReadPrioritySlot_def
  answered_ReturnCharacterString Let_def

lemma default_answers:
  assumes "device_inv st"
  shows "\<exists>w. answer_u32 (relinquishDefault (g_binaryOutput (outs st))) = Some (Inr w)"
    "\<exists>w. answer_u32 (relinquishDefault (g_multiStateOutput (outs st))) = Some (Inr w)"
  using device_invD(2,3) [OF assms] binary_answer state_answer unfolding slots_ok_def by blast+

lemma enables_answered:
  assumes "device_inv st"
  shows "list_all (\<lambda>(ot, oi, p). read_answered cfg st ot oi p) (concat (map enables (setup_calls cfg idx)))"
  unfolding setup_enables using default_answers [OF assms] by (auto simp: read_answered_def read_callbacks)

lemma opens_accepted:
  "list_all (\<lambda>(ot, oi, p). ot = OBJECT_TYPE_EVENT_LOG \<or> ot = OBJECT_TYPE_NOTIFICATION_CLASS \<or> write_accepted cfg h st ot oi p)
     (concat (map opens (setup_calls cfg idx)))"
  unfolding setup_opens
  by (simp add: write_accepted_def SetPropertyReal_def SetPropertyEnumerated_def SetPropertyUnsignedInteger_def SetPropertyBool_def
      GetCommandable_def Let_def)

section \<open>Properties\<close>

text \<open>
  C36. Once the socket is bound, the set-up goes through exactly if the stack accepts every call; then
  the calls made are the registrations and the whole sequence, in order. Otherwise the process ends at
  the first refused call: no call is made after it, and the message printed is that call's.
\<close>

theorem startup_stops_at_first_refusal:
  assumes "loaded env" "command_line argv = Some opts" "socket_ok env" "bind_ok env"
  shows "let gs = setup_guards (configure env opts) (exception_index env); cs = concat (map fst gs);
      ok = \<lambda>k. accepts_call env (registrations @ take k cs) (cs ! k)
    in if \<forall>k < length cs. ok k then \<exists>lc s t iam. start_program env argv = Runs lc s t (registrations @ cs) iam
       else \<exists>k < length cs. (\<forall>j < k. ok j) \<and> \<not> ok k \<and>
              start_program env argv = Fails (SetupFailed (error_line (messages gs ! k))) (registrations @ take (Suc k) cs)"
proof -
  let ?cs = "setup_calls (configure env opts) (exception_index env)"
  note start = start_program_bound [OF assms]
  from run_calls_cases [of ?cs "accepts_call env" registrations] show ?thesis
    unfolding Let_def setup_calls_def [symmetric]
  proof (elim disjE exE conjE)
    assume "\<forall>k < length ?cs. accepts_call env (registrations @ take k ?cs) (?cs ! k)"
      "run_calls (accepts_call env) ?cs registrations = (True, registrations @ ?cs)"
    then show "if \<forall>k < length ?cs. accepts_call env (registrations @ take k ?cs) (?cs ! k)
      then \<exists>lc s t iam. start_program env argv = Runs lc s t (registrations @ ?cs) iam else P" for P
      using start by (cases "SendIAm (interfaces_later env) (opt_device opts) 1 (one_port (opt_port opts))") (simp add: ready_def Let_def)
  next
    fix k assume k: "k < length ?cs" "\<forall>j < k. accepts_call env (registrations @ take j ?cs) (?cs ! j)"
      "\<not> accepts_call env (registrations @ take k ?cs) (?cs ! k)"
      "run_calls (accepts_call env) ?cs registrations = (False, registrations @ take (Suc k) ?cs)"
    have "start_program env argv = Fails (SetupFailed (error_line (messages (setup_guards (configure env opts) (exception_index env)) ! k)))
        (registrations @ take (Suc k) ?cs)"
      using start k(1,4) by (simp add: Let_def min_absorb2 Suc_leI)
    then show "if \<forall>k < length ?cs. accepts_call env (registrations @ take k ?cs) (?cs ! k) then P
      else \<exists>k < length ?cs. (\<forall>j < k. accepts_call env (registrations @ take j ?cs) (?cs ! j)) \<and>
        \<not> accepts_call env (registrations @ take k ?cs) (?cs ! k) \<and>
        start_program env argv = Fails (SetupFailed (error_line (messages (setup_guards (configure env opts) (exception_index env)) ! k)))
          (registrations @ take (Suc k) ?cs)" for P
      using k by auto
  qed
qed

text \<open>
  C15. Whatever the arguments, the host and the stack's answers, every call the program makes names only
  objects that an earlier call added, and adds no object twice. So a stack that insists on exactly this
  accepts the whole set-up.
\<close>

theorem setup_names_existing_objects:
  "well_ordered [] (calls_made (start_program env argv)) \<and>
   (loaded env \<and> command_line argv \<noteq> None \<and> socket_ok env \<and> bind_ok env \<and> accepts_call env = strict_stack \<longrightarrow>
      exit_code (start_program env argv) = None)"
proof -
  have all: "well_ordered [] (registrations @ setup_calls cfg idx)" for cfg idx
    by (simp add: well_ordered_append registrations_def well_ordered_registrations objects_of_registrations setup_calls_ordered)
  then have pre: "well_ordered [] (registrations @ take n (setup_calls cfg idx))" for n cfg idx
    by (metis append.assoc append_take_drop_id well_ordered_append)
  show ?thesis
  proof (cases "loaded env \<and> command_line argv \<noteq> None \<and> socket_ok env \<and> bind_ok env")
    case True
    then obtain opts where b: "loaded env" "command_line argv = Some opts" "socket_ok env" "bind_ok env" by blast
    let ?cs = "setup_calls (configure env opts) (exception_index env)"
    have w: "well_ordered [] (calls_made (start_program env argv))"
      using run_calls_cases [of ?cs "accepts_call env" registrations] start_program_bound [OF b] all pre
      by (auto simp: Let_def ready_def)
    have "run_calls strict_stack ?cs registrations = (True, registrations @ ?cs)"
      by (rule run_calls_strict) (simp add: registrations_def objects_of_registrations setup_calls_ordered)
    with w start_program_bound [OF b] show ?thesis by (auto simp: Let_def ready_def)
  next
    case False
    then have "calls_made (start_program env argv) = []"
      using SetupUDP_first(2) [of "socket_ok env" "bind_ok env"]
      by (auto simp: start_program_def split: option.split prod.split bool.split) (metis fst_conv)+
    with False show ?thesis by auto
  qed
qed



text \<open>Witnesses: a stack that refuses the Elevator Group, and a strict one.\<close>

definition example_env :: "(setup_call list \<Rightarrow> setup_call \<Rightarrow> bool) \<Rightarrow> startup_env" where
  "example_env stack = \<lparr>loaded = True, api_version = (6, 0, 23, 0), socket_ok = True, bind_ok = True,
     interfaces = Some [\<lparr>is_inet = True, is_loopback = False, is_up = True, if_addr = [192, 168, 1, 10], if_netmask = Some [255, 255, 255, 0]\<rparr>],
     interfaces_later = None, getenv = (\<lambda>n. None), host_start = example_host, loop_clock = 0, accepts_call = stack, exception_index = 0\<rparr>"


text \<open>No arguments.\<close>

definition default_options :: options where
  "default_options = \<lparr>opt_port = 47808, opt_device = 389014, opt_name = DEVICE_NAME, opt_simulatedAlarms = True, opt_xml = False, opt_password = []\<rparr>"

lemma example_command_line: "command_line [''baec''] = Some default_options"
  by (simp add: command_line_def HandleHelpAndVersionArgs_def ParsePortArg_def ParseDeviceIdArg_def ParseDeviceNameArg_def ParseXmlLogArg_def
      ParseDccPasswordArg_def DEFAULT_DCC_PASSWORD_def DEFAULT_DEVICE_INSTANCE_def or_default_def default_options_def)

lemma example_started: "loaded (example_env stack)" "socket_ok (example_env stack)" "bind_ok (example_env stack)"
    "accepts_call (example_env stack) = stack"
  by (simp_all add: example_env_def)

theorem startup_stops_at_first_refusal_witness:
  "start_program (example_env (\<lambda>earlier c. False)) [''baec''] =
     Fails (SetupFailed (error_line ''Failed to add the Device 389014.'')) (registrations @ [AddDevice 389014])"
proof -
  let ?cfg = "configure (example_env (\<lambda>earlier c. False)) default_options"
  have d: "g_deviceInstance ?cfg = 389014" by (simp add: configure_device default_options_def)
  have "show_nat 389014 = ''389014''" by (simp add: show_nat.simps) code_simp
  then have f: "setup_calls ?cfg idx ! 0 = AddDevice 389014" "take (Suc 0) (setup_calls ?cfg idx) = [AddDevice 389014]"
    "messages (setup_guards ?cfg idx) ! 0 = ''Failed to add the Device 389014.''" "setup_calls ?cfg idx \<noteq> []" for idx
    by (simp_all add: setup_calls_def messages_def setup_guards_def device_guards_def d fmt_u_def Let_def)
  from f(4) have "\<exists>k < length (setup_calls ?cfg idx). True" for idx by auto
  with startup_stops_at_first_refusal [of "example_env (\<lambda>earlier c. False)" "[''baec'']" default_options]
  obtain k where "\<forall>j < k. False" "start_program (example_env (\<lambda>earlier c. False)) [''baec''] =
      Fails (SetupFailed (error_line (messages (setup_guards ?cfg (exception_index (example_env (\<lambda>earlier c. False)))) ! k)))
        (registrations @ take (Suc k) (setup_calls ?cfg (exception_index (example_env (\<lambda>earlier c. False)))))"
    by (auto simp: example_started example_command_line Let_def setup_calls_def [symmetric] split: if_splits)
  moreover from this(1) have "k = 0" by blast
  ultimately show ?thesis by (simp add: f)
qed

theorem setup_names_existing_objects_witness: "exit_code (start_program (example_env strict_stack) [''baec'']) = None"
  using setup_names_existing_objects [of "example_env strict_stack" "[''baec'']"] by (simp add: example_started example_command_line)

text \<open>The strict stack's device.\<close>

definition strict_loop :: loop_config where
  "strict_loop = loop_settings (example_env strict_stack) default_options"

lemma strict_runs: "start_program (example_env strict_stack) [''baec''] =
    Runs strict_loop (power_on example_host 0) (one_port 47808)
      (registrations @ setup_calls (settings strict_loop) 0) (389014, connection_string [255, 255, 255, 255] 47808, 1)"
proof -
  let ?cs = "setup_calls (settings strict_loop) 0"
  have "run_calls strict_stack ?cs registrations = (True, registrations @ ?cs)"
    by (rule run_calls_strict) (simp add: registrations_def objects_of_registrations setup_calls_ordered)
  moreover have "configure (example_env strict_stack) default_options = settings strict_loop" "exception_index (example_env strict_stack) = 0"
    by (simp_all add: strict_loop_def loop_settings_def example_env_def)
  ultimately show ?thesis
    using start_program_bound [OF example_started(1) example_command_line example_started(2,3), of strict_stack]
    by (simp add: example_started ready_def Let_def SendIAm_one_port strict_loop_def [symmetric])
      (simp add: example_env_def default_options_def GetLocalBroadcastIPv4_def GetPrimaryIPv4_def)
qed

lemma strict_device: "g_deviceInstance (settings strict_loop) = 389014" "g_bacnetIpUdpPort (settings strict_loop) = 47808"
  by (simp_all add: strict_loop_def loop_settings_def configure_device default_options_def)



end
