(* ===== verification/Help_Text.thy ===== *)
theory Help_Text
  imports Startup
begin

text \<open>
  The texts of \<open>--help\<close>, \<open>--version\<close> and the help key; a text is the list of its lines. And which options
  the program knows: those it documents, and one more.
\<close>

section \<open>Help and version\<close>

definition COMMON_VERSION :: string where "COMMON_VERSION = ''3.6.1''"

definition PrintVersion :: "u32 \<times> u32 \<times> u32 \<times> u32 \<Rightarrow> string list" where
  "PrintVersion v = (case v of (major, minor, patch, build) \<Rightarrow>
     [APP_NAME @ '' v'' @ APP_VERSION,
      ''CAS BACnet Stack version: '' @ fmt_u major @ ''.'' @ fmt_u minor @ ''.'' @ fmt_u patch @ ''.'' @ fmt_u build,
      ''Common helper (common/) version: '' @ COMMON_VERSION])"

definition PrintInteractiveCommands :: "string list" where
  "PrintInteractiveCommands =
     [''Commands:'',
      ''  h     - show this help (version + commands)'',
      ''  q     - quit'',
      ''  up    - increase Analog Input 1 by 1.1'',
      ''  down  - decrease Analog Input 1 by 1.1'']"

definition PrintHelp :: "u32 \<times> u32 \<times> u32 \<times> u32 \<Rightarrow> string list" where
  "PrintHelp v = PrintVersion v @ PrintInteractiveCommands"

definition help_options :: "bool \<Rightarrow> bool \<Rightarrow> string list" where
  "help_options showDccPasswordCliOption showDeviceNameCliOption =
     [''  --help, -h        Show this help and exit.'',
      ''  --version         Show version information and exit.'',
      ''  --deviceID <n>    BACnet device instance (0..4194302). Each example in'',
      ''                    this series has its own default so several can run on'',
      ''                    one subnet at once.''] @
     (if showDeviceNameCliOption
      then [''  --deviceName <text>'',
            ''                    The Device object's Object_Name (1..'' @ show_nat MAX_DEVICE_NAME_LENGTH @ '' bytes, no'',
            ''                    control characters). It must be unique across the'',
            ''                    BACnet internetwork, so give every unit its own.'',
            ''                    Default: this example's own name.'']
      else []) @
     [''  --port <n>        BACnet/IP UDP port (1..65535). Default 47808 (0xBAC0).'',
      ''                    Use a non-default port to avoid clashing with another'',
      ''                    BACnet device already on 47808 on this host.''] @
     (if showDccPasswordCliOption
      then [''  --dcc-password <string>'',
            ''                    DeviceCommunicationControl password. Default '' @ [CHR 0x22, CHR 0x22] @ '' (no'',
            ''                    password required). Set to require a matching password on'',
            ''                    DeviceCommunicationControl requests - see this example's own'',
            ''                    DeviceCommunicationControl callback for how it is checked.'']
      else []) @
     [''  --xml             Print every RX/TX BACnet message as an indented XML'',
      ''                    block instead of a one-line summary. Off by default -'',
      ''                    very verbose, meant for deep protocol debugging.'']"

definition shared_help :: "u32 \<times> u32 \<times> u32 \<times> u32 \<Rightarrow> bool \<Rightarrow> bool \<Rightarrow> string list" where
  "shared_help v dcc name = PrintVersion v @ ['''', ''Usage: <executable> [options]'', '''', ''Options:''] @ help_options dcc name @ [''''] @ PrintInteractiveCommands"

text \<open>What \<open>main\<close> adds, for any argument that asks for the help.\<close>

definition own_help :: "string list" where
  "own_help =
     [''  --no-simulated-alarms'',
      ''                    Turn the simulated Passenger_Alarm timer off. The alarm'',
      ''                    then stays cleared, so the device has no active event.'',
      ''                    Default: the timer flips the alarm every 30 s.'']"

definition information :: "u32 \<times> u32 \<times> u32 \<times> u32 \<Rightarrow> string list \<Rightarrow> info_request \<Rightarrow> string list" where
  "information v argv i =
     (case i of HelpText \<Rightarrow> shared_help v True True | VersionText \<Rightarrow> PrintVersion v) @
     (if list_ex (\<lambda>a. a = ''--help'' \<or> a = ''-h'' \<or> a = ''/?'') (tl argv) then own_help else [])"

section \<open>Lemmas\<close>

definition known_options :: "string list" where
  "known_options = [''--help'', ''-h'', ''/?'', ''--version'', ''--deviceID'', ''--deviceName'', ''--port'', ''--dcc-password'', ''--xml'',
     ''--xmlLog'', ''--no-simulated-alarms'']"

lemma find_info_None: "list_all (\<lambda>a. a \<notin> set known_options) args \<Longrightarrow> find_info args = None"
  by (induction args) (auto simp: known_options_def)

lemma scan_args_None: "list_all (\<lambda>a. a \<noteq> name) args \<Longrightarrow> scan_args name accept args = None"
  by (induction name accept args rule: scan_args.induct) auto

lemma unknown_arguments:
  assumes "list_all (\<lambda>a. a \<notin> set known_options) (tl argv)"
  shows "command_line argv = Some default_options"
proof -
  have n: "list_all (\<lambda>a. a \<noteq> name) (tl argv)" if "name \<in> set known_options" for name using assms that by (auto simp: list_all_iff)
  have "list_all (\<lambda>a. a \<noteq> name) (tl argv)" if "name \<in> {''--port'', ''--deviceID'', ''--deviceName'', ''--dcc-password''}" for name
    using that by (intro n) (auto simp: known_options_def)
  moreover have "\<not> list_ex (\<lambda>a. a = ''--no-simulated-alarms'') (tl argv)" "\<not> list_ex (\<lambda>a. a = ''--xmlLog'' \<or> a = ''--xml'') (tl argv)"
    using assms by (auto simp: known_options_def list_ex_iff list_all_iff)
  ultimately show ?thesis
    using find_info_None [OF assms]
    by (simp add: command_line_def HandleHelpAndVersionArgs_def ParsePortArg_def ParseDeviceIdArg_def ParseDeviceNameArg_def ParseXmlLogArg_def
      ParseDccPasswordArg_def DEFAULT_DCC_PASSWORD_def DEFAULT_DEVICE_INSTANCE_def or_default_def default_options_def scan_args_None)
qed

definition mentions :: "string \<Rightarrow> string \<Rightarrow> bool" where
  "mentions name line \<longleftrightarrow> list_ex (\<lambda>k. take (length name) (drop k line) = name) [0, 2, 10]"

lemma options_documented:
  "list_all (\<lambda>name. name = ''/?'' \<or> name = ''--xmlLog'' \<or> list_ex (mentions name) (help_options True True @ own_help)) known_options"
  by (simp add: known_options_def help_options_def own_help_def mentions_def)

lemma undocumented_options: "\<not> list_ex (mentions ''--xmlLog'') (help_options True True @ own_help)"
  by (simp add: help_options_def own_help_def mentions_def)

end
