(* ===== verification/Host_Services.thy ===== *)
theory Host_Services
  imports Main_Loop Frame_Summary
begin

text \<open>
  What the shared helper (\<open>CASExampleHelper.cpp\<close>) asks of the host besides the sockets: the link speed
  of the network interface, the terminal mode around the keyboard, the monotonic clock, and the Windows
  variants of the interface search and of the keyboard. System calls and files are arguments.
\<close>

section \<open>Link speed\<close>

record link_interface = interface +
  if_name :: string

text \<open>
  \<open>fscanf(f, "%ld", &mbps)\<close> on the content of the file: \<open>None\<close> unless one item is converted. A number
  outside \<open>long\<close> is taken as the nearest one, as the GNU library does.
\<close>

definition fscanf_ld :: "string \<Rightarrow> int option" where
  "fscanf_ld content = (case strtol content of (v, rest, e) \<Rightarrow> if length rest = length content then None else Some v)"

text \<open>\<open>(double)mbps * 1000000.0\<close>: two roundings.\<close>

fun f64_times_million :: "fp \<Rightarrow> fp" where
  "f64_times_million (FNum s m e) =
     (if 0 \<le> e then fp_round binary64 s (m * 2 ^ nat e * 1000000) 1 else fp_round binary64 s (m * 1000000) (2 ^ nat (- e)))"
| "f64_times_million v = v"

definition bits_per_second :: "int \<Rightarrow> fp" where
  "bits_per_second mbps = f64_times_million (fp_round binary64 False (nat mbps) 1)"

definition speed_path :: "string \<Rightarrow> string" where
  "speed_path name = snprintf_at 64 '''' (''/sys/class/net/'' @ name @ ''/speed'')"

text \<open>\<open>sysfs\<close> is the content of a file, \<open>None\<close> if it cannot be opened.\<close>

fun link_speed_loop :: "(string \<Rightarrow> string option) \<Rightarrow> link_interface list \<Rightarrow> fp option" where
  "link_speed_loop sysfs [] = None"
| "link_speed_loop sysfs (a # rest) =
     (if \<not> is_inet a then link_speed_loop sysfs rest
      else if is_loopback a \<or> \<not> is_up a then link_speed_loop sysfs rest
      else (case sysfs (speed_path (if_name a)) of
              None \<Rightarrow> link_speed_loop sysfs rest
            | Some content \<Rightarrow>
                (case fscanf_ld content of
                   None \<Rightarrow> link_speed_loop sysfs rest
                 | Some mbps \<Rightarrow> if 0 < mbps then Some (bits_per_second mbps) else link_speed_loop sysfs rest)))"

definition GetPrimaryLinkSpeedBitsPerSecond :: "(string \<Rightarrow> string option) \<Rightarrow> link_interface list option \<Rightarrow> fp option" where
  "GetPrimaryLinkSpeedBitsPerSecond sysfs ifs = (case ifs of None \<Rightarrow> None | Some l \<Rightarrow> link_speed_loop sysfs l)"

definition GetLocalLinkSpeedBitsPerSecond :: "(string \<Rightarrow> string option) \<Rightarrow> link_interface list option \<Rightarrow> fp option" where
  "GetLocalLinkSpeedBitsPerSecond sysfs ifs = GetPrimaryLinkSpeedBitsPerSecond sysfs ifs"

section \<open>The interface search on Windows\<close>

record adapter =
  address_text :: string
  netmask_text :: string

text \<open>
  \<open>inet_pton\<close> is an argument: the four octets of a dotted address. \<open>s_addr & 0xFF\<close> is the first octet
  (the processor is little-endian).
\<close>

fun first_adapter :: "(string \<Rightarrow> u8 list option) \<Rightarrow> adapter list \<Rightarrow> (u8 list \<times> u8 list) option" where
  "first_adapter inet_pton [] = None"
| "first_adapter inet_pton (a # rest) =
     (case inet_pton (address_text a) of
        None \<Rightarrow> first_adapter inet_pton rest
      | Some ip \<Rightarrow>
          (let netmask = (case inet_pton (netmask_text a) of Some m \<Rightarrow> m | None \<Rightarrow> [0, 0, 0, 0])
           in if ip = [0, 0, 0, 0] then first_adapter inet_pton rest
              else if ip ! 0 = 127 then first_adapter inet_pton rest
              else Some (ip, netmask)))"

definition GetPrimaryIPv4_Windows :: "(string \<Rightarrow> u8 list option) \<Rightarrow> adapter list option \<Rightarrow> (u8 list \<times> u8 list) option" where
  "GetPrimaryIPv4_Windows inet_pton adapters = (case adapters of None \<Rightarrow> None | Some l \<Rightarrow> first_adapter inet_pton l)"

text \<open>\<open>GetIfEntry\<close> is an argument: the speed of an adapter.\<close>

fun first_adapter_speed :: "(string \<Rightarrow> u8 list option) \<Rightarrow> (adapter \<Rightarrow> u32 option) \<Rightarrow> adapter list \<Rightarrow> fp option" where
  "first_adapter_speed inet_pton if_entry [] = None"
| "first_adapter_speed inet_pton if_entry (a # rest) =
     (case inet_pton (address_text a) of
        None \<Rightarrow> first_adapter_speed inet_pton if_entry rest
      | Some ip \<Rightarrow>
          (if ip = [0, 0, 0, 0] \<or> ip ! 0 = 127 then first_adapter_speed inet_pton if_entry rest
           else map_option f64_of_u32 (if_entry a)))"

definition GetPrimaryLinkSpeedBitsPerSecond_Windows ::
  "(string \<Rightarrow> u8 list option) \<Rightarrow> (adapter \<Rightarrow> u32 option) \<Rightarrow> adapter list option \<Rightarrow> fp option" where
  "GetPrimaryLinkSpeedBitsPerSecond_Windows inet_pton if_entry adapters =
     (case adapters of None \<Rightarrow> None | Some l \<Rightarrow> first_adapter_speed inet_pton if_entry l)"

section \<open>The keyboard on Windows\<close>

text \<open>The codes \<open>_getch\<close> returns, none if \<open>_kbhit\<close> reports no key.\<close>

definition PollKey_Windows :: "nat list \<Rightarrow> KeyCommand" where
  "PollKey_Windows codes =
     (case codes of
        [] \<Rightarrow> NoKey
      | c # cs \<Rightarrow>
          (let is = \<lambda>l u. c = l \<or> c = u
           in if c = 0 \<or> c = 0xE0
              then (case cs of
                      [] \<Rightarrow> NoKey
                    | c2 # _ \<Rightarrow> if c2 = 72 then ArrowUp else if c2 = 80 then ArrowDown else NoKey)
              else if is 0x68 0x48 then Help
              else if is 0x71 0x51 then Quit
              else if is 0x73 0x53 then DemoAdvance
              else if is 0x77 0x57 then WriteGroupDemo
              else if is 0x64 0x44 then DiscoverRemote
              else if is 0x72 0x52 then RouterAnnounce
              else if is 0x6D 0x4D then Metrics
              else if is 0x6B 0x4B then SimulatedPeerToggle
              else if is 0x6F 0x4F then ContactToggle
              else if is 0x66 0x46 then ForceOpen
              else if is 0x70 0x50 then BadgePulse
              else NoKey))"

section \<open>The terminal\<close>

text \<open>
  The attributes the code changes, and \<open>other_attrs\<close> for all the others. The terminal state: the flag of
  the open file (\<open>O_NONBLOCK\<close>), the attributes (\<open>None\<close> if standard input is not a terminal), and the
  three globals.
\<close>

record termios =
  icanon :: bool
  echo :: bool
  vmin :: nat
  vtime :: nat
  other_attrs :: nat

record terminal =
  nonblock :: bool
  attrs :: "termios option"
  g_origTermios :: "termios option"
  g_rawActive :: bool
  g_stdinConfigured :: bool

definition raw_mode :: "termios \<Rightarrow> termios" where
  "raw_mode t = t\<lparr>icanon := False, echo := False, vmin := 0, vtime := 0\<rparr>"

text \<open>\<open>fcntl_ok\<close>: the flags could be read.\<close>

definition EnableRawInput :: "bool \<Rightarrow> terminal \<Rightarrow> terminal" where
  "EnableRawInput fcntl_ok s =
     (if g_stdinConfigured s then s
      else (let s = s\<lparr>g_stdinConfigured := True\<rparr>;
                s = (if fcntl_ok then s\<lparr>nonblock := True\<rparr> else s)
            in case attrs s of
                 None \<Rightarrow> s
               | Some t \<Rightarrow> s\<lparr>g_origTermios := Some t, attrs := Some (raw_mode t), g_rawActive := True\<rparr>))"

definition RestoreInput :: "terminal \<Rightarrow> terminal" where
  "RestoreInput s = (if g_rawActive s then s\<lparr>attrs := g_origTermios s, g_rawActive := False\<rparr> else s)"

section \<open>The clocks\<close>

text \<open>\<open>clock_gettime\<close> is an argument: seconds and nanoseconds, \<open>None\<close> if it fails.\<close>

definition MonotonicMilliseconds :: "(u64 \<times> u64) option \<Rightarrow> u64" where
  "MonotonicMilliseconds ts = (case ts of None \<Rightarrow> 0 | Some (sec, nsec) \<Rightarrow> sec * 1000 + nsec div 1000000)"

definition HelperGetSystemTime :: "int \<Rightarrow> int" where
  "HelperGetSystemTime now = now"

section \<open>Link speed: lemmas\<close>

lemma fscanf_show_nat: "int n \<le> LONG_MAX \<Longrightarrow> fscanf_ld (show_nat n @ [NEWLINE]) = Some (int n)"
proof -
  assume n: "int n \<le> LONG_MAX"
  obtain c r where c: "show_nat n = c # r" "is_digit c" using show_nat_hd(1) [of n "[]"] by (cases "show_nat n") auto
  have "dropWhile is_space (show_nat n @ [NEWLINE]) = show_nat n @ [NEWLINE]" using c digit_facts(1) by simp
  moreover have "opt_sign (show_nat n @ [NEWLINE]) = (False, show_nat n @ [NEWLINE])" using c digit_facts(2,3) [OF c(2)] by auto
  moreover have "takeWhile is_digit (show_nat n @ [NEWLINE]) = show_nat n" "dropWhile is_digit (show_nat n @ [NEWLINE]) = [NEWLINE]"
    using show_nat_digits [of n] digit_facts(11) [of NEWLINE] by (auto simp: takeWhile_append dropWhile_append)
  moreover have "\<not> int n < LONG_MIN" by (simp add: LONG_MIN_def)
  ultimately show ?thesis using n by (simp add: fscanf_ld_def strtol_def)
qed

lemma fp_round_nat: "0 < n \<Longrightarrow> n < 2 ^ 53 \<Longrightarrow> fp_round binary64 s n 1 = fp_make s n 0"
proof -
  assume n: "0 < n" "n < 2 ^ 53"
  obtain m e where me: "odd_norm n 0 = (m, e)" by fastforce
  with odd_norm_shape [OF me] n(1) obtain k where k: "odd m" "n = m * 2 ^ k" "e = int k" by auto
  have "0 < m" using k(1) by (simp add: odd_pos)
  have "bitlen n \<le> 53" using n(2) by (simp add: bitlen_less_pow)
  then have "bitlen m + k \<le> 53" using k(2) \<open>0 < m\<close> by (simp add: bitlen_pow_mult)
  then have "in_format binary64 (FNum s m e)" using k by (simp add: binary64_def)
  then have "fp_round binary64 s n 1 = FNum s m e"
    by (rule fp_round_exact) (use \<open>0 < m\<close> k in \<open>simp_all add: power_int_def\<close>)
  then show ?thesis by (simp add: fp_make_def me)
qed

lemma bits_per_second_exact:
  assumes "0 < n" "n * 1000000 < 2 ^ 53"
  shows "bits_per_second (int n) = fp_make False (n * 1000000) 0"
proof -
  obtain m e where me: "odd_norm n 0 = (m, e)" by fastforce
  with odd_norm_shape [OF me] assms(1) have e: "0 \<le> e" "m * 2 ^ nat e = n" by auto
  have "fp_round binary64 False n 1 = FNum False m e" using fp_round_nat [of n False] assms me by (simp add: fp_make_def)
  then show ?thesis using fp_round_nat [of "n * 1000000" False] assms e by (simp add: bits_per_second_def)
qed

definition usable :: "'a interface_scheme \<Rightarrow> bool" where
  "usable a \<longleftrightarrow> is_inet a \<and> \<not> is_loopback a \<and> is_up a"

lemma link_speed_skip: "list_all (\<lambda>a. \<not> usable a) pre \<Longrightarrow> link_speed_loop sysfs (pre @ l) = link_speed_loop sysfs l"
  by (induction pre) (auto simp: usable_def)

lemma first_interface_skip: "list_all (\<lambda>a. \<not> usable a) pre \<Longrightarrow> first_interface (map interface.truncate pre @ l) = first_interface l"
  by (induction pre) (auto simp: usable_def interface.truncate_def)

text \<open>
  The speed is not always that of the interface whose address is used: when the first interface has no
  readable speed, the loop goes on to the next one, whereas the address stays that of the first.
\<close>

lemma link_speed_of_another_interface:
  assumes "list_all usable [a, b]" "sysfs (speed_path (if_name a)) = None" "sysfs (speed_path (if_name b)) = Some (show_nat 1000 @ [NEWLINE])"
  shows "GetPrimaryIPv4 (Some (map interface.truncate [a, b])) = Some (if_addr a, case if_netmask a of None \<Rightarrow> [0, 0, 0, 0] | Some m \<Rightarrow> m) \<and>
    GetPrimaryLinkSpeedBitsPerSecond sysfs (Some [a, b]) = Some (fp_make False 1000000000 0)"
  using assms fscanf_show_nat [of 1000] bits_per_second_exact [of 1000]
  by (simp add: usable_def GetPrimaryIPv4_def GetPrimaryLinkSpeedBitsPerSecond_def interface.truncate_def LONG_MAX_def)

section \<open>Windows: lemmas\<close>

text \<open>The address chosen is a real one: neither zero nor a loopback address.\<close>

lemma windows_address_usable: "GetPrimaryIPv4_Windows p l = Some (ip, m) \<Longrightarrow> ip \<noteq> [0, 0, 0, 0] \<and> ip ! 0 \<noteq> 127"
proof -
  have "first_adapter p l = Some (ip, m) \<Longrightarrow> ip \<noteq> [0, 0, 0, 0] \<and> ip ! 0 \<noteq> 127" for l
    by (induction p l rule: first_adapter.induct) (auto simp: Let_def split: option.splits if_splits)
  then show "GetPrimaryIPv4_Windows p l = Some (ip, m) \<Longrightarrow> ip \<noteq> [0, 0, 0, 0] \<and> ip ! 0 \<noteq> 127"
    by (auto simp: GetPrimaryIPv4_Windows_def split: option.splits)
qed

text \<open>The two keyboards agree on every key that is not an escape sequence, and on the arrows.\<close>

lemma keyboards_agree:
  assumes "c \<noteq> 0" "c \<noteq> 0xE0"
  shows "PollKey_Windows [unat c] = PollKey [c]" "PollKey_Windows [0xE0, 72] = PollKey [27, 91, 65]" "PollKey_Windows [0xE0, 80] = PollKey [27, 91, 66]"
proof -
  have eq: "unat c = n \<longleftrightarrow> c = word_of_nat n" if "n < 256" for n
    using that by (auto simp: unsigned_of_nat take_bit_nat_eq_self)
  show "PollKey_Windows [unat c] = PollKey [c]"
    using assms by (simp add: PollKey_Windows_def PollKey_def Let_def eq)
qed (simp_all add: PollKey_Windows_def PollKey_def)

section \<open>Clock: lemmas\<close>

text \<open>The milliseconds never run backwards while the seconds stay below 2 to the 50 (35 million years).\<close>

lemma MonotonicMilliseconds_value:
  assumes "unat sec < 2 ^ 50" "unat nsec < 1000000000"
  shows "unat (MonotonicMilliseconds (Some (sec, nsec))) = unat sec * 1000 + unat nsec div 1000000"
proof -
  have "unat (sec * 1000) = unat sec * 1000" using assms(1) by (subst unat_mult_lem [THEN iffD1]) simp_all
  moreover have d: "unat (nsec div 1000000) = unat nsec div 1000000" by (simp add: unat_div)
  moreover have "unat nsec div 1000000 < 1000" using assms(2) by auto
  ultimately show ?thesis
    using assms(1) by (simp add: MonotonicMilliseconds_def) (subst unat_add_lem [THEN iffD1]; simp)
qed

lemma MonotonicMilliseconds_mono:
  assumes "unat s' < 2 ^ 50" "unat n < 1000000000" "unat n' < 1000000000" "s < s' \<or> s = s' \<and> n \<le> n'"
  shows "MonotonicMilliseconds (Some (s, n)) \<le> MonotonicMilliseconds (Some (s', n'))"
proof -
  have s: "unat s < 2 ^ 50" using assms(1,4) by (auto simp: word_less_nat_alt)
  have "unat n div 1000000 < 1000" using assms(2) by auto
  moreover have "unat n div 1000000 \<le> unat n' div 1000000" if "n \<le> n'" using that by (simp add: word_le_nat_alt div_le_mono)
  ultimately show ?thesis
    using assms(4) by (auto simp: word_le_nat_alt word_less_nat_alt MonotonicMilliseconds_value [OF s assms(2)]
        MonotonicMilliseconds_value [OF assms(1,3)])
qed

section \<open>The terminal: every sequence of polls and restores\<close>

datatype terminal_label = Poll | Restore

inductive terminal_step :: "bool \<Rightarrow> terminal \<Rightarrow> terminal_label \<Rightarrow> terminal \<Rightarrow> bool" for ok :: bool where
  poll: "terminal_step ok s Poll (EnableRawInput ok s)"
| restore: "terminal_step ok s Restore (RestoreInput s)"

definition fresh_terminal :: "termios option \<Rightarrow> terminal \<Rightarrow> bool" where
  "fresh_terminal orig s \<longleftrightarrow> attrs s = orig \<and> \<not> g_rawActive s \<and> \<not> g_stdinConfigured s"

definition terminal_inv :: "termios option \<Rightarrow> bool \<Rightarrow> terminal \<Rightarrow> bool" where
  "terminal_inv orig ok s \<longleftrightarrow>
     attrs s = (if g_rawActive s then map_option raw_mode orig else orig) \<and>
     (g_rawActive s \<longrightarrow> g_stdinConfigured s \<and> g_origTermios s = orig) \<and>
     (ok \<and> g_stdinConfigured s \<longrightarrow> nonblock s)"

lemma EnableRawInput_inv: "terminal_inv orig ok s \<Longrightarrow> terminal_inv orig ok (EnableRawInput ok s)"
  by (auto simp: terminal_inv_def EnableRawInput_def Let_def split: option.split)

lemma RestoreInput_inv: "terminal_inv orig ok s \<Longrightarrow> terminal_inv orig ok (RestoreInput s)"
  by (auto simp: terminal_inv_def RestoreInput_def)

lemma EnableRawInput_configured: "g_stdinConfigured (EnableRawInput ok s)"
  by (auto simp: EnableRawInput_def Let_def split: option.split)

lemma RestoreInput_attrs: "terminal_inv orig ok s \<Longrightarrow> attrs (RestoreInput s) = orig"
  by (auto simp: terminal_inv_def RestoreInput_def)

interpretation tty: invariant_system "fresh_terminal orig" "terminal_step ok" "terminal_inv orig ok" for orig ok
proof
  show "terminal_inv orig ok s" if "fresh_terminal orig s" for s
    using that by (simp add: fresh_terminal_def terminal_inv_def)
  show "terminal_inv orig ok t" if "terminal_inv orig ok s" "terminal_step ok s l t" for s l t
    using that(2,1) by cases (auto simp: EnableRawInput_inv RestoreInput_inv)
qed

text \<open>
  The terminal is given back: after any sequence of polls and restores, a final \<open>RestoreInput\<close> leaves the
  attributes standard input had at the start, whether it is a terminal or not. And if the file flags
  can be changed, the read of a poll never blocks.
\<close>

lemma terminal_restored:
  assumes "reach (fresh_terminal orig) (terminal_step ok) s"
  shows "attrs (RestoreInput s) = orig \<and> (ok \<longrightarrow> nonblock (EnableRawInput ok s))"
proof -
  note inv = tty.reach_inv [OF assms]
  with RestoreInput_attrs EnableRawInput_inv [OF inv] EnableRawInput_configured [of ok s] show ?thesis
    by (auto simp: terminal_inv_def [of orig ok "EnableRawInput ok s"])
qed

text \<open>A terminal in its usual mode.\<close>

definition cooked :: termios where
  "cooked = \<lparr>icanon = True, echo = True, vmin = 1, vtime = 0, other_attrs = 7\<rparr>"

definition shell_terminal :: terminal where
  "shell_terminal = \<lparr>nonblock = False, attrs = Some cooked, g_origTermios = None, g_rawActive = False, g_stdinConfigured = False\<rparr>"

text \<open>The flag of the file is not given back: after the restore a read of standard input still does not block.\<close>

lemma restore_leaves_nonblocking: "nonblock (RestoreInput (EnableRawInput True shell_terminal)) \<and> \<not> nonblock shell_terminal"
  by (simp add: shell_terminal_def EnableRawInput_def RestoreInput_def Let_def)

end
