(* ===== verification/Callback_Interface.thy ===== *)
theory Callback_Interface
  imports Setup_Calls Host_Services
begin

text \<open>
  The callbacks that answer the stack without changing the application's state, as one interface beside
  the events of \<open>Main_Loop\<close> that change it: \<open>answer_query\<close> dispatches a call to the callback registered
  for it. Together with the two callbacks of the transport these are all the callbacks the program
  registers. A call that names another device changes nothing and is declined by all of them.
\<close>

section \<open>Queries\<close>

text \<open>The first argument is the device instance, where the callback has one.\<close>

datatype (plugins only: code size) query =
    SystemTimeQuery
  | RealQuery u32 u16 u32 u32 bool u32
  | EnumeratedQuery u32 u16 u32 u32 bool u32
  | UnsignedQuery u32 u16 u32 u32 bool u32
  | TextQuery u32 u16 u32 u32 u32 bool u32
  | BoolQuery u32 u16 u32 u32 bool u32
  | OctetsQuery u32 u16 u32 u32 u32
  | DateQuery u32 u16 u32 u32
  | TimeQuery u32 u16 u32 u32
  | FaultsQuery u32 u16 u32 u32 u32
  | LandingCallsQuery u32 u32 u32 u32
  | AssignedCallsQuery u32 u32 u32 u32
  | CarCallsQuery u32 u32 u32 u32
  | DoorsQuery u32 u32 u32 u32
  | ControlQuery u32 "u8 list option" u8
  | AcknowledgeQuery u32 u16 u32
  | ReadFileQuery u32 u32 u32 u32 u32
  | CompleteBackupQuery u32

datatype (plugins only: code size) answer =
    SecondsAnswer int
  | RealAnswer "fp callback"
  | UnsignedAnswer "u32 callback"
  | TextAnswer "(string \<times> u8) callback"
  | BoolAnswer "bool callback"
  | OctetsAnswer "u8 list callback"
  | MomentAnswer "(u8 \<times> u8 \<times> u8 \<times> u8) callback"
  | FaultAnswer "(u32 \<times> bool) option"
  | CallAnswer "(landing_call_status \<times> bool) option"
  | FloorAnswer "((u8 \<times> u32) \<times> bool) option"
  | CarCallAnswer "(u8 \<times> bool) option"
  | AcceptAnswer "unit callback"
  | FileAnswer "(string \<times> bool) option"
  | DoneAnswer bool

text \<open>\<open>None\<close> is undefined behaviour of the callback.\<close>

fun answer_query :: "config \<Rightarrow> host \<Rightarrow> device \<Rightarrow> query \<Rightarrow> answer option" where
  "answer_query cfg h st SystemTimeQuery = Some (SecondsAnswer (HelperGetSystemTime (clock_s h)))"
| "answer_query cfg h st (RealQuery di ot oi p b i) = Some (RealAnswer (GetPropertyReal cfg st di ot oi p b i))"
| "answer_query cfg h st (EnumeratedQuery di ot oi p b i) = map_option UnsignedAnswer (GetPropertyEnumerated cfg st di ot oi p b i)"
| "answer_query cfg h st (UnsignedQuery di ot oi p b i) = map_option UnsignedAnswer (GetPropertyUnsignedInteger cfg st di ot oi p b i)"
| "answer_query cfg h st (TextQuery di ot oi p n b i) = Some (TextAnswer (GetPropertyCharString cfg di ot oi p n b i))"
| "answer_query cfg h st (BoolQuery di ot oi p b i) = Some (BoolAnswer (GetPropertyBool cfg st di ot oi p b i))"
| "answer_query cfg h st (OctetsQuery di ot oi p n) = Some (OctetsAnswer (GetPropertyOctetString cfg di ot oi p n))"
| "answer_query cfg h st (DateQuery di ot oi p) = Some (MomentAnswer
     (GetPropertyDate (localtime_of h) (clock_s h) (g_clockOffsetSeconds st) (g_fileModificationDate (ivory_file st)) (g_deviceInstance cfg) di ot oi p))"
| "answer_query cfg h st (TimeQuery di ot oi p) = Some (MomentAnswer
     (GetPropertyTime (localtime_of h) (clock_s h) (g_clockOffsetSeconds st) (g_fileModificationDate (ivory_file st)) (g_deviceInstance cfg) di ot oi p))"
| "answer_query cfg h st (FaultsQuery di ot oi p before) = Some (FaultAnswer (GetListOfEnumerations (g_deviceInstance cfg) di ot oi p before))"
| "answer_query cfg h st (LandingCallsQuery di grp p i) = Some (CallAnswer (GetListElevatorGroupLandingCallStatus (g_deviceInstance cfg) (elev st) di grp p i))"
| "answer_query cfg h st (AssignedCallsQuery di oi door i) = Some (FloorAnswer (GetSequenceLiftAssignedLandingCall (g_deviceInstance cfg) (g_liftCar (elev st)) di oi door i))"
| "answer_query cfg h st (CarCallsQuery di oi door i) = Some (CarCallAnswer (GetSequenceLiftRegisteredCarCall (g_deviceInstance cfg) (g_liftCar (elev st)) di oi door i))"
| "answer_query cfg h st (DoorsQuery di oi door i) = Some (FloorAnswer (GetSequenceLiftLandingDoorStatus (g_deviceInstance cfg) (g_liftCar (elev st)) di oi door i))"
| "answer_query cfg h st (ControlQuery di pw n) = Some (AcceptAnswer (DeviceCommunicationControl (g_deviceInstance cfg) (g_dccPassword cfg) di pw n))"
| "answer_query cfg h st (AcknowledgeQuery di ot oi) = Some (AcceptAnswer (AcknowledgeAlarm (g_deviceInstance cfg) di ot oi))"
| "answer_query cfg h st (ReadFileQuery di fi start cnt n) = Some (FileAnswer (ReadFile (g_deviceInstance cfg) (ivory_file st) di fi start cnt n))"
| "answer_query cfg h st (CompleteBackupQuery di) = Some (DoneAnswer (CompleteBackup (g_deviceInstance cfg) di))"

section \<open>Which callback a call is\<close>

fun callback_of_query :: "query \<Rightarrow> stack_callback" where
  "callback_of_query SystemTimeQuery = CbGetSystemTime"
| "callback_of_query (RealQuery _ _ _ _ _ _) = CbGetPropertyReal"
| "callback_of_query (EnumeratedQuery _ _ _ _ _ _) = CbGetPropertyEnumerated"
| "callback_of_query (UnsignedQuery _ _ _ _ _ _) = CbGetPropertyUnsignedInteger"
| "callback_of_query (TextQuery _ _ _ _ _ _ _) = CbGetPropertyCharacterString"
| "callback_of_query (BoolQuery _ _ _ _ _ _) = CbGetPropertyBool"
| "callback_of_query (OctetsQuery _ _ _ _ _) = CbGetPropertyOctetString"
| "callback_of_query (DateQuery _ _ _ _) = CbGetPropertyDate"
| "callback_of_query (TimeQuery _ _ _ _) = CbGetPropertyTime"
| "callback_of_query (FaultsQuery _ _ _ _ _) = CbGetListOfEnumerations"
| "callback_of_query (LandingCallsQuery _ _ _ _) = CbGetListElevatorGroupLandingCallStatus"
| "callback_of_query (AssignedCallsQuery _ _ _ _) = CbGetSequenceLiftAssignedLandingCall"
| "callback_of_query (CarCallsQuery _ _ _ _) = CbGetSequenceLiftRegisteredCarCall"
| "callback_of_query (DoorsQuery _ _ _ _) = CbGetSequenceLiftLandingDoorStatus"
| "callback_of_query (ControlQuery _ _ _) = CbDeviceCommunicationControl"
| "callback_of_query (AcknowledgeQuery _ _ _) = CbAcknowledgeAlarm"
| "callback_of_query (ReadFileQuery _ _ _ _ _) = CbReadFile"
| "callback_of_query (CompleteBackupQuery _) = CbCompleteBackup"

fun callback_of_event :: "stack_event \<Rightarrow> stack_callback" where
  "callback_of_event (WriteReal _ _ _ _ _ _) = CbSetPropertyReal"
| "callback_of_event (WriteEnumerated _ _ _ _ _ _) = CbSetPropertyEnumerated"
| "callback_of_event (WriteUnsigned _ _ _ _ _ _) = CbSetPropertyUnsignedInteger"
| "callback_of_event (WriteBool _ _ _ _ _) = CbSetPropertyBool"
| "callback_of_event (WriteNull _ _ _ _ _) = CbSetPropertyNull"
| "callback_of_event (CreateEvent _ _ _) = CbCreateObject"
| "callback_of_event (DeleteEvent _ _ _) = CbDeleteObject"
| "callback_of_event (WriteFileEvent _ _ _ _ _) = CbWriteFile"
| "callback_of_event (PrepareBackupEvent _) = CbPrepareBackup"
| "callback_of_event (PrepareRestoreEvent _) = CbPrepareRestore"
| "callback_of_event (CompleteRestoreEvent _ _) = CbCompleteRestore"
| "callback_of_event (LandingCallEvent _ _ _ _ _ _) = CbSetElevatorGroupLandingCallControl"
| "callback_of_event (SetTimeEvent _ _ _ _ _ _ _) = CbSetSystemTime"
| "callback_of_event (ReinitializeEvent _ _ _ _) = CbReinitializeDevice"

text \<open>Every registered callback is one of the model, and the other way round.\<close>

lemma callbacks_modelled:
  "set registered_callbacks = {CbReceiveMessageForPort, CbSendMessageForPort} \<union> range callback_of_query \<union> range callback_of_event"
proof
  note in_range = callback_of_query.simps [THEN sym, THEN range_eqI [of _ callback_of_query]]
    callback_of_event.simps [THEN sym, THEN range_eqI [of _ callback_of_event]]
  show "set registered_callbacks \<subseteq> {CbReceiveMessageForPort, CbSendMessageForPort} \<union> range callback_of_query \<union> range callback_of_event"
    by (simp add: registered_callbacks_def RegisterCommonCallbacks_def in_range)
  have "callback_of_query q \<in> set registered_callbacks" for q
    by (cases q) (simp_all add: registered_callbacks_def RegisterCommonCallbacks_def)
  moreover have "callback_of_event e \<in> set registered_callbacks" for e
    by (cases e) (simp_all add: registered_callbacks_def RegisterCommonCallbacks_def)
  moreover have "{CbReceiveMessageForPort, CbSendMessageForPort} \<subseteq> set registered_callbacks"
    by (simp add: registered_callbacks_def RegisterCommonCallbacks_def)
  ultimately show "{CbReceiveMessageForPort, CbSendMessageForPort} \<union> range callback_of_query \<union> range callback_of_event \<subseteq> set registered_callbacks"
    by blast
qed

section \<open>Calls for another device\<close>

fun query_device :: "query \<Rightarrow> u32 option" where
  "query_device SystemTimeQuery = None"
| "query_device (RealQuery di _ _ _ _ _) = Some di"
| "query_device (EnumeratedQuery di _ _ _ _ _) = Some di"
| "query_device (UnsignedQuery di _ _ _ _ _) = Some di"
| "query_device (TextQuery di _ _ _ _ _ _) = Some di"
| "query_device (BoolQuery di _ _ _ _ _) = Some di"
| "query_device (OctetsQuery di _ _ _ _) = Some di"
| "query_device (DateQuery di _ _ _) = Some di"
| "query_device (TimeQuery di _ _ _) = Some di"
| "query_device (FaultsQuery di _ _ _ _) = Some di"
| "query_device (LandingCallsQuery di _ _ _) = Some di"
| "query_device (AssignedCallsQuery di _ _ _) = Some di"
| "query_device (CarCallsQuery di _ _ _) = Some di"
| "query_device (DoorsQuery di _ _ _) = Some di"
| "query_device (ControlQuery di _ _) = Some di"
| "query_device (AcknowledgeQuery di _ _) = Some di"
| "query_device (ReadFileQuery di _ _ _ _) = Some di"
| "query_device (CompleteBackupQuery di) = Some di"

fun event_device :: "stack_event \<Rightarrow> u32" where
  "event_device (WriteReal di _ _ _ _ _) = di"
| "event_device (WriteEnumerated di _ _ _ _ _) = di"
| "event_device (WriteUnsigned di _ _ _ _ _) = di"
| "event_device (WriteBool di _ _ _ _) = di"
| "event_device (WriteNull di _ _ _ _) = di"
| "event_device (CreateEvent di _ _) = di"
| "event_device (DeleteEvent di _ _) = di"
| "event_device (WriteFileEvent di _ _ _ _) = di"
| "event_device (PrepareBackupEvent di) = di"
| "event_device (PrepareRestoreEvent di) = di"
| "event_device (CompleteRestoreEvent di _) = di"
| "event_device (LandingCallEvent di _ _ _ _ _) = di"
| "event_device (SetTimeEvent di _ _ _ _ _ _) = di"
| "event_device (ReinitializeEvent di _ _ _) = di"

fun declined :: "answer \<Rightarrow> bool" where
  "declined (SecondsAnswer n) \<longleftrightarrow> False"
| "declined (RealAnswer r) \<longleftrightarrow> (\<exists>e. r = Inl e)"
| "declined (UnsignedAnswer r) \<longleftrightarrow> (\<exists>e. r = Inl e)"
| "declined (TextAnswer r) \<longleftrightarrow> (\<exists>e. r = Inl e)"
| "declined (BoolAnswer r) \<longleftrightarrow> (\<exists>e. r = Inl e)"
| "declined (OctetsAnswer r) \<longleftrightarrow> (\<exists>e. r = Inl e)"
| "declined (MomentAnswer r) \<longleftrightarrow> (\<exists>e. r = Inl e)"
| "declined (FaultAnswer r) \<longleftrightarrow> r = None"
| "declined (CallAnswer r) \<longleftrightarrow> r = None"
| "declined (FloorAnswer r) \<longleftrightarrow> r = None"
| "declined (CarCallAnswer r) \<longleftrightarrow> r = None"
| "declined (AcceptAnswer r) \<longleftrightarrow> (\<exists>e. r = Inl e)"
| "declined (FileAnswer r) \<longleftrightarrow> r = None"
| "declined (DoneAnswer b) \<longleftrightarrow> \<not> b"

lemma foreign_query:
  "query_device q = Some di \<Longrightarrow> di \<noteq> g_deviceInstance cfg \<Longrightarrow> \<exists>a. answer_query cfg h st q = Some a \<and> declined a"
  by (cases q)
    (auto simp: GetPropertyReal_def GetPropertyEnumerated_def GetPropertyUnsignedInteger_def GetPropertyCharString_def GetPropertyBool_def
      GetPropertyOctetString_def GetPropertyDate_def GetPropertyTime_def GetListOfEnumerations_def GetListElevatorGroupLandingCallStatus_def
      GetSequenceLiftAssignedLandingCall_def GetSequenceLiftRegisteredCarCall_def GetSequenceLiftLandingDoorStatus_def
      DeviceCommunicationControl_def AcknowledgeAlarm_def ReadFile_def CompleteBackup_def Let_def)

lemma foreign_event: "event_device e \<noteq> g_deviceInstance cfg \<Longrightarrow> handle_event cfg h e st = Some st"
  by (cases e)
    (auto simp: accepted_def SetPropertyReal_def SetPropertyEnumerated_def SetPropertyUnsignedInteger_def SetPropertyBool_def SetPropertyNull_def
      CreateObject_def DeleteObject_def WriteFile_def PrepareBackup_def PrepareRestore_def CompleteRestore_def
      SetElevatorGroupLandingCallControl_def SetSystemTime_def ReinitializeDevice_def)

section \<open>Every query is answered\<close>

lemma answer_query_defined: "device_inv st \<Longrightarrow> \<exists>a. answer_query cfg h st q = Some a"
  using conversions_defined [of st cfg] by (cases q) auto

section \<open>Properties\<close>

text \<open>
  C39. Calls that name another device: the callbacks the program registers are the two of the transport, the
  queries and the state-changing events; every event that names a device other than this one leaves the
  whole state as it is, and every query that names one is declined.
\<close>

theorem foreign_calls_ignored:
  "set registered_callbacks = {CbReceiveMessageForPort, CbSendMessageForPort} \<union> range callback_of_query \<union> range callback_of_event \<and>
   (event_device e \<noteq> g_deviceInstance cfg \<longrightarrow> handle_event cfg h e st = Some st) \<and>
   (\<forall>di. query_device q = Some di \<and> di \<noteq> g_deviceInstance cfg \<longrightarrow> (\<exists>a. answer_query cfg h st q = Some a \<and> declined a))"
  using callbacks_modelled foreign_event foreign_query by blast

text \<open>Witness: a backup and a reading of the alarm of device 1, on device 389014.\<close>

theorem foreign_calls_ignored_witness:
  "handle_event cfg0 example_host (PrepareBackupEvent 1) device_init = Some device_init \<and>
   (\<exists>a. answer_query cfg0 example_host device_init (BoolQuery 1 OBJECT_TYPE_LIFT 1 PROPERTY_IDENTIFIER_PASSENGER_ALARM False 0) = Some a \<and> declined a)"
proof -
  have d: "g_deviceInstance cfg0 = 389014" by (simp add: cfg0_def)
  show ?thesis
    using foreign_calls_ignored [of "PrepareBackupEvent 1" cfg0 example_host device_init "BoolQuery 1 OBJECT_TYPE_LIFT 1 PROPERTY_IDENTIFIER_PASSENGER_ALARM False 0"]
    unfolding d by (simp del: handle_event.simps answer_query.simps)
qed

end
