(* ===== verification/Wire_Log.thy ===== *)
theory Wire_Log
  imports Transport Frame_Summary
begin

text \<open>
  The transport callbacks of \<open>CASExampleHelper.cpp\<close> with the lines they print: every message handed to
  the stack and every datagram handed to a socket has an entry in the frame log. \<open>net_step\<close> is one
  callback of the stack (or datagrams reaching the host), \<open>run_net\<close> a sequence of them; \<open>None\<close> is a read
  outside a frame.
\<close>

section \<open>Entries\<close>

datatype net_output =
    Rx received
  | Tx packet
  | Printed string

definition dotted :: "u8 list \<Rightarrow> string" where
  "dotted ip = fmt_u8 (ip ! 0) @ ''.'' @ fmt_u8 (ip ! 1) @ ''.'' @ fmt_u8 (ip ! 2) @ ''.'' @ fmt_u8 (ip ! 3)"

definition entry_head :: "string \<Rightarrow> nat \<Rightarrow> string \<Rightarrow> u8 list \<Rightarrow> u16 \<Rightarrow> string \<Rightarrow> u32 \<Rightarrow> string" where
  "entry_head way n link ip port remark inst =
     way @ show_nat n @ '' bytes '' @ link @ dotted ip @ '':'' @ fmt_u16 port @ remark @ '' (Network Port '' @ fmt_u inst @ '')''"

text \<open>The sender's address and port are those of the connection string.\<close>

definition rx_head :: "received \<Rightarrow> string" where
  "rx_head r =
     (let conn = sourceConnectionString r
      in entry_head ''RX '' (length (message r)) ''from '' (take 4 conn) (be16 (conn ! 4) (conn ! 5)) '''' (arrivedOn r))"

definition tx_head :: "u16 \<Rightarrow> u8 list \<Rightarrow> u16 \<Rightarrow> string \<Rightarrow> u32 \<Rightarrow> string" where
  "tx_head sent ip port remark inst = entry_head ''TX '' (unat sent) ''to '' ip port remark inst"

section \<open>The callbacks with their log\<close>

definition receive_logged :: "bool \<Rightarrow> u16 \<Rightarrow> u8 \<Rightarrow> transport \<Rightarrow> (transport \<times> net_output list) option" where
  "receive_logged xml m c t =
     (case HelperReceiveMessage m c t of
        (None, t) \<Rightarrow> Some (t, [])
      | (Some r, t) \<Rightarrow> do { frame \<leftarrow> LogBacnetFrame xml (message r); Some (t, [Printed (rx_head r @ frame), Rx r]) })"

text \<open>One \<open>Send\<close> with its entry.\<close>

definition send_entry :: "bool \<Rightarrow> (packet \<Rightarrow> int) \<Rightarrow> udp_binding \<Rightarrow> u8 list \<Rightarrow> u16 \<Rightarrow> string \<Rightarrow> u32 \<Rightarrow> u8 list \<Rightarrow> net_output list option" where
  "send_entry xml sendto b ip port remark inst msg =
     (let (sent, out) = Send sendto (udp b) ip port msg
      in do { frame \<leftarrow> LogBacnetFrame xml msg; Some (map Tx out @ [Printed (tx_head sent ip port remark inst @ frame)]) })"

definition send_logged ::
  "bool \<Rightarrow> interface list option \<Rightarrow> (packet \<Rightarrow> int) \<Rightarrow> transport \<Rightarrow> u8 list \<Rightarrow> u8 list \<Rightarrow> u32 \<Rightarrow> bool \<Rightarrow> net_output list option" where
  "send_logged xml ifs sendto t msg conn inst broadcast =
     (case FindUdpBindingByInstance inst t of
        None \<Rightarrow> Some []
      | Some i \<Rightarrow>
          (let b = bindings t ! i
           in if \<not> bound b then Some []
              else (case destination_of ifs b conn broadcast of
                      None \<Rightarrow> Some []
                    | Some (ip, port) \<Rightarrow> do {
                        first \<leftarrow> send_entry xml sendto b ip port (if conn = [] \<or> broadcast then '' (broadcast)'' else '''') inst msg;
                        copied \<leftarrow> (if conn = [] \<and> hasPeer b then IsStackChosenBroadcast msg else Some False);
                        second \<leftarrow> (if copied then send_entry xml sendto b (peerIp b) (peerPort b) '' (peer on another port)'' inst msg else Some []);
                        Some (first @ second) })))"

text \<open>What reaches the transport: calls of the stack, and datagrams.\<close>

datatype net_event =
    ReceiveCall u16 u8
  | SendCall "interface list option" "packet \<Rightarrow> int" "u8 list" "u8 list" u32 bool
  | Arrival "nat \<Rightarrow> datagram list"

fun net_step :: "bool \<Rightarrow> net_event \<Rightarrow> transport \<Rightarrow> (transport \<times> net_output list) option" where
  "net_step xml (ReceiveCall m c) t = receive_logged xml m c t"
| "net_step xml (SendCall ifs sendto msg conn inst broadcast) t =
     map_option (Pair t) (send_logged xml ifs sendto t msg conn inst broadcast)"
| "net_step xml (Arrival news) t = Some (arrive news t, [])"

fun run_net :: "bool \<Rightarrow> net_event list \<Rightarrow> transport \<Rightarrow> (transport \<times> net_output list) option" where
  "run_net xml [] t = Some (t, [])"
| "run_net xml (e # es) t = do { (t, out) \<leftarrow> net_step xml e t; (t, rest) \<leftarrow> run_net xml es t; Some (t, out @ rest) }"

section \<open>The log is total and says what the callbacks do\<close>

lemma LogBacnetFrame_total: "\<exists>s. LogBacnetFrame xml frame = Some s"
  using DecodeBacnetFrame_total [of frame] by (auto simp: LogBacnetFrame_def PrintFrameAsXml_def SummarizeBacnetFrame_def)

text \<open>Traffic and console of an output.\<close>

definition sent_packets :: "net_output list \<Rightarrow> packet list" where
  "sent_packets out = concat (map (\<lambda>e. case e of Tx p \<Rightarrow> [p] | _ \<Rightarrow> []) out)"

definition messages_on :: "u32 \<Rightarrow> net_output list \<Rightarrow> (u8 list \<times> u8 list) list" where
  "messages_on inst out =
     concat (map (\<lambda>e. case e of Rx r \<Rightarrow> if arrivedOn r = inst then [(message r, sourceConnectionString r)] else [] | _ \<Rightarrow> []) out)"

text \<open>Every message and every datagram has its entry, and nothing else is printed.\<close>

fun well_logged :: "bool \<Rightarrow> net_output list \<Rightarrow> bool" where
  "well_logged xml [] \<longleftrightarrow> True"
| "well_logged xml (Printed s # Rx r # out) \<longleftrightarrow> Some s = map_option ((@) (rx_head r)) (LogBacnetFrame xml (message r)) \<and> well_logged xml out"
| "well_logged xml (Tx p # Printed s # out) \<longleftrightarrow>
     (\<exists>sent remark inst. Some s = map_option ((@) (tx_head sent (to_ip p) (to_port p) remark inst)) (LogBacnetFrame xml (payload p))) \<and>
     well_logged xml out"
| "well_logged xml _ \<longleftrightarrow> False"

lemma well_logged_append: "well_logged xml a \<Longrightarrow> well_logged xml b \<Longrightarrow> well_logged xml (a @ b)"
  by (induction xml a rule: well_logged.induct) auto

lemma sent_packets_append [simp]: "sent_packets (a @ b) = sent_packets a @ sent_packets b" "sent_packets [] = []"
    "sent_packets (Printed s # out) = sent_packets out" "sent_packets (map Tx ps) = ps"
  by (induction ps) (simp_all add: sent_packets_def)

lemma messages_on_append [simp]: "messages_on i (a @ b) = messages_on i a @ messages_on i b" "messages_on i [] = []"
    "messages_on i (Printed s # out) = messages_on i out" "messages_on i (map Tx ps) = []"
    "messages_on i (Rx r # out) = (if arrivedOn r = i then (message r, sourceConnectionString r) # messages_on i out else messages_on i out)"
  by (induction ps) (simp_all add: messages_on_def)

lemma Tx_append [simp]: "sent_packets (Tx p # out) = p # sent_packets out" "messages_on i (Tx p # out) = messages_on i out"
    "sent_packets (Rx r # out) = sent_packets out"
  by (simp_all add: sent_packets_def messages_on_def)

lemma send_entry_facts:
  obtains out where "send_entry xml sendto b ip port remark inst msg = Some out"
    "sent_packets out = snd (Send sendto (udp b) ip port msg)" "\<And>i. messages_on i out = []"
    "m_connected (udp b) \<Longrightarrow> well_logged xml out"
proof -
  obtain f where f: "LogBacnetFrame xml msg = Some f" using LogBacnetFrame_total by blast
  obtain sent ps where s: "Send sendto (udp b) ip port msg = (sent, ps)" by fastforce
  show thesis
  proof (rule that)
    show "send_entry xml sendto b ip port remark inst msg = Some (map Tx ps @ [Printed (tx_head sent ip port remark inst @ f)])"
      by (simp add: send_entry_def s f)
    show "well_logged xml (map Tx ps @ [Printed (tx_head sent ip port remark inst @ f)])" if "m_connected (udp b)"
      using that s f by (auto simp: Send_def Let_def split: if_splits) blast+
  qed (simp_all add: s)
qed

text \<open>The callback that logs sends the datagrams of the one that does not.\<close>

lemma send_logged_facts:
  obtains out where "send_logged xml ifs sendto t msg conn inst broadcast = Some out"
    "sent_packets out = snd (HelperSendMessage ifs sendto t msg conn inst broadcast)" "\<And>i. messages_on i out = []"
    "list_all (\<lambda>b. bound b \<longrightarrow> m_connected (udp b)) (bindings t) \<Longrightarrow> well_logged xml out"
proof (cases "FindUdpBindingByInstance inst t")
  case (Some i)
  let ?b = "bindings t ! i"
  have i: "i < length (bindings t)" using FindUdpBinding_Some(1) [OF Some] .
  consider "\<not> bound ?b \<or> destination_of ifs ?b conn broadcast = None"
    | ip port where "bound ?b" "destination_of ifs ?b conn broadcast = Some (ip, port)" by fastforce
  then show thesis
  proof cases
    case (2 ip port)
    have live: "m_connected (udp ?b)" if "list_all (\<lambda>b. bound b \<longrightarrow> m_connected (udp b)) (bindings t)"
      using that i 2(1) by (simp add: list_all_length)
    obtain c where c: "IsStackChosenBroadcast msg = Some c" using IsStackChosenBroadcast_total by blast
    obtain o1 where o1: "send_entry xml sendto ?b ip port (if conn = [] \<or> broadcast then '' (broadcast)'' else '''') inst msg = Some o1"
        "sent_packets o1 = snd (Send sendto (udp ?b) ip port msg)" "\<And>i. messages_on i o1 = []" "m_connected (udp ?b) \<Longrightarrow> well_logged xml o1"
      by (rule send_entry_facts) (rule that; assumption)
    obtain o2 where o2: "send_entry xml sendto ?b (peerIp ?b) (peerPort ?b) '' (peer on another port)'' inst msg = Some o2"
        "sent_packets o2 = snd (Send sendto (udp ?b) (peerIp ?b) (peerPort ?b) msg)" "\<And>i. messages_on i o2 = []"
        "m_connected (udp ?b) \<Longrightarrow> well_logged xml o2"
      by (rule send_entry_facts) (rule that; assumption)
    show thesis
    proof (rule that)
      show "send_logged xml ifs sendto t msg conn inst broadcast = Some (o1 @ (if conn = [] \<and> hasPeer ?b \<and> c then o2 else []))"
        using Some 2 o1(1) o2(1) c by (simp add: send_logged_def Let_def)
      show "sent_packets (o1 @ (if conn = [] \<and> hasPeer ?b \<and> c then o2 else [])) = snd (HelperSendMessage ifs sendto t msg conn inst broadcast)"
        using Some 2 o1(2) o2(2) c by (simp add: HelperSendMessage_def Let_def split: prod.split)
    qed (use o1(3,4) o2(3,4) live in \<open>auto intro: well_logged_append\<close>)
  qed (rule that [of "[]"]; auto simp: Some send_logged_def HelperSendMessage_def Let_def split: option.split)
qed (rule that [of "[]"]; simp add: send_logged_def HelperSendMessage_def)

lemma receive_logged_facts:
  obtains out where "receive_logged xml m c t = Some (snd (HelperReceiveMessage m c t), out)" "well_logged xml out" "sent_packets out = []"
    "\<And>i. messages_on i out = (case fst (HelperReceiveMessage m c t) of
       Some r \<Rightarrow> if arrivedOn r = i then [(message r, sourceConnectionString r)] else [] | None \<Rightarrow> [])"
proof (cases "HelperReceiveMessage m c t")
  case (Pair r t')
  show thesis
  proof (cases r)
    case (Some x)
    obtain f where "LogBacnetFrame xml (message x) = Some f" using LogBacnetFrame_total by blast
    with Pair Some show thesis by (intro that [of "[Printed (rx_head x @ f), Rx x]"]) (simp_all add: receive_logged_def)
  qed (use Pair in \<open>intro that [of "[]"]; simp add: receive_logged_def\<close>)
qed

section \<open>What the events leave unchanged\<close>

definition link_of :: "udp_binding \<Rightarrow> bool \<times> bool \<times> u16 \<times> u32" where
  "link_of b = (bound b, m_connected (udp b), port_of b, instance_of b)"

lemma poll_bindings_links: "map link_of (snd (poll_bindings m st k n bs)) = map link_of bs"
proof (induction m st k n bs rule: poll_bindings.induct)
  case (2 m st k rounds bs)
  let ?i = "(st + k) mod length bs"
  let ?u = "snd (Receive (udp (bs ! ?i)) m)"
  have "link_of ((bs ! ?i)\<lparr>udp := ?u\<rparr>) = link_of (bs ! ?i)" by (simp add: link_of_def Receive_connected)
  then have "map link_of (bs[?i := (bs ! ?i)\<lparr>udp := ?u\<rparr>]) = map link_of bs"
    by (metis list_update_id map_update)
  with 2 show ?case by (auto simp: Let_def split: prod.split option.split)
qed simp

lemma HelperReceiveMessage_links: "map link_of (bindings (snd (HelperReceiveMessage m c t))) = map link_of (bindings t)"
proof -
  have "link_of (remember_peer inst d b) = link_of b" for inst d b by (simp add: link_of_def remember_peer_def)
  then show ?thesis
    using poll_bindings_links [of m "nextBinding t" 0 "length (bindings t)" "bindings t"]
    by (auto simp: HelperReceiveMessage_def Let_def comp_def split: prod.split option.split)
qed

lemma arrive_links: "map link_of (bindings (arrive news t)) = map link_of (bindings t)"
  by (rule nth_equalityI) (simp_all add: arrive_def link_of_def)

definition sockets_live :: "transport \<Rightarrow> bool" where
  "sockets_live t \<longleftrightarrow> list_all (\<lambda>b. bound b \<longrightarrow> m_connected (udp b)) (bindings t)"

lemma sockets_live_links: "sockets_live t \<longleftrightarrow> list_all (\<lambda>(b, c, p, i). b \<longrightarrow> c) (map link_of (bindings t))"
  by (simp add: sockets_live_def link_of_def list_all_iff)

section \<open>What waits on a socket\<close>

text \<open>
  The messages a socket still has to give, with buffers of \<open>m\<close> octets: the datagrams of its queue, cut to
  the buffer, without the empty ones (which the receive drops).
\<close>

definition as_message :: "u16 \<Rightarrow> datagram \<Rightarrow> (u8 list \<times> u8 list) list" where
  "as_message m d = (if take (unat m) (octets_of d) = [] then [] else [(take (unat m) (octets_of d), connection_string (from_ip d) (from_port d))])"

definition waiting :: "u16 \<Rightarrow> udp_binding \<Rightarrow> (u8 list \<times> u8 list) list" where
  "waiting m b = concat (map (as_message m) (inbox (udp b)))"

lemma waiting_Receive:
  "Receive (udp b) m = (r, u) \<Longrightarrow>
   waiting m b = (case r of Some d \<Rightarrow> [(octets_of d, connection_string (from_ip d) (from_port d))] | None \<Rightarrow> []) @ waiting m (b\<lparr>udp := u\<rparr>)"
  by (auto simp: Receive_def waiting_def as_message_def Let_def split: if_splits list.splits)

lemma poll_bindings_waiting:
  "poll_bindings m st k n bs = (r, bs') \<Longrightarrow> i < length bs \<Longrightarrow>
   waiting m (bs ! i) = (case r of Some (j, d) \<Rightarrow> if j = i then [(octets_of d, connection_string (from_ip d) (from_port d))] else [] | None \<Rightarrow> [])
     @ waiting m (bs' ! i)"
proof (induction m st k n bs arbitrary: r bs' rule: poll_bindings.induct)
  case (2 m st k rounds bs)
  let ?j = "(st + k) mod length bs"
  obtain q u where q: "Receive (udp (bs ! ?j)) m = (q, u)" by fastforce
  have j: "?j < length bs" using 2(4) by (intro mod_less_divisor) linarith
  note w = waiting_Receive [OF q]
  have nth: "bs[?j := (bs ! ?j)\<lparr>udp := u\<rparr>] ! i = (if i = ?j then (bs ! ?j)\<lparr>udp := u\<rparr> else bs ! i)" using j 2(4) by (simp add: nth_list_update)
  show ?case
  proof (cases "bound (bs ! ?j)")
    case False
    with 2 show ?thesis by (simp add: Let_def)
  next
    case True
    show ?thesis
    proof (cases q)
      case None
      have "poll_bindings m st (Suc k) rounds (bs[?j := (bs ! ?j)\<lparr>udp := u\<rparr>]) = (r, bs')" using 2(3) True q None by (simp add: Let_def)
      from "2.IH"(2) [OF refl refl _ q [symmetric] refl refl None _] this 2(4) True w nth None show ?thesis by (auto split: if_splits)
    next
      case (Some d)
      with 2(3) True q have "r = Some (?j, d)" "bs' = bs[?j := (bs ! ?j)\<lparr>udp := u\<rparr>]" by (auto simp: Let_def)
      with w nth Some show ?thesis by auto
    qed
  qed
qed simp

lemma waiting_remember_peer [simp]: "waiting m (remember_peer inst d b) = waiting m b"
  by (simp add: waiting_def remember_peer_def)

lemma receive_waiting:
  assumes "transport_inv t" "i < length (bindings t)"
  shows "waiting m (bindings t ! i) =
    (case fst (HelperReceiveMessage m c t) of
       Some r \<Rightarrow> if arrivedOn r = instance_of (bindings t ! i) then [(message r, sourceConnectionString r)] else [] | None \<Rightarrow> [])
    @ waiting m (bindings (snd (HelperReceiveMessage m c t)) ! i)"
proof (cases "c < 6 \<or> bindings t = []")
  case False
  obtain r bs where p: "poll_bindings m (nextBinding t) 0 (length (bindings t)) (bindings t) = (r, bs)" by fastforce
  note w = poll_bindings_waiting [OF p assms(2)]
  have links: "map link_of bs = map link_of (bindings t)" using poll_bindings_links [of m "nextBinding t" 0 "length (bindings t)" "bindings t"] p by simp
  then have len: "length bs = length (bindings t)" using map_eq_imp_length_eq by blast
  have inst: "instance_of (bs ! j) = instance_of (bindings t ! j)" if "j < length (bindings t)" for j
    using links that len by (auto simp: list_eq_iff_nth_eq link_of_def)
  show ?thesis
  proof (cases r)
    case (Some jd)
    obtain j d where jd: "jd = (j, d)" by fastforce
    have j: "j < length (bindings t)"
      using poll_bindings_first [OF _ order_refl p] False Some jd by (auto intro: mod_less_divisor)
    have "instance_of (bs ! j) = instance_of (bindings t ! i) \<longleftrightarrow> j = i"
      using assms inst [OF j] j by (auto simp: transport_inv_def distinct_conv_nth)
    with False Some jd p w len assms(2) show ?thesis by (simp add: HelperReceiveMessage_def Let_def)
  qed (use False p w in \<open>simp add: HelperReceiveMessage_def Let_def\<close>)
qed (auto simp: HelperReceiveMessage_def)

lemma arrive_waiting:
  "i < length (bindings t) \<Longrightarrow> waiting m (bindings (arrive news t) ! i) = waiting m (bindings t ! i) @ concat (map (as_message m) (news i))"
  by (simp add: waiting_def arrive_def)

fun arrivals :: "u16 \<Rightarrow> nat \<Rightarrow> net_event list \<Rightarrow> (u8 list \<times> u8 list) list" where
  "arrivals m i [] = []"
| "arrivals m i (Arrival news # es) = concat (map (as_message m) (news i)) @ arrivals m i es"
| "arrivals m i (e # es) = arrivals m i es"

fun buffer_of :: "u16 \<Rightarrow> net_event \<Rightarrow> bool" where
  "buffer_of m (ReceiveCall m' c) \<longleftrightarrow> m' = m"
| "buffer_of m _ \<longleftrightarrow> True"

text \<open>One event: it is defined, logged, keeps the links and the table's invariant, and takes messages from the head of the queues only.\<close>

lemma net_step_facts:
  obtains t' out where "net_step xml e t = Some (t', out)" "map link_of (bindings t') = map link_of (bindings t)"
    "sockets_live t \<Longrightarrow> well_logged xml out" "transport_inv t \<Longrightarrow> transport_inv t'"
    "g_port t' = g_port t" "g_networkPortInstance t' = g_networkPortInstance t"
    "\<And>m i. transport_inv t \<Longrightarrow> i < length (bindings t) \<Longrightarrow> buffer_of m e \<Longrightarrow>
       waiting m (bindings t ! i) @ arrivals m i [e] = messages_on (instance_of (bindings t ! i)) out @ waiting m (bindings t' ! i)"
proof (cases e)
  case (ReceiveCall m c)
  obtain out where out: "receive_logged xml m c t = Some (snd (HelperReceiveMessage m c t), out)" "well_logged xml out"
      "\<And>i. messages_on i out = (case fst (HelperReceiveMessage m c t) of
         Some r \<Rightarrow> if arrivedOn r = i then [(message r, sourceConnectionString r)] else [] | None \<Rightarrow> [])"
    by (rule receive_logged_facts) (rule that; assumption)
  show thesis
    by (rule that [of "snd (HelperReceiveMessage m c t)" out])
      (use ReceiveCall out HelperReceiveMessage_links HelperReceiveMessage_inv receive_waiting [of t _ m c] in
        \<open>auto simp: HelperReceiveMessage_def Let_def split: prod.split option.split\<close>)
next
  case (SendCall ifs sendto msg conn inst broadcast)
  obtain out where "send_logged xml ifs sendto t msg conn inst broadcast = Some out" "\<And>i. messages_on i out = []"
      "list_all (\<lambda>b. bound b \<longrightarrow> m_connected (udp b)) (bindings t) \<Longrightarrow> well_logged xml out"
    by (rule send_logged_facts) (rule that; assumption)
  with SendCall show thesis by (intro that [of t out]) (simp_all add: sockets_live_def)
next
  case (Arrival news)
  show thesis
    by (rule that [of "arrive news t" "[]"]) (use Arrival arrive_links arrive_inv arrive_waiting in \<open>auto simp: arrive_def\<close>)
qed

text \<open>A sequence of events.\<close>

lemma run_net_facts:
  obtains t' out where "run_net xml es t = Some (t', out)" "map link_of (bindings t') = map link_of (bindings t)"
    "sockets_live t \<Longrightarrow> well_logged xml out" "transport_inv t \<Longrightarrow> transport_inv t'"
    "g_port t' = g_port t" "g_networkPortInstance t' = g_networkPortInstance t"
    "\<And>m i. transport_inv t \<Longrightarrow> i < length (bindings t) \<Longrightarrow> list_all (buffer_of m) es \<Longrightarrow>
       waiting m (bindings t ! i) @ arrivals m i es = messages_on (instance_of (bindings t ! i)) out @ waiting m (bindings t' ! i)"
proof (induction es arbitrary: t thesis)
  case (Cons e es)
  obtain t1 o1 where 1: "net_step xml e t = Some (t1, o1)" "map link_of (bindings t1) = map link_of (bindings t)"
      "sockets_live t \<Longrightarrow> well_logged xml o1" "transport_inv t \<Longrightarrow> transport_inv t1"
      "g_port t1 = g_port t" "g_networkPortInstance t1 = g_networkPortInstance t"
      "\<And>m i. transport_inv t \<Longrightarrow> i < length (bindings t) \<Longrightarrow> buffer_of m e \<Longrightarrow>
         waiting m (bindings t ! i) @ arrivals m i [e] = messages_on (instance_of (bindings t ! i)) o1 @ waiting m (bindings t1 ! i)"
    by (rule net_step_facts) (rule that; assumption)
  obtain t2 o2 where 2: "run_net xml es t1 = Some (t2, o2)" "map link_of (bindings t2) = map link_of (bindings t1)"
      "sockets_live t1 \<Longrightarrow> well_logged xml o2" "transport_inv t1 \<Longrightarrow> transport_inv t2"
      "g_port t2 = g_port t1" "g_networkPortInstance t2 = g_networkPortInstance t1"
      "\<And>m i. transport_inv t1 \<Longrightarrow> i < length (bindings t1) \<Longrightarrow> list_all (buffer_of m) es \<Longrightarrow>
         waiting m (bindings t1 ! i) @ arrivals m i es = messages_on (instance_of (bindings t1 ! i)) o2 @ waiting m (bindings t2 ! i)"
    by (rule Cons.IH) (rule that; assumption)
  have len: "length (bindings t1) = length (bindings t)" using 1(2) map_eq_imp_length_eq by blast
  have inst: "instance_of (bindings t1 ! i) = instance_of (bindings t ! i)" if "i < length (bindings t)" for i
    using 1(2) that len by (auto simp: list_eq_iff_nth_eq link_of_def)
  have arr: "arrivals m i (e # es) = arrivals m i [e] @ arrivals m i es" for m i by (cases e) simp_all
  show ?case
  proof (rule Cons.prems)
    show "run_net xml (e # es) t = Some (t2, o1 @ o2)" using 1(1) 2(1) by simp
    show "waiting m (bindings t ! i) @ arrivals m i (e # es) = messages_on (instance_of (bindings t ! i)) (o1 @ o2) @ waiting m (bindings t2 ! i)"
      if "transport_inv t" "i < length (bindings t)" "list_all (buffer_of m) (e # es)" for m i
      using 1(4) 1(7) [of i m] 2(7) [of i m] that len inst [of i] arr [of m i] by (metis append.assoc list.pred_inject(2) messages_on_append(1))
  qed (use 1 2 well_logged_append sockets_live_links in auto)
qed simp

section \<open>Properties\<close>

text \<open>
  C12. Messages arrive in order, each once: for every sequence of receives, sends and arriving datagrams and
  every Network Port, what the stack has been given so far, followed by what still waits on the
  socket, is what waited at the start, followed by what has arrived. Datagrams are cut to the stack's
  buffer and empty ones are dropped.
\<close>

theorem delivered_in_order:
  assumes "reach started transport_step t" "i < length (bindings t)" "list_all (buffer_of m) es"
  shows "\<exists>t' out. run_net xml es t = Some (t', out) \<and>
    waiting m (bindings t ! i) @ arrivals m i es = messages_on (instance_of (bindings t ! i)) out @ waiting m (bindings t' ! i)"
proof -
  obtain t' out where "run_net xml es t = Some (t', out)"
      "waiting m (bindings t ! i) @ arrivals m i es = messages_on (instance_of (bindings t ! i)) out @ waiting m (bindings t' ! i)"
    by (rule run_net_facts [of xml es t]) (use assms(2,3) links.reach_inv [OF assms(1)] that in blast)
  then show ?thesis by blast
qed

text \<open>
  The frame log is complete: on sockets that are open, every sequence of events prints for each
  message given to the stack and for each datagram sent one entry, naming its length, peer and Network
  Port and describing the frame, and prints nothing else; and printing never reads outside a frame.
\<close>

lemma traffic_logged:
  assumes "sockets_live t"
  shows "\<exists>t' out. run_net xml es t = Some (t', out) \<and> well_logged xml out \<and> sockets_live t'"
proof -
  obtain t' out where "run_net xml es t = Some (t', out)" "well_logged xml out" "map link_of (bindings t') = map link_of (bindings t)"
    by (rule run_net_facts [of xml es t]) (use assms that in blast)
  then show ?thesis using assms by (auto simp: sockets_live_links)
qed

text \<open>Witness: two Network Ports with waiting Who-Is requests; the first is received, answered and received again.\<close>

definition example_exchange :: "net_event list" where
  "example_exchange =
     [ReceiveCall 1497 6, SendCall None (\<lambda>p. 8) [0x81, 0x0B, 0, 8, 1, 0, 0x10, 0] [] 1 True, Arrival (\<lambda>i. [who_is]), ReceiveCall 1497 6]"

theorem delivered_in_order_witness:
  "\<exists>t' out. run_net False example_exchange two_ports = Some (t', out) \<and>
     replicate 4 (octets_of who_is, connection_string (from_ip who_is) (from_port who_is)) = messages_on 1 out @ waiting 1497 (bindings t' ! 0)"
proof -
  let ?w = "(octets_of who_is, connection_string (from_ip who_is) (from_port who_is))"
  have "as_message 1497 who_is = [?w]" by (simp add: as_message_def who_is_def)
  then have "waiting 1497 (bindings two_ports ! 0) = [?w, ?w, ?w]" "arrivals 1497 0 example_exchange = [?w]"
    by (simp_all add: two_ports_bindings example_exchange_def waiting_def)
  moreover have "0 < length (bindings two_ports)" "list_all (buffer_of 1497) example_exchange" "instance_of (bindings two_ports ! 0) = 1"
    by (simp_all add: two_ports_bindings example_exchange_def)
  ultimately show ?thesis using delivered_in_order [OF two_ports_reached, of 0 1497 example_exchange False] by (simp add: numeral_eq_Suc)
qed

end
