(* ===== verification/Process.thy ===== *)
theory Process
  imports Help_Text Callback_Interface Wire_Log
begin

text \<open>
  The running process: the application's state and loop (\<open>Main_Loop\<close>), the transport with its frame log
  (\<open>Wire_Log\<close>) and the terminal (\<open>Host_Services\<close>) together. During a tick the stack calls the callbacks of
  the application and of the transport in any order, and datagrams arrive between them; during the
  calls of the loop into the stack it calls those of the transport (what it may query then is not
  modelled: a query changes nothing).
\<close>

section \<open>One pass of the process\<close>

record process =
  app_state :: loop_state
  net_state :: transport
  tty_state :: terminal

text \<open>What is fixed when the loop starts: \<open>xml_log\<close> is \<open>g_xmlFrameLoggingEnabled\<close>, \<open>flags_ok\<close> the outcome of \<open>fcntl\<close>.\<close>

record process_config =
  loop_conf :: loop_config
  xml_log :: bool
  stack_version :: "u32 \<times> u32 \<times> u32 \<times> u32"
  flags_ok :: bool

datatype tick_event =
    AppCall host stack_event
  | AppQuery host query
  | NetEvent net_event

text \<open>\<open>during k\<close> is what happens on the network during the \<open>k\<close>-th call of the loop into the stack.\<close>

record process_input =
  tick :: "tick_event list"
  loop_host :: host
  loop_interfaces :: "interface list option"
  during :: "nat \<Rightarrow> net_event list"

datatype effect =
    Net net_output
  | Answers answer
  | Calls stack_action
  | Announces "u32 \<times> u8 list \<times> u32"
  | PrintsHelp "string list"

fun run_tick :: "config \<Rightarrow> bool \<Rightarrow> tick_event list \<Rightarrow> device \<times> transport \<Rightarrow> ((device \<times> transport) \<times> effect list) option" where
  "run_tick cfg xml [] s = Some (s, [])"
| "run_tick cfg xml (AppCall h e # es) (st, t) = do { st \<leftarrow> handle_event cfg h e st; run_tick cfg xml es (st, t) }"
| "run_tick cfg xml (AppQuery h q # es) (st, t) = do {
     a \<leftarrow> answer_query cfg h st q;
     (s, out) \<leftarrow> run_tick cfg xml es (st, t);
     Some (s, Answers a # out) }"
| "run_tick cfg xml (NetEvent e # es) (st, t) = do {
     (t, out) \<leftarrow> net_step xml e t;
     (s, rest) \<leftarrow> run_tick cfg xml es (st, t);
     Some (s, map Net out @ rest) }"

definition perform :: "interface list option \<Rightarrow> config \<Rightarrow> transport \<Rightarrow> stack_action \<Rightarrow> effect" where
  "perform ifs cfg t a = (if a = AnnounceIAm then Announces (SendIAm_current ifs (g_deviceInstance cfg) t) else Calls a)"

fun run_calls_of_loop ::
  "interface list option \<Rightarrow> config \<Rightarrow> bool \<Rightarrow> (nat \<Rightarrow> net_event list) \<Rightarrow> nat \<Rightarrow> stack_action list \<Rightarrow> transport \<Rightarrow> (transport \<times> effect list) option" where
  "run_calls_of_loop ifs cfg xml net k [] t = Some (t, [])"
| "run_calls_of_loop ifs cfg xml net k (a # acts) t = do {
     (t', out) \<leftarrow> run_net xml (net k) t;
     (t'', rest) \<leftarrow> run_calls_of_loop ifs cfg xml net (Suc k) acts t';
     Some (t'', perform ifs cfg t a # map Net out @ rest) }"

definition help_printed :: "process_config \<Rightarrow> host \<Rightarrow> effect list" where
  "help_printed pc h = (if PollKey (key_octets h) = Help then [PrintsHelp (PrintHelp (stack_version pc))] else [])"

text \<open>After the tick the pass of \<open>Main_Loop\<close> continues without events. \<open>PollKey\<close> enables the raw input first.\<close>

definition process_pass :: "process_config \<Rightarrow> process_input \<Rightarrow> process \<Rightarrow> (process \<times> effect list) option" where
  "process_pass pc i s = do {
     ((st, t), ticked) \<leftarrow> run_tick (settings (loop_conf pc)) (xml_log pc) (tick i) (dev (app_state s), net_state s);
     (l, acts) \<leftarrow> loop_pass (loop_conf pc) \<lparr>events = [], host_now = loop_host i\<rparr> ((app_state s)\<lparr>dev := st\<rparr>);
     (t, called) \<leftarrow> run_calls_of_loop (loop_interfaces i) (settings (loop_conf pc)) (xml_log pc) (during i) 0 acts t;
     Some (\<lparr>app_state = l, net_state = t, tty_state = EnableRawInput (flags_ok pc) (tty_state s)\<rparr>,
           ticked @ called @ help_printed pc (loop_host i)) }"

fun process_loop :: "process_config \<Rightarrow> process_input list \<Rightarrow> process \<Rightarrow> (process \<times> process_input list \<times> effect list) option" where
  "process_loop pc [] s = Some (s, [], [])"
| "process_loop pc (i # is) s =
     (if running (app_state s) then do {
        (s, out) \<leftarrow> process_pass pc i s;
        (s, left, rest) \<leftarrow> process_loop pc is s;
        Some (s, left, out @ rest) }
      else Some (s, i # is, []))"

section \<open>The application inside the process\<close>

text \<open>What the application sees of an input.\<close>

fun app_calls :: "tick_event list \<Rightarrow> (host \<times> stack_event) list" where
  "app_calls [] = []"
| "app_calls (AppCall h e # es) = (h, e) # app_calls es"
| "app_calls (AppQuery h q # es) = app_calls es"
| "app_calls (NetEvent e # es) = app_calls es"

definition app_input :: "process_input \<Rightarrow> pass_input" where
  "app_input i = \<lparr>events = app_calls (tick i), host_now = loop_host i\<rparr>"

text \<open>What the transport keeps while the process runs: one open socket, on the port of the start.\<close>

definition port_open :: "u16 \<Rightarrow> transport \<Rightarrow> bool" where
  "port_open port t \<longleftrightarrow> transport_inv t \<and> map link_of (bindings t) = [(True, True, port, 1)] \<and> g_port t = port \<and> g_networkPortInstance t = 1"

lemma port_open_live: "port_open port t \<Longrightarrow> sockets_live t"
  by (simp add: port_open_def sockets_live_links)

definition logged :: "bool \<Rightarrow> effect list \<Rightarrow> bool" where
  "logged xml es \<longleftrightarrow> well_logged xml (concat (map (\<lambda>e. case e of Net x \<Rightarrow> [x] | _ \<Rightarrow> []) es))"

lemma logged_append: "logged xml a \<Longrightarrow> logged xml b \<Longrightarrow> logged xml (a @ b)"
  by (simp add: logged_def well_logged_append)

lemma logged_Net [simp]: "logged xml (map Net out) \<longleftrightarrow> well_logged xml out" "logged xml []"
proof -
  have "concat (map ((\<lambda>e. case e of Net x \<Rightarrow> [x] | _ \<Rightarrow> []) \<circ> Net) out) = out" by (induction out) simp_all
  then show "logged xml (map Net out) \<longleftrightarrow> well_logged xml out" by (simp add: logged_def)
qed (simp add: logged_def)

lemma logged_other [simp]: "logged xml (perform ifs cfg t a # es) = logged xml es" "logged xml (Answers x # es) = logged xml es" "logged xml (help_printed pc h)"
  by (simp_all add: logged_def perform_def help_printed_def)

lemma net_step_open:
  assumes "port_open port t"
  obtains t' out where "net_step xml e t = Some (t', out)" "port_open port t'" "well_logged xml out"
  by (rule net_step_facts [of xml e t]) (use assms port_open_live that in \<open>auto simp: port_open_def\<close>)

lemma run_net_open:
  assumes "port_open port t"
  obtains t' out where "run_net xml es t = Some (t', out)" "port_open port t'" "well_logged xml out"
  by (rule run_net_facts [of xml es t]) (use assms port_open_live that in \<open>auto simp: port_open_def\<close>)

text \<open>The parts of a tick do not disturb each other: the device goes through the events of the application alone.\<close>

lemma run_tick_open:
  "port_open port t \<Longrightarrow> device_inv st \<Longrightarrow> list_all (\<lambda>(h, e). well_formed e) (app_calls es) \<Longrightarrow>
   \<exists>st' t' out. run_tick cfg xml es (st, t) = Some ((st', t'), out) \<and> port_open port t' \<and> logged xml out \<and>
     handle_events cfg (app_calls es) st = Some st' \<and> device_inv st'"
proof (induction es arbitrary: st t)
  case (Cons e es)
  show ?case
  proof (cases e)
    case (AppCall h a)
    obtain st1 where "handle_event cfg h a st = Some st1" "device_inv st1"
      using handle_event_inv [of st a cfg h] Cons.prems AppCall by auto
    with Cons.IH [of t st1] Cons.prems AppCall show ?thesis by auto
  next
    case (AppQuery h q)
    obtain x where "answer_query cfg h st q = Some x" using answer_query_defined Cons.prems(2) by blast
    with Cons.IH [OF Cons.prems(1,2)] Cons.prems(3) AppQuery show ?thesis by auto
  next
    case (NetEvent n)
    obtain t1 o1 where 1: "net_step xml n t = Some (t1, o1)" "port_open port t1" "well_logged xml o1"
      by (rule net_step_open [OF Cons.prems(1)]) (rule that; assumption)
    obtain st' t' out where "run_tick cfg xml es (st, t1) = Some ((st', t'), out)" "port_open port t'" "logged xml out"
        "handle_events cfg (app_calls es) st = Some st'" "device_inv st'"
      using Cons.IH [OF 1(2) Cons.prems(2)] Cons.prems(3) NetEvent by auto
    with 1 NetEvent logged_append [of xml "map Net o1" out] show ?thesis by auto
  qed
qed simp

lemma run_calls_open:
  "port_open port t \<Longrightarrow> \<exists>t' out. run_calls_of_loop ifs cfg xml net k acts t = Some (t', out) \<and> port_open port t' \<and> logged xml out"
proof (induction acts arbitrary: k t)
  case (Cons a acts)
  obtain t1 o1 where 1: "run_net xml (net k) t = Some (t1, o1)" "port_open port t1" "well_logged xml o1"
    by (rule run_net_open [OF Cons.prems]) (rule that; assumption)
  from Cons.IH [OF 1(2), of "Suc k"] 1 show ?case using logged_append [of xml "map Net o1"] by auto
qed simp

text \<open>The events of a pass come first.\<close>

lemma loop_pass_after_tick:
  "loop_pass lc i s = do { st \<leftarrow> handle_events (settings lc) (events i) (dev s); loop_pass lc (i\<lparr>events := []\<rparr>) (s\<lparr>dev := st\<rparr>) }"
  by (cases "handle_events (settings lc) (events i) (dev s)") (simp_all add: loop_pass_def)

section \<open>The process as a transition system\<close>

definition booted :: "u16 \<Rightarrow> termios option \<Rightarrow> process \<Rightarrow> bool" where
  "booted port orig s \<longleftrightarrow> starting (app_state s) \<and> port_open port (net_state s) \<and> fresh_terminal orig (tty_state s)"

inductive process_step :: "process_config \<Rightarrow> process \<Rightarrow> process_input \<Rightarrow> process \<Rightarrow> bool" for pc :: process_config where
  process_pass: "running (app_state s) \<Longrightarrow> stack_input (app_input i) \<Longrightarrow> process_pass pc i s = Some (s', out) \<Longrightarrow> process_step pc s i s'"

inductive_cases process_stepE: "process_step pc s i s'"

definition process_inv :: "bool \<Rightarrow> u16 \<Rightarrow> termios option \<Rightarrow> process \<Rightarrow> bool" where
  "process_inv ok port orig s \<longleftrightarrow> device_inv (dev (app_state s)) \<and> port_open port (net_state s) \<and> terminal_inv orig ok (tty_state s)"

lemma booted_inv: "booted port orig s \<Longrightarrow> process_inv ok port orig s"
  using tty.start_inv loop.start_inv by (auto simp: booted_def process_inv_def)

text \<open>A pass of the process is a pass of the loop, on a transport and a terminal of their own.\<close>

lemma process_pass_inv:
  assumes "process_inv (flags_ok pc) port orig s" "stack_input (app_input i)"
  obtains s' acts out where "process_pass pc i s = Some (s', out)" "process_inv (flags_ok pc) port orig s'" "logged (xml_log pc) out"
    "loop_pass (loop_conf pc) (app_input i) (app_state s) = Some (app_state s', acts)"
    "running (app_state s') \<longleftrightarrow> \<not> PollKey (key_octets (loop_host i)) = Quit" "flags_ok pc \<longrightarrow> nonblock (tty_state s')"
proof -
  let ?cfg = "settings (loop_conf pc)" and ?tty = "EnableRawInput (flags_ok pc) (tty_state s)"
  note inv = assms(1) [unfolded process_inv_def]
  have wf: "list_all (\<lambda>(h, e). well_formed e) (app_calls (tick i))" using assms(2) by (simp add: stack_input_def app_input_def)
  obtain st t1 o1 where 1: "run_tick ?cfg (xml_log pc) (tick i) (dev (app_state s), net_state s) = Some ((st, t1), o1)" "port_open port t1"
      "logged (xml_log pc) o1" "handle_events ?cfg (app_calls (tick i)) (dev (app_state s)) = Some st"
    using run_tick_open [OF _ _ wf] inv by blast
  obtain l acts where 2: "loop_pass (loop_conf pc) (app_input i) (app_state s) = Some (l, acts)" "device_inv (dev l)"
      "running l = (PollKey (key_octets (host_now (app_input i))) \<noteq> Quit)"
    using loop_pass_inv [of "app_state s" "app_input i" "loop_conf pc"] inv assms(2) by (auto simp: stack_input_def)
  have rest: "loop_pass (loop_conf pc) \<lparr>events = [], host_now = loop_host i\<rparr> ((app_state s)\<lparr>dev := st\<rparr>) = Some (l, acts)"
    using 2(1) 1(4) by (subst (asm) loop_pass_after_tick) (simp add: app_input_def)
  obtain t2 o2 where 3: "run_calls_of_loop (loop_interfaces i) ?cfg (xml_log pc) (during i) 0 acts t1 = Some (t2, o2)" "port_open port t2"
      "logged (xml_log pc) o2"
    using run_calls_open [OF 1(2)] by blast
  have "process_pass pc i s = Some (\<lparr>app_state = l, net_state = t2, tty_state = ?tty\<rparr>, o1 @ o2 @ help_printed pc (loop_host i))"
    using 1(1) rest 3(1) by (simp add: process_pass_def)
  moreover have t: "terminal_inv orig (flags_ok pc) ?tty" using EnableRawInput_inv inv by blast
  moreover have "logged (xml_log pc) (o1 @ o2 @ help_printed pc (loop_host i))" using 1(3) 3(3) by (simp add: logged_append)
  moreover have "flags_ok pc \<longrightarrow> nonblock ?tty" using t EnableRawInput_configured by (simp add: terminal_inv_def)
  ultimately show thesis
    using 2 3(2) by (intro that [of "\<lparr>app_state = l, net_state = t2, tty_state = ?tty\<rparr>"]) (simp_all add: process_inv_def app_input_def)
qed

definition reads_quit :: "process_input \<Rightarrow> bool" where
  "reads_quit i \<longleftrightarrow> PollKey (key_octets (loop_host i)) = Quit"

definition stack_inputs :: "process_input list \<Rightarrow> bool" where
  "stack_inputs is \<longleftrightarrow> list_all (\<lambda>i. stack_input (app_input i)) is"

text \<open>
  The whole run: it is the loop of \<open>Main_Loop\<close> on what the application sees, the process stays sound, and it
  is over exactly if one of the inputs reads a quit key.
\<close>

lemma process_loop_over:
  "process_inv (flags_ok pc) port orig s \<Longrightarrow> stack_inputs is \<Longrightarrow>
   \<exists>s' left out. process_loop pc is s = Some (s', left, out) \<and> process_inv (flags_ok pc) port orig s' \<and> logged (xml_log pc) out \<and>
     main_loop (loop_conf pc) (map app_input is) (app_state s) = Some (app_state s', map app_input left) \<and>
     (running (app_state s) \<longrightarrow> running (app_state s') = (\<not> list_ex reads_quit is))"
proof (induction "is" arbitrary: s)
  case (Cons i "is")
  show ?case
  proof (cases "running (app_state s)")
    case True
    obtain s1 acts o1 where 1: "process_pass pc i s = Some (s1, o1)" "process_inv (flags_ok pc) port orig s1" "logged (xml_log pc) o1"
        "loop_pass (loop_conf pc) (app_input i) (app_state s) = Some (app_state s1, acts)" "running (app_state s1) \<longleftrightarrow> \<not> reads_quit i"
      by (rule process_pass_inv [OF Cons.prems(1), of i]) (use Cons.prems(2) that in \<open>auto simp: stack_inputs_def reads_quit_def\<close>)
    obtain s' left out where 2: "process_loop pc is s1 = Some (s', left, out)" "process_inv (flags_ok pc) port orig s'" "logged (xml_log pc) out"
        "main_loop (loop_conf pc) (map app_input is) (app_state s1) = Some (app_state s', map app_input left)"
        "running (app_state s1) \<longrightarrow> running (app_state s') = (\<not> list_ex reads_quit is)"
      using Cons.IH [OF 1(2)] Cons.prems(2) by (auto simp: stack_inputs_def)
    have "\<not> running (app_state s')" if "reads_quit i"
    proof -
      have "process_loop pc is s1 = Some (s1, is, [])" using that 1(5) by (cases "is") simp_all
      with 2(1) that 1(5) show ?thesis by simp
    qed
    with 1 2 True logged_append show ?thesis by auto
  qed (use Cons.prems in simp)
qed simp

interpretation proc: invariant_system "booted port orig" "process_step pc" "process_inv (flags_ok pc) port orig" for port orig pc
proof
  show "process_inv (flags_ok pc) port orig s'" if "process_inv (flags_ok pc) port orig s" "process_step pc s i s'" for s i s'
    using that(2) by (rule process_stepE) (use process_pass_inv [OF that(1), of i] in fastforce)
qed (rule booted_inv)

text \<open>The I-Am of a restart has the address of the one of the start.\<close>

lemma open_SendIAm:
  assumes "port_open port t"
  shows "SendIAm_current ifs device t = (device, connection_string (GetLocalBroadcastIPv4 ifs) port, 1)"
proof -
  obtain b where "bindings t = [b]" "bound b" "port_of b = port" "instance_of b = 1" "g_networkPortInstance t = 1"
    using assms by (auto simp: port_open_def link_of_def)
  then show ?thesis by (simp add: SendIAm_current_def SendIAm_def FindUdpBindingByInstance_def Let_def)
qed

section \<open>Properties\<close>


text \<open>Witness: a process at its start.\<close>

definition example_process :: process where
  "example_process = \<lparr>app_state = power_on example_host 0, net_state = one_port 47808, tty_state = shell_terminal\<rparr>"

definition example_process_config :: process_config where
  "example_process_config = \<lparr>loop_conf = strict_loop, xml_log = False, stack_version = (6, 0, 23, 0), flags_ok = True\<rparr>"

text \<open>A Who-Is is received and answered, a client commands the Analog Output and reads it back, and the operator quits.\<close>

definition busy_input :: process_input where
  "busy_input = \<lparr>tick = [NetEvent (Arrival (\<lambda>i. [who_is])), NetEvent (ReceiveCall 1497 6), AppCall example_host (WriteReal 389014 1 1 85 float_21_5 8),
       AppQuery example_host (RealQuery 389014 1 1 87 True 8),
       NetEvent (SendCall None (\<lambda>p. 8) [0x81, 0x0B, 0, 8, 1, 0, 0x10, 0] [] 1 True)],
     loop_host = host_now quit_pass, loop_interfaces = None, during = (\<lambda>k. [])\<rparr>"

lemma one_port_open: "port_open port (one_port port)"
  by (simp add: port_open_def one_port_def transport_inv_def link_of_def UdpBinding_init_def)

lemma example_booted: "reach (booted 47808 (Some cooked)) (process_step pc) example_process"
  by (rule reach_start) (auto simp: booted_def example_process_def starting_def one_port_open fresh_terminal_def shell_terminal_def)

lemma busy_inputs: "stack_inputs [busy_input]" "list_ex reads_quit [busy_input]" "fresh_terminal (Some cooked) shell_terminal"
  using example_inputs f32_small(2)
  by (simp_all add: stack_inputs_def reads_quit_def busy_input_def app_input_def stack_input_def fresh_terminal_def shell_terminal_def)


end
