(* ===== verification/Program.thy ===== *)
theory Program
  imports Process
begin

text \<open>
  The whole program: \<open>main\<close> from the command line to the exit status, with everything the process receives,
  sends and prints on the way.
\<close>

section \<open>\<open>main\<close>\<close>

text \<open>
  The end of the process. \<open>Waits\<close>: the loop has used up its inputs and is still running. Both have the
  state and the effects since the socket was bound.
\<close>

datatype outcome =
    PrintsText "string list"
  | ExitsWithError start_error
  | Waits process "effect list"
  | Ends process "effect list"
  | Undefined

text \<open>
  \<open>fcntl_ok\<close> is the outcome of \<open>fcntl\<close>, \<open>console\<close> the terminal the process is started on, \<open>boot\<close> what happens on
  the network before the loop (the start-up I-Am leaves then), \<open>is\<close> the inputs of the passes.
\<close>

definition main_program ::
  "startup_env \<Rightarrow> string list \<Rightarrow> bool \<Rightarrow> terminal \<Rightarrow> net_event list \<Rightarrow> process_input list \<Rightarrow> outcome" where
  "main_program env argv fcntl_ok console boot is =
     (case start_program env argv of
        Informs i \<Rightarrow> PrintsText (information (api_version env) argv i)
      | Fails e cs \<Rightarrow> ExitsWithError e
      | Runs lc s t made iam \<Rightarrow>
          (let xml = ParseXmlLogArg argv;
               pc = \<lparr>loop_conf = lc, xml_log = xml, stack_version = api_version env, flags_ok = fcntl_ok\<rparr>
           in case run_net xml boot t of
                None \<Rightarrow> Undefined
              | Some (t, out) \<Rightarrow>
                  (case process_loop pc is \<lparr>app_state = s, net_state = t, tty_state = console\<rparr> of
                     None \<Rightarrow> Undefined
                   | Some (s, left, rest) \<Rightarrow>
                       (if running (app_state s) then Waits s (map Net out @ rest)
                        else Ends (s\<lparr>tty_state := RestoreInput (tty_state s), net_state := ShutdownUDP (net_state s)\<rparr>) (map Net out @ rest)))))"

fun status :: "outcome \<Rightarrow> nat option" where
  "status (PrintsText l) = Some 0"
| "status (ExitsWithError e) = Some 1"
| "status (Waits s out) = None"
| "status (Ends s out) = Some 0"
| "status Undefined = None"

section \<open>Lemmas\<close>

text \<open>After the shutdown no socket of a bound port is open.\<close>

lemma ShutdownUDP_closes: "list_all (\<lambda>b. \<not> bound b) (bindings (ShutdownUDP t))"
  by (auto simp: ShutdownUDP_def list_all_iff)

text \<open>A started program gets to its loop with every component's invariant.\<close>

lemma started_process:
  assumes "start_program env argv = Runs lc s t made iam" "fresh_terminal orig console"
  obtains t' out where "run_net xml boot t = Some (t', out)" "well_logged xml out" "running s"
    "process_inv ok (g_bacnetIpUdpPort (settings lc)) orig \<lparr>app_state = s, net_state = t', tty_state = console\<rparr>"
proof -
  let ?port = "g_bacnetIpUdpPort (settings lc)"
  have t: "port_open ?port t" and s: "starting s" "running s"
    using start_program_Runs [OF assms(1)] one_port_open by (auto simp: loop_settings_def configure_device starting_def power_on_def)
  obtain t' out where "run_net xml boot t = Some (t', out)" "port_open ?port t'" "well_logged xml out"
    by (rule run_net_open [OF t]) (rule that; assumption)
  with s assms(2) show thesis by (intro that) (auto intro!: booted_inv simp: booted_def)
qed

lemma main_program_Runs:
  assumes "start_program env argv = Runs lc s t made iam" "fresh_terminal orig console" "stack_inputs is"
  obtains s' out where "process_inv ok (g_bacnetIpUdpPort (settings lc)) orig s'" "logged (ParseXmlLogArg argv) out"
    "running (app_state s') \<longleftrightarrow> \<not> list_ex reads_quit is"
    "main_program env argv ok console boot is =
      (if running (app_state s') then Waits s' out
       else Ends (s'\<lparr>tty_state := RestoreInput (tty_state s'), net_state := ShutdownUDP (net_state s')\<rparr>) out)"
proof -
  let ?xml = "ParseXmlLogArg argv" and ?port = "g_bacnetIpUdpPort (settings lc)"
  let ?pc = "\<lparr>loop_conf = lc, xml_log = ?xml, stack_version = api_version env, flags_ok = ok\<rparr>"
  obtain t1 o1 where 1: "run_net ?xml boot t = Some (t1, o1)" "well_logged ?xml o1" "running s"
      "process_inv ok ?port orig \<lparr>app_state = s, net_state = t1, tty_state = console\<rparr>"
    by (rule started_process [OF assms(1,2)]) (rule that; assumption)
  obtain s' left out where 2: "process_loop ?pc is \<lparr>app_state = s, net_state = t1, tty_state = console\<rparr> = Some (s', left, out)"
      "process_inv ok ?port orig s'" "logged ?xml out" "running (app_state s') \<longleftrightarrow> \<not> list_ex reads_quit is"
    using process_loop_over [of ?pc ?port orig "\<lparr>app_state = s, net_state = t1, tty_state = console\<rparr>" "is"] 1(3,4) assms(3) by auto
  show thesis
  proof (rule that [OF 2(2) _ 2(4)])
    show "logged ?xml (map Net o1 @ out)" using 1(2) 2(3) by (intro logged_append) simp_all
  qed (use assms(1) 1(1) 2(1) in \<open>simp add: main_program_def Let_def\<close>)
qed

section \<open>Properties\<close>





end
