(* ===== verification/Logging.thy ===== *)
theory Logging
  imports Device_Clock Frame_Summary
begin

text \<open>
  The logging facility (\<open>CASExampleLog.h\<close>, \<open>CASExampleLog.cpp\<close>). The minimum level is its state; \<open>Log\<close>
  returns the stream and the text it prints. The broken-down UTC time and the message as \<open>vsnprintf\<close>
  formats it without a bound are arguments.
\<close>

section \<open>Levels\<close>

datatype LogLevel = Debug | Info | Warning | Error

fun level_number :: "LogLevel \<Rightarrow> nat" where
  "level_number Debug = 0"
| "level_number Info = 1"
| "level_number Warning = 2"
| "level_number Error = 3"

lemma level_number_inject: "level_number a = level_number b \<longleftrightarrow> a = b"
  by (cases a; cases b) simp_all

instantiation LogLevel :: linorder
begin

definition less_eq_LogLevel :: "LogLevel \<Rightarrow> LogLevel \<Rightarrow> bool" where
  "less_eq_LogLevel a b \<longleftrightarrow> level_number a \<le> level_number b"

definition less_LogLevel :: "LogLevel \<Rightarrow> LogLevel \<Rightarrow> bool" where
  "less_LogLevel a b \<longleftrightarrow> level_number a < level_number b"

instance
  by standard (auto simp: less_eq_LogLevel_def less_LogLevel_def level_number_inject)

end

fun LevelName :: "LogLevel \<Rightarrow> string" where
  "LevelName Debug = ''DEBUG''"
| "LevelName Info = ''INFO''"
| "LevelName Warning = ''WARNING''"
| "LevelName Error = ''ERROR''"

section \<open>Printing\<close>

record log_state =
  g_logLevel :: LogLevel

definition log_init :: log_state where
  "log_init = \<lparr>g_logLevel = Info\<rparr>"

definition SetLogLevel :: "LogLevel \<Rightarrow> log_state \<Rightarrow> log_state" where
  "SetLogLevel level s = s\<lparr>g_logLevel := level\<rparr>"

definition GetLogLevel :: "log_state \<Rightarrow> LogLevel" where
  "GetLogLevel s = g_logLevel s"

definition MAX_LOG_MESSAGE_LENGTH :: nat where "MAX_LOG_MESSAGE_LENGTH = 1024"

text \<open>\<open>%0wd\<close>: the sign counts towards the width.\<close>

definition fmt_0d :: "nat \<Rightarrow> int \<Rightarrow> string" where
  "fmt_0d w n =
     (let ds = show_nat (nat \<bar>n\<bar>); sg = (if n < 0 then ''-'' else '''')
      in sg @ replicate (w - length sg - length ds) (CHR ''0'') @ ds)"

definition timestamp :: "tm \<Rightarrow> string" where
  "timestamp utc = snprintf_at 32 ''''
     (fmt_0d 4 (tm_year utc + 1900) @ ''-'' @ fmt_0d 2 (tm_mon utc + 1) @ ''-'' @ fmt_0d 2 (tm_mday utc) @ '' '' @
      fmt_0d 2 (tm_hour utc) @ '':'' @ fmt_0d 2 (tm_min utc) @ '':'' @ fmt_0d 2 (tm_sec utc))"

datatype stream = Stdout | Stderr

definition Log :: "tm \<Rightarrow> LogLevel \<Rightarrow> string \<Rightarrow> log_state \<Rightarrow> (stream \<times> string) option" where
  "Log utc level formatted s =
     (if level_number level < level_number (g_logLevel s) then None
      else (let msg = snprintf_at MAX_LOG_MESSAGE_LENGTH '''' formatted
            in Some (if level = Warning \<or> level = Error then Stderr else Stdout,
                     timestamp utc @ '' ['' @ LevelName level @ ''] '' @ msg @ [NEWLINE])))"

section \<open>Lemmas\<close>

text \<open>A time of the calendar: what \<open>gmtime\<close> returns for the years 0 to 9999.\<close>

definition calendar_time :: "tm \<Rightarrow> bool" where
  "calendar_time t \<longleftrightarrow> 0 \<le> tm_year t + 1900 \<and> tm_year t + 1900 \<le> 9999 \<and> 0 \<le> tm_mon t \<and> tm_mon t \<le> 11 \<and> 1 \<le> tm_mday t \<and> tm_mday t \<le> 31 \<and>
     0 \<le> tm_hour t \<and> tm_hour t \<le> 23 \<and> 0 \<le> tm_min t \<and> tm_min t \<le> 59 \<and> 0 \<le> tm_sec t \<and> tm_sec t \<le> 60"

lemma fmt_0d_nonneg:
  assumes "0 \<le> n" "n < 10 ^ w" "0 < w"
  shows "length (fmt_0d w n) = w" "dec_val (fmt_0d w n) = nat n" "list_all is_digit (fmt_0d w n)"
proof -
  have l: "length (show_nat (nat n)) \<le> w" using assms length_show_nat [of w "nat n"] by (simp add: nat_less_iff)
  have "digit_val (CHR ''0'') = 0" by code_simp
  then have "dec_val (replicate k (CHR ''0'')) = 0" for k
    by (induction k) (simp_all add: replicate_append_same [symmetric])
  then have z: "dec_val (replicate k (CHR ''0'') @ s) = dec_val s" for k s by (simp add: dec_val_append)
  have f: "fmt_0d w n = replicate (w - length (show_nat (nat n))) (CHR ''0'') @ show_nat (nat n)"
    using assms(1) by (simp add: fmt_0d_def Let_def)
  show "length (fmt_0d w n) = w" using l by (simp add: f)
  show "dec_val (fmt_0d w n) = nat n" by (simp add: f z)
  show "list_all is_digit (fmt_0d w n)" using show_nat_digits [of "nat n"] by (auto simp: f list_all_iff is_digit_def)
qed

text \<open>The fields of a timestamp, and that it is never cut.\<close>

lemma timestamp_fields:
  assumes "calendar_time t"
  shows "timestamp t = fmt_0d 4 (tm_year t + 1900) @ ''-'' @ fmt_0d 2 (tm_mon t + 1) @ ''-'' @ fmt_0d 2 (tm_mday t) @ '' '' @
      fmt_0d 2 (tm_hour t) @ '':'' @ fmt_0d 2 (tm_min t) @ '':'' @ fmt_0d 2 (tm_sec t)" (is "_ = ?f")
    and "length (timestamp t) = 19"
proof -
  note l = fmt_0d_nonneg(1) [of "tm_year t + 1900" 4] fmt_0d_nonneg(1) [of "tm_mon t + 1" 2] fmt_0d_nonneg(1) [of "tm_mday t" 2]
    fmt_0d_nonneg(1) [of "tm_hour t" 2] fmt_0d_nonneg(1) [of "tm_min t" 2] fmt_0d_nonneg(1) [of "tm_sec t" 2]
  have len: "length ?f = 19" using assms l by (simp add: calendar_time_def)
  then show "timestamp t = ?f" by (simp add: timestamp_def snprintf_at_def)
  with len show "length (timestamp t) = 19" by simp
qed

text \<open>Two times with the same timestamp are the same to the second.\<close>

lemma timestamp_injective:
  assumes "calendar_time t" "calendar_time u" "timestamp t = timestamp u"
  shows "tm_year t = tm_year u" "tm_mon t = tm_mon u" "tm_mday t = tm_mday u" "tm_hour t = tm_hour u" "tm_min t = tm_min u" "tm_sec t = tm_sec u"
proof -
  have inj: "a = b" if "fmt_0d w a = fmt_0d w b" "0 \<le> a" "a < 10 ^ w" "0 \<le> b" "b < 10 ^ w" "0 < w" for w a b
    using that fmt_0d_nonneg(2) [of a w] fmt_0d_nonneg(2) [of b w] by simp
  have len: "length (fmt_0d w a) = length (fmt_0d w b)" if "0 \<le> a" "a < 10 ^ w" "0 \<le> b" "b < 10 ^ w" "0 < w" for w a b
    using that fmt_0d_nonneg(1) [of a w] fmt_0d_nonneg(1) [of b w] by simp
  note c = assms(1,2) [unfolded calendar_time_def]
  have "fmt_0d 4 (tm_year t + 1900) = fmt_0d 4 (tm_year u + 1900) \<and> fmt_0d 2 (tm_mon t + 1) = fmt_0d 2 (tm_mon u + 1) \<and>
      fmt_0d 2 (tm_mday t) = fmt_0d 2 (tm_mday u) \<and> fmt_0d 2 (tm_hour t) = fmt_0d 2 (tm_hour u) \<and> fmt_0d 2 (tm_min t) = fmt_0d 2 (tm_min u) \<and>
      fmt_0d 2 (tm_sec t) = fmt_0d 2 (tm_sec u)"
    using assms(3) c len [of "tm_year t + 1900" 4 "tm_year u + 1900"] len [of "tm_mon t + 1" 2 "tm_mon u + 1"]
      len [of "tm_mday t" 2 "tm_mday u"] len [of "tm_hour t" 2 "tm_hour u"] len [of "tm_min t" 2 "tm_min u"]
    by (simp add: timestamp_fields(1) [OF assms(1)] timestamp_fields(1) [OF assms(2)])
  then show "tm_year t = tm_year u" "tm_mon t = tm_mon u" "tm_mday t = tm_mday u" "tm_hour t = tm_hour u" "tm_min t = tm_min u" "tm_sec t = tm_sec u"
    using c inj [of 4 "tm_year t + 1900" "tm_year u + 1900"] inj [of 2 "tm_mon t + 1" "tm_mon u + 1"] inj [of 2 "tm_mday t" "tm_mday u"]
      inj [of 2 "tm_hour t" "tm_hour u"] inj [of 2 "tm_min t" "tm_min u"] inj [of 2 "tm_sec t" "tm_sec u"] by auto
qed

text \<open>
  A line is printed exactly if its level is at least the minimum (so raising the minimum only removes
  lines), on standard error from \<open>Warning\<close> on; it starts with the 19 characters of the timestamp and the
  level's name, and its message is at most 1023 characters of the formatted text.
\<close>

lemma log_line:
  assumes "calendar_time utc"
  shows "(Log utc level formatted s = None \<longleftrightarrow> level < GetLogLevel s) \<and>
    (\<forall>stream line. Log utc level formatted s = Some (stream, line) \<longrightarrow>
       (stream = Stderr \<longleftrightarrow> Warning \<le> level) \<and> take 19 line = timestamp utc \<and>
       drop 19 line = '' ['' @ LevelName level @ ''] '' @ take 1023 formatted @ [NEWLINE])"
  using timestamp_fields(2) [OF assms]
  by (cases level) (auto simp: Log_def GetLogLevel_def less_LogLevel_def less_eq_LogLevel_def snprintf_at_def MAX_LOG_MESSAGE_LENGTH_def)

text \<open>Example: the first second of 2024 on the initial state.\<close>

lemma log_line_example: "\<exists>line. Log \<lparr>tm_year = 124, tm_mon = 0, tm_mday = 1, tm_hour = 0, tm_min = 0, tm_sec = 0, tm_wday = 1, tm_isdst = 0\<rparr>
    Warning ''low'' log_init = Some (Stderr, line) \<and> drop 19 line = '' [WARNING] low'' @ [NEWLINE]"
proof -
  let ?t = "\<lparr>tm_year = 124, tm_mon = 0, tm_mday = 1, tm_hour = 0, tm_min = 0, tm_sec = 0, tm_wday = 1, tm_isdst = 0\<rparr> :: tm"
  have "calendar_time ?t" by (simp add: calendar_time_def)
  note l = log_line [OF this, of Warning "''low''" log_init]
  then have "Log ?t Warning ''low'' log_init \<noteq> None" by (simp add: GetLogLevel_def log_init_def less_LogLevel_def)
  then obtain stream line where "Log ?t Warning ''low'' log_init = Some (stream, line)" by auto
  with l show ?thesis by (cases stream) auto
qed

end
