(* ===== verification/Loop_Scenarios.thy ===== *)
theory Loop_Scenarios
  imports Main_Loop
begin

text \<open>
  Procedures that span components and several passes of the loop: a restore whose steps arrive one by
  one, mixed with any other traffic, and are applied by the pass that completes it; a restart carried out
  by the first pass from its deadline on; and the landing calls the car answers as the passes go on.
\<close>

section \<open>A restore as the stack's callbacks\<close>

text \<open>Sending the image in pieces, each where the last one ended, and completing the restore.\<close>

fun restore_writes :: "u32 \<Rightarrow> nat \<Rightarrow> string list \<Rightarrow> stack_event list" where
  "restore_writes d pos [] = [CompleteRestoreEvent d False]"
| "restore_writes d pos (piece # pieces) =
     WriteFileEvent d FILE_INSTANCE (word_of_nat pos) piece (word_of_nat (length piece)) # restore_writes d (pos + length piece) pieces"

definition restore_events :: "u32 \<Rightarrow> string list \<Rightarrow> stack_event list" where
  "restore_events d pieces = PrepareRestoreEvent d # restore_writes d 0 pieces"

text \<open>The callbacks that touch neither the file's content nor the staged configuration.\<close>

fun quiet :: "stack_event \<Rightarrow> bool" where
  "quiet (WriteUnsigned di ot oi p v pr) \<longleftrightarrow> ot \<noteq> OBJECT_TYPE_FILE"
| "quiet (WriteFileEvent di fi start data n) \<longleftrightarrow> False"
| "quiet (PrepareBackupEvent di) \<longleftrightarrow> False"
| "quiet (PrepareRestoreEvent di) \<longleftrightarrow> False"
| "quiet (CompleteRestoreEvent di aborted) \<longleftrightarrow> False"
| "quiet _ \<longleftrightarrow> True"

definition traffic :: "pass_input list \<Rightarrow> stack_event list" where
  "traffic is = filter (\<lambda>e. \<not> quiet e) (map snd (concat (map events is)))"

lemma traffic_simps: "traffic [] = []" "traffic (i # is) = filter (\<lambda>e. \<not> quiet e) (map snd (events i)) @ traffic is"
  by (simp_all add: traffic_def)

lemma restore_writes_nonempty [simp]: "restore_writes d pos ps \<noteq> []" "[] \<noteq> restore_writes d pos ps"
  by (cases ps; simp)+

lemma quiet_keeps:
  assumes "quiet e" "handle_event cfg h e st = Some st'"
  shows "file_content (ivory_file st') = file_content (ivory_file st)" "staged st' = staged st"
  using assms
  by (cases e; force simp: accepted_def SetPropertyReal_def SetPropertyEnumerated_def SetPropertyUnsignedInteger_def SetPropertyBool_def
      SetPropertyNull_def file_content_def Let_def split: sum.splits option.splits if_splits)+

section \<open>How far a restore is\<close>

definition staged_for :: "av_table \<Rightarrow> device \<Rightarrow> bool" where
  "staged_for t st \<longleftrightarrow> g_restorePending (staged st) \<and> map_of (rev (restored (staged st))) = map_option through_image \<circ> av_map t"

definition restoring :: "av_table \<Rightarrow> u32 \<Rightarrow> stack_event list \<Rightarrow> device \<Rightarrow> bool" where
  "restoring t d todo st \<longleftrightarrow> device_inv st \<and>
     ((\<exists>pieces. todo = restore_events d pieces \<and> concat pieces = image_of t) \<or>
      (\<exists>pieces. todo = restore_writes d (length (file_content (ivory_file st))) pieces \<and>
         file_content (ivory_file st) @ concat pieces = image_of t) \<or>
      todo = [] \<and> staged_for t st)"

lemma restoring_cong:
  assumes "restoring t d todo st" "device_inv st'" "file_content (ivory_file st') = file_content (ivory_file st)"
    "todo \<noteq> [] \<or> staged st' = staged st"
  shows "restoring t d todo st'"
  using assms by (auto simp: restoring_def staged_for_def)

text \<open>One step of the restore, and the traffic between its steps.\<close>

lemma restore_step:
  assumes "savable t" "restoring t (g_deviceInstance cfg) (e # todo) st" "well_formed e"
  shows "\<exists>st'. handle_event cfg h e st = Some st' \<and> restoring t (g_deviceInstance cfg) todo st'"
proof -
  let ?d = "g_deviceInstance cfg"
  have inv: "device_inv st" using assms(2) by (simp add: restoring_def)
  obtain st' where st': "handle_event cfg h e st = Some st'" "device_inv st'" using handle_event_inv [OF inv assms(3), of cfg h] by blast
  have len: "length (image_of t) \<le> 318" using savable_image(1) [OF assms(1)] .
  consider (prepare) pieces where "e = PrepareRestoreEvent ?d" "todo = restore_writes ?d 0 pieces" "concat pieces = image_of t"
    | (piece) p ps where "e = WriteFileEvent ?d FILE_INSTANCE (word_of_nat (length (file_content (ivory_file st)))) p (word_of_nat (length p))"
        "todo = restore_writes ?d (length (file_content (ivory_file st)) + length p) ps" "file_content (ivory_file st) @ p @ concat ps = image_of t"
    | (complete) "e = CompleteRestoreEvent ?d False" "todo = []" "file_content (ivory_file st) = image_of t"
  proof -
    from assms(2) have "(\<exists>pieces. e # todo = restore_events ?d pieces \<and> concat pieces = image_of t) \<or>
      (\<exists>pieces. e # todo = restore_writes ?d (length (file_content (ivory_file st))) pieces \<and> file_content (ivory_file st) @ concat pieces = image_of t)"
      by (auto simp: restoring_def)
    then show thesis
    proof (elim disjE exE conjE)
      fix pieces assume "e # todo = restore_events ?d pieces" "concat pieces = image_of t"
      then show thesis using prepare by (simp add: restore_events_def)
    next
      fix pieces assume "e # todo = restore_writes ?d (length (file_content (ivory_file st))) pieces" "file_content (ivory_file st) @ concat pieces = image_of t"
      then show thesis using piece complete by (cases pieces) auto
    qed
  qed
  then show ?thesis
  proof cases
    case (prepare pieces)
    then have "file_content (ivory_file st') = []" using st'(1) by (auto simp: PrepareRestore_def file_content_def)
    then show ?thesis using st' prepare(2,3) by (auto simp: restoring_def)
  next
    case (piece p ps)
    have "length (file_content (ivory_file st)) + length p \<le> 4096" using arg_cong [OF piece(3), of length] len by simp
    from WriteFile_append [OF device_invD(7) [OF inv] this, of "localtime_of h" "clock_s h" "g_clockOffsetSeconds st" ?d]
    have "file_content (ivory_file st') = file_content (ivory_file st) @ p" using st'(1) by (auto simp: piece(1))
    then show ?thesis using st' piece(2,3) by (auto simp: restoring_def intro!: exI [of _ ps])
  next
    case complete
    from complete_image [OF assms(1) complete(3) device_invD(8) [OF inv], of ?d]
    have "staged_for t st'" using st'(1) by (auto simp: complete(1) staged_for_def)
    then show ?thesis using st' complete(2) by (simp add: restoring_def)
  qed
qed

lemma restore_events_handled:
  assumes "savable t"
  shows "restoring t (g_deviceInstance cfg) (filter (\<lambda>e. \<not> quiet e) (map snd es) @ later) st \<Longrightarrow> list_all (\<lambda>(h, e). well_formed e) es \<Longrightarrow>
    \<exists>st'. handle_events cfg es st = Some st' \<and> restoring t (g_deviceInstance cfg) later st'"
proof (induction es arbitrary: st)
  case (Cons he es)
  obtain h e where he: "he = (h, e)" by fastforce
  have "\<exists>st1. handle_event cfg h e st = Some st1 \<and>
      restoring t (g_deviceInstance cfg) (filter (\<lambda>e. \<not> quiet e) (map snd es) @ later) st1"
  proof (cases "quiet e")
    case True
    obtain st1 where s1: "handle_event cfg h e st = Some st1" "device_inv st1"
      using handle_event_inv [of st e cfg h] Cons.prems he by (auto simp: restoring_def)
    with restoring_cong [OF _ s1(2)] quiet_keeps [OF True s1(1)] Cons.prems(1) he True show ?thesis by auto
  next
    case False
    then show ?thesis using restore_step [OF assms, of cfg e _ st h] Cons.prems he by auto
  qed
  then obtain st1 where "handle_event cfg h e st = Some st1"
      "restoring t (g_deviceInstance cfg) (filter (\<lambda>e. \<not> quiet e) (map snd es) @ later) st1" by blast
  with Cons.IH [of st1] Cons.prems(2) he show ?case by auto
qed simp

section \<open>The passes\<close>

text \<open>After the callbacks of a pass only the restore touches the created objects, and nothing touches the file.\<close>

lemma rest_of_pass_keeps:
  "ivory_file (fst (apply_restore h st)) = ivory_file st"
  "ivory_file (fst (move_car h st)) = ivory_file st" "created (fst (move_car h st)) = created st"
  "ivory_file (fst (snd (flip_alarm sim p h l st))) = ivory_file st" "created (fst (snd (flip_alarm sim p h l st))) = created st"
  "ivory_file (fst (restart_if_due h st)) = ivory_file st" "created (fst (restart_if_due h st)) = created st"
  "ivory_file (fst (snd (handle_key cfg h st))) = ivory_file st" "created (fst (snd (handle_key cfg h st))) = created st"
  by (simp_all add: apply_restore_def move_car_def flip_alarm_def restart_if_due_def cold_start_def handle_key_def Let_def
      split: prod.split option.split KeyCommand.split)

lemma loop_pass_stages:
  assumes "loop_pass lc i s = Some (s', acts)" "handle_events (settings lc) (events i) (dev s) = Some st"
  obtains st1 st2 st3 st4 where "st1 = fst (apply_restore (host_now i) st)" "st2 = fst (move_car (host_now i) st1)"
    "st3 = fst (snd (flip_alarm (simulatedAlarms lc) (alarmPeriod lc) (host_now i) (lastAlarmToggle s) st2))"
    "st4 = fst (restart_if_due (host_now i) st3)" "dev s' = fst (snd (handle_key (settings lc) (host_now i) st4))"
    "set (snd (restart_if_due (host_now i) st3)) \<subseteq> set acts"
proof
  let ?h = "host_now i"
  let ?st2 = "fst (move_car ?h (fst (apply_restore ?h st)))"
  let ?st3 = "fst (snd (flip_alarm (simulatedAlarms lc) (alarmPeriod lc) ?h (lastAlarmToggle s) ?st2))"
  show "dev s' = fst (snd (handle_key (settings lc) ?h (fst (restart_if_due ?h ?st3))))" "set (snd (restart_if_due ?h ?st3)) \<subseteq> set acts"
    using assms by (auto simp: loop_pass_def Let_def split: prod.splits)
qed (rule refl)+

lemma pass_after_events:
  assumes "loop_pass lc i s = Some (s', acts)" "handle_events (settings lc) (events i) (dev s) = Some st"
  shows "ivory_file (dev s') = ivory_file st" "created (dev s') = created (fst (apply_restore (host_now i) st))"
  by (rule loop_pass_stages [OF assms]; simp add: rest_of_pass_keeps)+

lemma restore_applied:
  assumes "device_inv st" "staged_for t st" "\<forall>k. add_object h k"
  shows "av_map (created (fst (apply_restore h st))) = map_option through_image \<circ> av_map t"
proof -
  let ?r = "(staged st)\<lparr>g_restorePending := False\<rparr>"
  have r: "restore_inv ?r" "restored ?r = restored (staged st)" using device_invD(8) [OF assms(1)] by (simp_all add: restore_inv_def restored_def)
  have "av_map (fst (ApplyRestoredConfiguration (add_object h) ?r (created st))) = map_of (rev (restored ?r))"
    using apply_restored [OF assms(3) device_invD(5) [OF assms(1)] r(1)] by blast
  then show ?thesis
    using assms(2) r(2) by (cases "ApplyRestoredConfiguration (add_object h) ?r (created st)") (simp add: staged_for_def apply_restore_def Let_def)
qed

lemma restore_pass:
  assumes "savable t" "restoring t (g_deviceInstance (settings lc)) (traffic [i] @ later) (dev s)" "stack_input i"
  shows "\<exists>s' acts. loop_pass lc i s = Some (s', acts) \<and> running s' = (PollKey (key_octets (host_now i)) \<noteq> Quit) \<and>
    (later \<noteq> [] \<longrightarrow> restoring t (g_deviceInstance (settings lc)) later (dev s')) \<and>
    (later = [] \<and> (\<forall>k. add_object (host_now i) k) \<longrightarrow> av_map (created (dev s')) = map_option through_image \<circ> av_map t)"
proof -
  have inv: "device_inv (dev s)" using assms(2) by (simp add: restoring_def)
  obtain st where st: "handle_events (settings lc) (events i) (dev s) = Some st" "restoring t (g_deviceInstance (settings lc)) later st"
    using restore_events_handled [OF assms(1)] assms(2,3) by (force simp: traffic_simps stack_input_def)
  obtain s' acts where s': "loop_pass lc i s = Some (s', acts)" "device_inv (dev s')" "running s' = (PollKey (key_octets (host_now i)) \<noteq> Quit)"
    using loop_pass_inv [OF inv, of i lc] assms(3) by (auto simp: stack_input_def)
  note after = pass_after_events [OF s'(1) st(1)]
  have "restoring t (g_deviceInstance (settings lc)) later (dev s')" if "later \<noteq> []"
    using restoring_cong [OF st(2) s'(2)] after(1) that by simp
  moreover have "av_map (created (dev s')) = map_option through_image \<circ> av_map t" if "later = []" "\<forall>k. add_object (host_now i) k"
    using st(2) that restore_applied [of st t "host_now i"] after(2) by (auto simp: restoring_def restore_events_def)
  ultimately show ?thesis using s' by blast
qed

section \<open>A deferred restart in the loop\<close>

fun restart_request :: "stack_event \<Rightarrow> bool" where
  "restart_request (ReinitializeEvent di state pw n) \<longleftrightarrow> True"
| "restart_request _ \<longleftrightarrow> False"

lemma no_request_keeps_timer:
  assumes "\<not> restart_request e" "handle_event cfg h e st = Some st'"
  shows "restart_timer st' = restart_timer st"
  using assms
  by (cases e; force simp: accepted_def SetPropertyReal_def SetPropertyEnumerated_def SetPropertyUnsignedInteger_def SetPropertyBool_def
      SetPropertyNull_def Let_def split: sum.splits option.splits if_splits write_outcome.splits)+

lemma no_requests_keep_timer:
  "list_all (\<lambda>(h, e). \<not> restart_request e) es \<Longrightarrow> handle_events cfg es st = Some st' \<Longrightarrow> restart_timer st' = restart_timer st"
proof (induction cfg es st rule: handle_events.induct)
  case (2 cfg h e es st)
  then obtain st1 where "handle_event cfg h e st = Some st1" "handle_events cfg es st1 = Some st'" by (auto simp: bind_eq_Some_conv)
  with 2 no_request_keeps_timer [of e cfg h st st1] show ?case by auto
qed simp

text \<open>What the rest of a pass does with the elevator and the timer, given the state its callbacks leave.\<close>

lemma rest_of_pass_elevator:
  "elev (fst (apply_restore h st)) = elev st" "restart_timer (fst (apply_restore h st)) = restart_timer st"
  "elev (fst (move_car h st)) = (elev st)\<lparr>g_liftCar := fst (LiftCarTick (clock_ns h) (g_liftCar (elev st)))\<rparr>"
  "restart_timer (fst (move_car h st)) = restart_timer st"
  "elev (fst (snd (flip_alarm sim p h l st))) = elev st" "restart_timer (fst (snd (flip_alarm sim p h l st))) = restart_timer st"
  "\<not> g_restartPending (restart_timer st) \<Longrightarrow> fst (restart_if_due h st) = st"
  "elev (fst (snd (handle_key cfg h st))) = elev st" "restart_timer (fst (snd (handle_key cfg h st))) = restart_timer st"
  "outs (fst (snd (handle_key cfg h st))) = outs st"
  by (simp_all add: apply_restore_def move_car_def flip_alarm_def restart_if_due_def RestartDue_def handle_key_def Let_def
      split: prod.split option.split KeyCommand.split)

lemma pass_restart:
  assumes "loop_pass lc i s = Some (s', acts)" "handle_events (settings lc) (events i) (dev s) = Some st"
  shows "\<exists>st3. restart_timer st3 = restart_timer st \<and> restart_timer (dev s') = restart_timer (fst (restart_if_due (host_now i) st3)) \<and>
    outs (dev s') = outs (fst (restart_if_due (host_now i) st3)) \<and> elev (dev s') = elev (fst (restart_if_due (host_now i) st3)) \<and>
    set (snd (restart_if_due (host_now i) st3)) \<subseteq> set acts"
proof (rule loop_pass_stages [OF assms])
  fix st1 st2 st3 st4
  assume "st1 = fst (apply_restore (host_now i) st)" "st2 = fst (move_car (host_now i) st1)"
    "st3 = fst (snd (flip_alarm (simulatedAlarms lc) (alarmPeriod lc) (host_now i) (lastAlarmToggle s) st2))"
    "st4 = fst (restart_if_due (host_now i) st3)" "dev s' = fst (snd (handle_key (settings lc) (host_now i) st4))"
    "set (snd (restart_if_due (host_now i) st3)) \<subseteq> set acts"
  then show ?thesis by (intro exI [of _ st3]) (simp add: rest_of_pass_elevator)
qed

lemma restart_pass:
  assumes "device_inv (dev s)" "stack_input i" "list_all (\<lambda>(h, e). \<not> restart_request e) (events i)" "g_restartPending (restart_timer (dev s))"
  shows "\<exists>s' acts. loop_pass lc i s = Some (s', acts) \<and> device_inv (dev s') \<and> running s' = (PollKey (key_octets (host_now i)) \<noteq> Quit) \<and>
    (clock_ms (host_now i) < g_restartDueAtMs (restart_timer (dev s)) \<longrightarrow> restart_timer (dev s') = restart_timer (dev s)) \<and>
    (g_restartDueAtMs (restart_timer (dev s)) \<le> clock_ms (host_now i) \<longrightarrow> \<not> g_restartPending (restart_timer (dev s')) \<and> AnnounceIAm \<in> set acts \<and>
       (g_restartKind (restart_timer (dev s)) = Cold \<longrightarrow> outs (dev s') = outputs_init \<and> elev (dev s') = elevator_init))"
proof -
  obtain s' acts where s': "loop_pass lc i s = Some (s', acts)" "device_inv (dev s')" "running s' = (PollKey (key_octets (host_now i)) \<noteq> Quit)"
    using loop_pass_inv [OF assms(1), of i lc] assms(2) by (auto simp: stack_input_def)
  obtain st where st: "handle_events (settings lc) (events i) (dev s) = Some st"
    using handle_events_inv [OF assms(1)] assms(2) by (auto simp: stack_input_def)
  have "restart_timer st = restart_timer (dev s)" using no_requests_keep_timer [OF assms(3) st] .
  moreover obtain st3 where "restart_timer st3 = restart_timer st" "restart_timer (dev s') = restart_timer (fst (restart_if_due (host_now i) st3))"
      "outs (dev s') = outs (fst (restart_if_due (host_now i) st3))" "elev (dev s') = elev (fst (restart_if_due (host_now i) st3))"
      "set (snd (restart_if_due (host_now i) st3)) \<subseteq> set acts"
    using pass_restart [OF s'(1) st] by blast
  ultimately show ?thesis
    using s' assms(4) by (auto simp: restart_if_due_def RestartDue_def Let_def cold_start_def elevator_init_def not_less split: if_splits)
qed

section \<open>The lift car in the loop\<close>

text \<open>Only a landing call and a due restart touch the elevator besides the tick of the car.\<close>

fun landing_call :: "stack_event \<Rightarrow> bool" where
  "landing_call (LandingCallEvent di grp fl choice dir dest) \<longleftrightarrow> True"
| "landing_call _ \<longleftrightarrow> False"

definition undisturbed :: "pass_input \<Rightarrow> bool" where
  "undisturbed i \<longleftrightarrow> list_all (\<lambda>(h, e). \<not> landing_call e \<and> \<not> restart_request e) (events i)"

lemma no_call_keeps_elevator:
  assumes "\<not> landing_call e" "handle_event cfg h e st = Some st'"
  shows "elev st' = elev st"
  using assms
  by (cases e; force simp: accepted_def SetPropertyReal_def SetPropertyEnumerated_def SetPropertyUnsignedInteger_def SetPropertyBool_def
      SetPropertyNull_def Let_def split: sum.splits option.splits if_splits write_outcome.splits)+

lemma no_calls_keep_elevator:
  "list_all (\<lambda>(h, e). \<not> landing_call e) es \<Longrightarrow> handle_events cfg es st = Some st' \<Longrightarrow> elev st' = elev st"
proof (induction cfg es st rule: handle_events.induct)
  case (2 cfg h e es st)
  then obtain st1 where "handle_event cfg h e st = Some st1" "handle_events cfg es st1 = Some st'" by (auto simp: bind_eq_Some_conv)
  with 2 no_call_keeps_elevator [of e cfg h st st1] show ?case by auto
qed simp

lemma undisturbed_pass:
  assumes "device_inv (dev s)" "stack_input i" "undisturbed i" "\<not> g_restartPending (restart_timer (dev s))"
  shows "\<exists>s' acts. loop_pass lc i s = Some (s', acts) \<and> device_inv (dev s') \<and> running s' = (PollKey (key_octets (host_now i)) \<noteq> Quit) \<and>
    \<not> g_restartPending (restart_timer (dev s')) \<and>
    g_liftCar (elev (dev s')) = fst (LiftCarTick (clock_ns (host_now i)) (g_liftCar (elev (dev s))))"
proof -
  let ?h = "host_now i"
  obtain s' acts where s': "loop_pass lc i s = Some (s', acts)" "device_inv (dev s')" "running s' = (PollKey (key_octets ?h) \<noteq> Quit)"
    using loop_pass_inv [OF assms(1), of i lc] assms(2) by (auto simp: stack_input_def)
  obtain st where st: "handle_events (settings lc) (events i) (dev s) = Some st"
    using handle_events_inv [OF assms(1)] assms(2) by (auto simp: stack_input_def)
  have "list_all (\<lambda>(h, e). \<not> landing_call e) (events i)" "list_all (\<lambda>(h, e). \<not> restart_request e) (events i)"
    using assms(3) by (auto simp: undisturbed_def list_all_iff)
  from no_calls_keep_elevator [OF this(1) st] no_requests_keep_timer [OF this(2) st] assms(4)
  have kept: "elev st = elev (dev s)" "\<not> g_restartPending (restart_timer st)" by simp_all
  have "g_liftCar (elev (dev s')) = fst (LiftCarTick (clock_ns ?h) (g_liftCar (elev (dev s)))) \<and> \<not> g_restartPending (restart_timer (dev s'))"
    by (rule loop_pass_stages [OF s'(1) st]) (simp add: rest_of_pass_elevator kept)
  then show ?thesis using s' by blast
qed

lemma main_loop_snoc:
  "main_loop lc is s = Some (s1, []) \<Longrightarrow> running s1 \<Longrightarrow> loop_pass lc i s1 = Some (s2, acts) \<Longrightarrow> main_loop lc (is @ [i]) s = Some (s2, [])"
proof (induction lc "is" s rule: main_loop.induct)
  case (2 lc j js s)
  then show ?case by (auto simp: bind_eq_Some_conv split: if_splits)
qed simp

lemma undisturbed_passes:
  assumes "device_inv (dev s)" "running s" "\<not> g_restartPending (restart_timer (dev s))"
    and "\<And>n. stack_input (i n) \<and> undisturbed (i n) \<and> PollKey (key_octets (host_now (i n))) \<noteq> Quit"
  shows "\<exists>s'. main_loop lc (map i [0..<n]) s = Some (s', []) \<and> device_inv (dev s') \<and> running s' \<and> \<not> g_restartPending (restart_timer (dev s')) \<and>
    g_liftCar (elev (dev s')) = tick_seq (\<lambda>n. clock_ns (host_now (i n))) n (g_liftCar (elev (dev s)))"
proof (induction n)
  case (Suc n)
  then obtain s1 where s1: "main_loop lc (map i [0..<n]) s = Some (s1, [])" "device_inv (dev s1)" "running s1" "\<not> g_restartPending (restart_timer (dev s1))"
    "g_liftCar (elev (dev s1)) = tick_seq (\<lambda>n. clock_ns (host_now (i n))) n (g_liftCar (elev (dev s)))" by blast
  from undisturbed_pass [OF s1(2) _ _ s1(4), of "i n" lc] assms(4) [of n] obtain s2 acts where
    "loop_pass lc (i n) s1 = Some (s2, acts)" "device_inv (dev s2)" "running s2" "\<not> g_restartPending (restart_timer (dev s2))"
    "g_liftCar (elev (dev s2)) = fst (LiftCarTick (clock_ns (host_now (i n))) (g_liftCar (elev (dev s1))))" by auto
  with main_loop_snoc [OF s1(1,3)] s1(5) show ?case by auto
qed (use assms in simp)

section \<open>Properties\<close>

text \<open>
  C5. Every landing call is answered by the running program: from any state the loop can be in with no
  restart pending, if the passes go on, the clock is unbounded and no further landing call, restart
  request or Quit comes, whatever else the stack calls, then for each outstanding call there is a pass
  after which the car stands at the call's floor with its door open and the call has left the list.
\<close>

theorem calls_answered_through_loop:
  assumes "device_inv (dev s)" "running s" "\<not> g_restartPending (restart_timer (dev s))"
    and "\<forall>n. stack_input (i n) \<and> undisturbed (i n) \<and> PollKey (key_octets (host_now (i n))) \<noteq> Quit"
    and "\<forall>t k. \<exists>n \<ge> k. t \<le> clock_ns (host_now (i n))"
    and "c \<in> set (active_calls (g_liftCar (elev (dev s))))"
  shows "\<exists>n s'. main_loop lc (map i [0..<n]) s = Some (s', []) \<and> running s' \<and>
    position (g_liftCar (elev (dev s'))) = floorNumber c \<and> doorStatus (g_liftCar (elev (dev s'))) = DOOR_STATUS_OPENED \<and>
    movingDirection (g_liftCar (elev (dev s'))) = LIFT_CAR_DIRECTION_STOPPED \<and> c \<notin> set (active_calls (g_liftCar (elev (dev s'))))"
proof -
  let ?now = "\<lambda>n. clock_ns (host_now (i n))" and ?car = "g_liftCar (elev (dev s))"
  obtain n where n: "position (tick_seq ?now n ?car) = floorNumber c" "doorStatus (tick_seq ?now n ?car) = DOOR_STATUS_OPENED"
    "movingDirection (tick_seq ?now n ?car) = LIFT_CAR_DIRECTION_STOPPED" "c \<notin> set (active_calls (tick_seq ?now n ?car))"
    using call_answered [OF device_invD(4) [OF assms(1)] _ assms(6), of ?now] assms(5) by blast
  obtain s' where "main_loop lc (map i [0..<n]) s = Some (s', [])" "running s'" "g_liftCar (elev (dev s')) = tick_seq ?now n ?car"
    using undisturbed_passes [OF assms(1-3), of i lc n] assms(4) by blast
  with n show ?thesis by (intro exI [of _ n] exI [of _ s']) simp
qed


text \<open>
  C18. A restart through the main loop: while a restart is pending and no other is requested, whatever else
  the stack calls, every pass before the deadline leaves it pending, and the first pass from the deadline
  on performs it: the device announces itself, nothing is pending any more, and after a cold start the
  outputs and the elevator are as at power-on.
\<close>

theorem restart_through_loop:
  assumes "device_inv (dev s)" "running s" "g_restartPending (restart_timer (dev s))"
    and "list_all stack_input (before @ [final])" "list_all (\<lambda>i. list_all (\<lambda>(h, e). \<not> restart_request e) (events i)) (before @ [final])"
    and "list_all (\<lambda>i. PollKey (key_octets (host_now i)) \<noteq> Quit \<and> clock_ms (host_now i) < g_restartDueAtMs (restart_timer (dev s))) before"
    and "g_restartDueAtMs (restart_timer (dev s)) \<le> clock_ms (host_now final)"
  shows "\<exists>s1 s2 acts. main_loop lc before s = Some (s1, []) \<and> restart_timer (dev s1) = restart_timer (dev s) \<and>
    loop_pass lc final s1 = Some (s2, acts) \<and> AnnounceIAm \<in> set acts \<and> \<not> g_restartPending (restart_timer (dev s2)) \<and>
    (g_restartKind (restart_timer (dev s)) = Cold \<longrightarrow> outs (dev s2) = outputs_init \<and> elev (dev s2) = elevator_init)"
  using assms
proof (induction before arbitrary: s)
  case Nil
  then show ?case using restart_pass [of s final lc] by fastforce
next
  case (Cons i before)
  obtain s1 acts where p: "loop_pass lc i s = Some (s1, acts)" "device_inv (dev s1)" "running s1" "restart_timer (dev s1) = restart_timer (dev s)"
    using restart_pass [of s i lc] Cons.prems by auto
  from Cons.IH [OF p(2,3)] Cons.prems p obtain s2 s3 acts' where
    "main_loop lc before s1 = Some (s2, [])" "restart_timer (dev s2) = restart_timer (dev s)" "loop_pass lc final s2 = Some (s3, acts')"
    "AnnounceIAm \<in> set acts'" "\<not> g_restartPending (restart_timer (dev s3))"
    "g_restartKind (restart_timer (dev s)) = Cold \<longrightarrow> outs (dev s3) = outputs_init \<and> elev (dev s3) = elevator_init"
    by auto
  with p Cons.prems(2) show ?case by auto
qed

text \<open>Witnesses: a restore of one Analog Value in two passes, and a cold start asked for at power-on.\<close>

definition plain_settings :: loop_config where
  "plain_settings = \<lparr>settings = cfg0, simulatedAlarms = True, alarmPeriod = 30\<rparr>"

definition pass_of :: "stack_event list \<Rightarrow> u64 \<Rightarrow> pass_input" where
  "pass_of es ms = \<lparr>events = map (Pair example_host) es, host_now = example_host\<lparr>clock_ms := ms\<rparr>\<rparr>"

lemma pass_of_simps:
  "events (pass_of es ms) = map (Pair example_host) es" "clock_ms (host_now (pass_of es ms)) = ms" "add_object (host_now (pass_of es ms)) k"
  "PollKey (key_octets (host_now (pass_of es ms))) = NoKey" "stack_input (pass_of es ms) \<longleftrightarrow> list_all well_formed es"
  by (simp_all add: pass_of_def example_host_def PollKey_def stack_input_def list.pred_map comp_def)

lemma traffic_pass_of: "traffic (pass_of es ms # is) = filter (\<lambda>e. \<not> quiet e) es @ traffic is"
  by (simp add: traffic_simps pass_of_simps comp_def)


theorem restart_through_loop_witness:
  "\<exists>s2 acts. loop_pass plain_settings (pass_of [] 1000)
      (power_on example_host 0\<lparr>dev := dev (power_on example_host 0)\<lparr>restart_timer := \<lparr>g_restartPending = True, g_restartDueAtMs = 1000, g_restartKind = Cold\<rparr>\<rparr>\<rparr>) =
        Some (s2, acts) \<and> AnnounceIAm \<in> set acts \<and> outs (dev s2) = outputs_init"
proof -
  let ?s = "power_on example_host 0\<lparr>dev := dev (power_on example_host 0)\<lparr>restart_timer := \<lparr>g_restartPending = True, g_restartDueAtMs = 1000, g_restartKind = Cold\<rparr>\<rparr>\<rparr>"
  have "device_inv (dev ?s)" using device_inv_upd(8) [OF power_on_inv] by simp
  moreover have "running ?s" by (simp add: power_on_def)
  ultimately show ?thesis
    using restart_through_loop [of ?s "[]" "pass_of [] 1000" plain_settings] by (auto simp: pass_of_simps)
qed

text \<open>Three calls, and a pass a nanosecond in which a client writes the Lift's \<open>Out_Of_Service\<close>.\<close>

definition ns_pass :: "nat \<Rightarrow> pass_input" where
  "ns_pass n = \<lparr>events = [(example_host, WriteBool 389014 59 1 81 True)], host_now = example_host\<lparr>clock_ns := int n\<rparr>\<rparr>"

definition with_three_calls :: loop_state where
  "with_three_calls = (let s = power_on example_host 0 in s\<lparr>dev := (dev s)\<lparr>elev := (elev (dev s))\<lparr>g_liftCar := three_calls\<rparr>\<rparr>\<rparr>)"

theorem calls_answered_through_loop_witness:
  "\<exists>n s'. main_loop plain_settings (map ns_pass [0..<n]) with_three_calls = Some (s', []) \<and>
     position (g_liftCar (elev (dev s'))) = 7 \<and> doorStatus (g_liftCar (elev (dev s'))) = DOOR_STATUS_OPENED"
proof -
  let ?c = "\<lparr>floorNumber = 7, direction = LIFT_CAR_DIRECTION_DOWN\<rparr>"
  have "device_inv (dev with_three_calls)"
    using power_on_inv [of example_host 0] three_calls_inv by (simp add: with_three_calls_def Let_def device_inv_def)
  moreover have "running with_three_calls" "\<not> g_restartPending (restart_timer (dev with_three_calls))"
    by (simp_all add: with_three_calls_def Let_def power_on_def device_init_def restart_init_def)
  moreover have "\<forall>n. stack_input (ns_pass n) \<and> undisturbed (ns_pass n) \<and> PollKey (key_octets (host_now (ns_pass n))) \<noteq> Quit"
    by (simp add: ns_pass_def stack_input_def undisturbed_def example_host_def PollKey_def)
  moreover have "\<exists>n \<ge> k. t \<le> clock_ns (host_now (ns_pass n))" for t k
    by (intro exI [of _ "max k (nat t)"]) (auto simp: ns_pass_def)
  moreover have "?c \<in> set (active_calls (g_liftCar (elev (dev with_three_calls))))"
    by (simp add: with_three_calls_def Let_def three_calls_def active_calls_def)
  ultimately show ?thesis
    using calls_answered_through_loop [of with_three_calls ns_pass ?c plain_settings] by fastforce
qed

end
