(* ===== verification/Spec2Isabelle.thy ===== *)
theory Spec2Isabelle
  imports Program Logging Loop_Scenarios
begin

text \<open>
  Verification of the BACnet B-AEC (Advanced Elevator Controller) example, a C++ program of one file
  (\<open>src/main.cpp\<close>) and a small shared library (\<open>src/common/\<close>) on top of the CAS BACnet Stack.

  \<^bold>\<open>The program.\<close> \<open>main\<close> reads the command line, binds a UDP socket, registers callbacks with the stack,
  creates the device's objects and enters a loop. In each pass \<open>BACnetStack_Tick\<close> receives and sends
  BACnet/IP messages through the transport callbacks and calls the application's callbacks to read and
  write properties, create and delete Analog Values, read and write the file, synchronise the clock,
  restart the device, and back up and restore its configuration. The rest of the pass applies a
  restored configuration, moves the simulated elevator car, flips a simulated alarm, performs a
  restart that is due and handles a key. The state is in file-scope variables.

  \<^bold>\<open>What models what.\<close> One theory per part, in the order of their imports; definitions keep the names
  of the code's functions and variables.

  \<^item> \<open>AEC_Prelude\<close>: the integer types as words, the result type of a callback (\<open>Inr\<close> true with the
    out-parameter, \<open>Inl\<close> false with the error code), array writes, and the interfaces shared by the
    components (invariants of a transition system, lists read one element at a time).
  \<^item> \<open>C_Float\<close>, \<open>C_Text\<close>: the C library the code relies on: \<open>float\<close> and \<open>double\<close> with their conversions and
    rounding, \<open>strtoul\<close>, \<open>strtod\<close> and the formats \<open>%u\<close> and \<open>%.6g\<close>, with the round trips between them.
  \<^item> \<open>BACnet_Constants\<close>: the constants of \<open>CASBACnetStackExampleConstants.h\<close> and of \<open>main.cpp\<close>.
  \<^item> \<open>Lift_Car\<close>: \<open>g_liftCar\<close>, \<open>LiftCarOpenDoor\<close>, \<open>LiftCarHasCallAt\<close>, \<open>LiftCarTick\<close>. The compaction loop is a
    filter, the car's invariant, every call is answered, changes are announced.
  \<^item> \<open>Landing_Calls\<close>: the write of \<open>Landing_Call_Control\<close> and the paged list callbacks; the elevator as a
    transition system of ticks, writes and cold restarts with its safety invariant.
  \<^item> \<open>Outputs\<close>: \<open>Commandable\<close> and its operations; a refinement of BACnet command prioritization.
  \<^item> \<open>Analog_Values\<close>: the table of created Analog Values; a refinement of a map with capacity eight.
  \<^item> \<open>Device_Management\<close>: passwords, \<open>ReinitializeDevice\<close>, \<open>DeviceCommunicationControl\<close>, the deferred restart.
  \<^item> \<open>Device_Clock\<close>: \<open>SetSystemTime\<close>, \<open>Local_Date\<close> and \<open>Local_Time\<close>; \<open>localtime\<close> and \<open>mktime\<close> are arguments.
  \<^item> \<open>Ivory_File\<close>: \<open>ReadFile\<close>, \<open>WriteFile\<close>, \<open>File_Size\<close>, with an explicit out-of-bounds outcome.
  \<^item> \<open>Config_Image\<close>: the backup image, its parser and its application; backup and restore as a round trip.
  \<^item> \<open>Application\<close>: the file-scope state as one record and the invariant of all components together.
  \<^item> \<open>Property_Read\<close>, \<open>Property_Write\<close>: the typed get and set callbacks, branch by branch.
  \<^item> \<open>Name_Tables\<close>: the name tables of the frame log and the binary search over them.
  \<^item> \<open>Frame_Decode\<close>: \<open>DecodeTagHeader\<close>, \<open>DecodeObjectAndProperty\<close>, \<open>DecodeBacnetFrame\<close> with checked reads: no
    read leaves the frame, and an encoded request decodes to what was encoded.
  \<^item> \<open>Frame_Summary\<close>: \<open>SummarizeBacnetFrame\<close> with its buffers, \<open>PrintFrameAsXml\<close>, \<open>LogBacnetFrame\<close>.
  \<^item> \<open>Transport\<close>: \<open>SimpleUDP\<close>, the bindings table, \<open>HelperReceiveMessage\<close>, \<open>HelperSendMessage\<close>,
    \<open>IsStackChosenBroadcast\<close>, \<open>SendIAm\<close>, and the choice of the local address; the transport as a transition
    system.
  \<^item> \<open>Command_Line\<close>: the argument parsers and what \<open>main\<close> takes from them.
  \<^item> \<open>Main_Loop\<close>: one pass of the loop with the stack's callbacks as events, and the loop; the whole
    device as a transition system whose invariant is that of \<open>Application\<close>.
  \<^item> \<open>Loop_Scenarios\<close>: procedures that span components and passes: a restore whose steps arrive one by one
    between other traffic, a restart that becomes due, and the landing calls, each answered as the passes go
    on.
  \<^item> \<open>Setup_Calls\<close>: the calls into the stack before the loop, with their arguments and error messages, in
    the code's order; the run that stops at the first refusal; every call names only existing objects.
  \<^item> \<open>Startup\<close>: \<open>main\<close> up to the loop: loading, settings, socket, set-up, start-up I-Am. The objects and
    properties it exposes are those the callbacks serve, and it hands the loop a state of \<open>Main_Loop\<close>.
  \<^item> \<open>Host_Services\<close>: the link speed query, the terminal mode (\<open>EnableRawInput\<close>, \<open>RestoreInput\<close>) as a
    transition system, the monotonic clock, and the Windows variants of \<open>GetPrimaryIPv4\<close> and \<open>PollKey\<close>.
  \<^item> \<open>Callback_Interface\<close>: the callbacks that answer the stack without changing the state, as one interface; with
    the events of \<open>Main_Loop\<close> and the two transport callbacks these are all the callbacks registered.
  \<^item> \<open>Help_Text\<close>: the help and version texts, and the options they document.
  \<^item> \<open>Wire_Log\<close>: the transport callbacks together with the entries they print; every message and datagram is
    logged, and messages are delivered in order.
  \<^item> \<open>Process\<close>: application, transport and terminal composed: a tick interleaves callbacks of the
    application, queries, callbacks of the transport and arriving datagrams; the calls of the loop into the stack make
    it send; a key poll sets the terminal mode. The process refines the loop of \<open>Main_Loop\<close>.
  \<^item> \<open>Program\<close>: \<open>main\<close> from the command line to its exit status, with all that is received, sent and printed.
  \<^item> \<open>Logging\<close>: the logging facility of \<open>CASExampleLog\<close>: levels, timestamps, lines.

  \<^bold>\<open>Conventions.\<close> Machine integers are words, so additions wrap as in the code; \<open>int\<close> is used for \<open>time_t\<close>
  and the steady clock, whose range is not reached, and \<open>nat\<close> for offsets into frames and counters, whose
  bounds are part of the invariants or, for frames, below 65536 + 520. A read or write outside an array
  is an outcome of its own (\<open>None\<close> or \<open>Overrun\<close>) wherever data from the network decides the index, and
  its absence is a theorem. Loops are structural recursion or functions with a termination proof. Two
  loops have a list in place of fuel: \<open>poll_bindings\<close> runs as many rounds as there are bindings, as the
  code does, and \<open>main_loop\<close> takes the inputs of its passes, which may be any list. \<open>page_walk\<close> and the
  file clients have fuel, with theorems that more than the length of the list (or file) is enough.

  \<^bold>\<open>The properties.\<close> The safety properties say that no state reachable from power-on leaves an array or
  breaks a component's invariant, for every sequence of callbacks the stack may make; the refinements
  that the priority arrays and the table of Analog Values implement their BACnet specification; the
  round trips that backup and restore, file transfer and frame coding lose nothing but what is stated;
  the liveness properties that calls are answered, restarts happen, sockets are served; the properties of
  the whole program that it starts only as a complete device, that its components do not disturb each
  other while it runs, and when and how it ends. The assumption
  on the stack is \<open>well_formed\<close> in \<open>Main_Loop\<close>: real values are \<open>float\<close>s and a file position is at
  least -1. \<open>Ivory_File.write_file_wraps_around\<close> shows that the second part is needed.

  \<^bold>\<open>Not modelled.\<close> The CAS BACnet Stack (a licensed library that is not in the repository): its callbacks
  are the interface of the model, its answers are arguments, and what it does with a set-up call is
  unknown beyond acceptance or refusal. Console texts other than the frame log, the help and version
  texts and the set-up's error messages. The host calls themselves (sockets, clocks, terminal,
  environment, \<open>/sys\<close> files), whose outcomes are arguments, and the Windows branch of the socket code,
  which differs only in the names of the calls. The wire tests, scripts and documents.
\<close>

end
